(* ===== verification/Prelude.thy ===== *)
theory Prelude
  imports Main
begin

text \<open>
  Shared vocabulary of the development: the Python exceptions the program can raise, the
  result type \<open>'a res\<close> (an exception or a value), Python values as produced by
  \<open>json.loads\<close> and \<open>yaml.load\<close> (\<open>pyval\<close>), Python dictionaries as insertion-ordered
  association lists, and Python truthiness.  Text (\<open>str\<close>) is a list of Unicode code
  points and binary data (\<open>bytes\<close>) a list of byte values, both as \<open>nat list\<close>; the
  abbreviation \<open>py\<close> turns an ASCII literal into either.
\<close>

named_theorems py_simps "evaluation rules of the Python library model"

subsection \<open>Exceptions and results\<close>

datatype py_exc =
    ValueError          \<comment> \<open>\<open>int()\<close> of a malformed string; non-ASCII text given to \<open>b64decode\<close>\<close>
  | Base64Error         \<comment> \<open>\<open>binascii.Error\<close>: incorrect padding or a stray data character\<close>
  | UnicodeDecodeError  \<comment> \<open>\<open>bytes.decode('utf-8')\<close> of malformed UTF-8\<close>
  | JSONDecodeError     \<comment> \<open>\<open>json.loads\<close> of malformed JSON\<close>
  | IndexError          \<comment> \<open>\<open>xs[i]\<close> out of range\<close>
  | KeyError            \<comment> \<open>\<open>d[k]\<close> with \<open>k\<close> absent\<close>
  | TypeError           \<comment> \<open>an operation applied to a value of the wrong type\<close>
  | AttributeError      \<comment> \<open>\<open>.get\<close>, \<open>.strip\<close>, \<open>.extend\<close> on a value without it\<close>
  | RequestException    \<comment> \<open>\<open>requests\<close> failed to retrieve a document\<close>
  | FileNotFoundError   \<comment> \<open>the local configuration file is missing\<close>
  | SystemExit          \<comment> \<open>\<open>sys.exit()\<close>\<close>
  | YAMLError           \<comment> \<open>\<open>yaml.load\<close> of a malformed document\<close>

type_synonym 'a res = "py_exc + 'a"

type_synonym bytes = "nat list"
type_synonym pystr = "nat list"

abbreviation py :: "string \<Rightarrow> nat list" where
  "py s \<equiv> map of_char s"

text \<open>The type invariant of \<open>bytes\<close>: every item is a byte value.\<close>

definition bytes_ok :: "bytes \<Rightarrow> bool" where
  "bytes_ok bs \<longleftrightarrow> list_all (\<lambda>b. b < 256) bs"

lemma bytes_ok_Nil [simp]: "bytes_ok []"
  by (simp add: bytes_ok_def)

lemma bytes_ok_Cons [simp]: "bytes_ok (b # bs) \<longleftrightarrow> b < 256 \<and> bytes_ok bs"
  by (simp add: bytes_ok_def)

lemma bytes_ok_append [simp]: "bytes_ok (xs @ ys) \<longleftrightarrow> bytes_ok xs \<and> bytes_ok ys"
  by (simp add: bytes_ok_def)

definition rbind :: "'a res \<Rightarrow> ('a \<Rightarrow> 'b res) \<Rightarrow> 'b res" where
  "rbind r f = (case r of Inl e \<Rightarrow> Inl e | Inr a \<Rightarrow> f a)"

lemma rbind_Inl [simp]: "rbind (Inl e) f = Inl e"
  and rbind_Inr [simp]: "rbind (Inr a) f = f a"
  by (simp_all add: rbind_def)

lemma rbind_eq_Inr_iff:
  "rbind r f = Inr b \<longleftrightarrow> (\<exists>a. r = Inr a \<and> f a = Inr b)"
  by (cases r) simp_all

lemma rbind_eq_Inl_iff:
  "rbind r f = Inl e \<longleftrightarrow> r = Inl e \<or> (\<exists>a. r = Inr a \<and> f a = Inl e)"
  by (cases r) simp_all

text \<open>A Python \<open>for\<close> loop that fails at the first exception.\<close>

fun rfold :: "('a \<Rightarrow> 's \<Rightarrow> 's res) \<Rightarrow> 'a list \<Rightarrow> 's \<Rightarrow> 's res" where
  "rfold f [] s = Inr s"
| "rfold f (x # xs) s = rbind (f x s) (rfold f xs)"

lemma rfold_append:
  "rfold f (xs @ ys) s = rbind (rfold f xs s) (rfold f ys)"
  by (induction xs arbitrary: s) (simp_all add: rbind_def split: sum.splits)

lemma rfold_invariant:
  assumes "P s" and "rfold f xs s = Inr t"
    and step: "\<And>x s s'. P s \<Longrightarrow> f x s = Inr s' \<Longrightarrow> P s'"
  shows "P t"
  using assms(1,2)
proof (induction xs arbitrary: s)
  case Nil
  then show ?case by simp
next
  case (Cons x xs)
  then obtain s' where "f x s = Inr s'" and "rfold f xs s' = Inr t"
    by (auto simp: rbind_eq_Inr_iff)
  with Cons.IH Cons.prems(1) step show ?case by blast
qed

text \<open>The same, for a property that only the items of the loop preserve.\<close>

lemma rfold_invariant_on:
  assumes "P s" and "rfold f xs s = Inr t"
    and step: "\<And>x s s'. x \<in> set xs \<Longrightarrow> P s \<Longrightarrow> f x s = Inr s' \<Longrightarrow> P s'"
  shows "P t"
  using assms
proof (induction xs arbitrary: s)
  case (Cons x xs)
  then obtain s' where "f x s = Inr s'" and "rfold f xs s' = Inr t"
    by (auto simp: rbind_eq_Inr_iff)
  with Cons.IH Cons.prems(1,3) show ?case by (meson list.set_intros)
qed simp

text \<open>A loop that applies \<open>f\<close> to each item and collects the results.\<close>

definition rmap :: "('a \<Rightarrow> 'b res) \<Rightarrow> 'a list \<Rightarrow> 'b list res" where
  "rmap f xs = rfold (\<lambda>x acc. rbind (f x) (\<lambda>y. Inr (acc @ [y]))) xs []"

lemma rbind_assoc: "rbind (rbind r f) g = rbind r (\<lambda>x. rbind (f x) g)"
  by (cases r) simp_all

lemma rfold_collect:
  "rfold (\<lambda>x acc. rbind (f x) (\<lambda>y. Inr (acc @ [y]))) xs acc =
   rbind (rmap f xs) (\<lambda>ys. Inr (acc @ ys))"
  unfolding rmap_def
proof (induction xs arbitrary: acc)
  case Nil
  then show ?case by simp
next
  case (Cons x xs)
  show ?case
  proof (cases "f x")
    case (Inl e)
    then show ?thesis by simp
  next
    case (Inr y)
    with Cons.IH [of "acc @ [y]"] Cons.IH [of "[y]"] show ?thesis by (simp add: rbind_assoc)
  qed
qed

lemma rmap_Nil [simp]: "rmap f [] = Inr []"
  by (simp add: rmap_def)

lemma rmap_Cons:
  "rmap f (x # xs) = rbind (f x) (\<lambda>y. rbind (rmap f xs) (\<lambda>ys. Inr (y # ys)))"
proof (cases "f x")
  case (Inl e)
  then show ?thesis by (simp add: rmap_def)
next
  case (Inr y)
  then have "rmap f (x # xs) = rfold (\<lambda>x acc. rbind (f x) (\<lambda>y. Inr (acc @ [y]))) xs [y]"
    by (simp add: rmap_def)
  also have "\<dots> = rbind (rmap f xs) (\<lambda>ys. Inr ([y] @ ys))"
    by (rule rfold_collect)
  finally show ?thesis using Inr by simp
qed

lemma rmap_Inr_length: "rmap f xs = Inr ys \<Longrightarrow> length ys = length xs"
  by (induction xs arbitrary: ys) (auto simp: rmap_Cons rbind_eq_Inr_iff)

lemma rmap_Inr_nth:
  "rmap f xs = Inr ys \<Longrightarrow> i < length xs \<Longrightarrow> f (xs ! i) = Inr (ys ! i)"
proof (induction xs arbitrary: ys i)
  case Nil
  then show ?case by simp
next
  case (Cons x xs)
  then obtain y ys' where "f x = Inr y" "rmap f xs = Inr ys'" "ys = y # ys'"
    by (auto simp: rmap_Cons rbind_eq_Inr_iff)
  with Cons show ?case by (cases i) auto
qed

subsection \<open>Dictionaries\<close>

text \<open>
  A Python \<open>dict\<close> keeps its keys in insertion order: assigning to a present key
  replaces the value in place, assigning to an absent key appends the pair, \<open>del\<close>
  removes the pair.  It is an association list whose keys are distinct.
\<close>

type_synonym 'v pydict = "(pystr \<times> 'v) list"

definition dict_wf :: "'v pydict \<Rightarrow> bool" where
  "dict_wf d \<longleftrightarrow> distinct (map fst d)"

fun dict_set :: "'v pydict \<Rightarrow> pystr \<Rightarrow> 'v \<Rightarrow> 'v pydict" where
  "dict_set [] k v = [(k, v)]"
| "dict_set ((k', v') # d) k v =
     (if k' = k then (k, v) # d else (k', v') # dict_set d k v)"

definition dict_del :: "'v pydict \<Rightarrow> pystr \<Rightarrow> 'v pydict" where
  "dict_del d k = filter (\<lambda>p. fst p \<noteq> k) d"

lemma map_of_dict_set [simp]: "map_of (dict_set d k v) = (map_of d)(k \<mapsto> v)"
  by (induction d) (auto simp: fun_eq_iff)

lemma map_of_dict_del [simp]: "map_of (dict_del d k) = (map_of d)(k := None)"
  by (induction d) (auto simp: dict_del_def fun_eq_iff)

lemma keys_dict_set:
  "map fst (dict_set d k v) = (if k \<in> set (map fst d) then map fst d else map fst d @ [k])"
  by (induction d) (fastforce simp: image_iff)+

lemma keys_dict_del: "map fst (dict_del d k) = filter (\<lambda>k'. k' \<noteq> k) (map fst d)"
  by (induction d) (auto simp: dict_del_def)

lemma dict_wf_set [intro]: "dict_wf d \<Longrightarrow> dict_wf (dict_set d k v)"
  by (auto simp: dict_wf_def keys_dict_set)

lemma dict_wf_del [intro]: "dict_wf d \<Longrightarrow> dict_wf (dict_del d k)"
  by (simp add: dict_wf_def keys_dict_del)

lemma dict_wf_filter [intro]: "dict_wf d \<Longrightarrow> dict_wf (filter P d)"
  by (induction d) (auto simp: dict_wf_def)

subsection \<open>Python values\<close>

text \<open>
  The values \<open>json.loads\<close> and \<open>yaml.load\<close> produce and that the program stores in its
  records and in the configuration document.  Numbers other than integers never reach a
  branch of the program, so there is no float.
\<close>

datatype pyval =
    PNone
  | PBool bool
  | PInt int
  | PStr pystr
  | PList "pyval list"
  | PDict "(pystr \<times> pyval) list"

text \<open>\<open>d.get(k)\<close>: the value under \<open>k\<close>, or \<open>None\<close>.\<close>

definition dget :: "pyval pydict \<Rightarrow> pystr \<Rightarrow> pyval" where
  "dget d k = (case map_of d k of None \<Rightarrow> PNone | Some v \<Rightarrow> v)"

lemma dget_Nil: "dget [] k = PNone"
  and dget_Cons: "dget (p # d) k = (if k = fst p then snd p else dget d k)"
  by (simp_all add: dget_def)

lemma dget_dict_set [simp]: "dget (dict_set d k v) k' = (if k' = k then v else dget d k')"
  by (simp add: dget_def)

lemma dget_dict_del [simp]: "dget (dict_del d k) k' = (if k' = k then PNone else dget d k')"
  by (simp add: dget_def)

text \<open>Python truthiness: \<open>None\<close>, \<open>False\<close>, \<open>0\<close> and empty containers are false.\<close>

fun truthy :: "pyval \<Rightarrow> bool" where
  "truthy PNone = False"
| "truthy (PBool b) = b"
| "truthy (PInt i) = (i \<noteq> 0)"
| "truthy (PStr s) = (s \<noteq> [])"
| "truthy (PList xs) = (xs \<noteq> [])"
| "truthy (PDict d) = (d \<noteq> [])"

text \<open>\<open>name_of r\<close> is \<open>r.get('name')\<close> of a record, \<open>None\<close> for a value that is no dict.\<close>

fun name_of :: "pyval \<Rightarrow> pyval" where
  "name_of (PDict d) = dget d (py ''name'')"
| "name_of _ = PNone"

text \<open>\<open>for x in v\<close>: a list yields its items, a dict its keys, a string its
  characters; other values are not iterable.\<close>

fun py_iter :: "pyval \<Rightarrow> pyval list res" where
  "py_iter (PList xs) = Inr xs"
| "py_iter (PDict d) = Inr (map (\<lambda>p. PStr (fst p)) d)"
| "py_iter (PStr s) = Inr (map (\<lambda>c. PStr [c]) s)"
| "py_iter _ = Inl TypeError"

text \<open>Values nested in a value, for well-formedness stated over whole documents.\<close>

fun pyval_wf :: "pyval \<Rightarrow> bool" where
  "pyval_wf (PList xs) = (\<forall>x \<in> set xs. pyval_wf x)"
| "pyval_wf (PDict d) = (dict_wf d \<and> (\<forall>p \<in> set d. pyval_wf (snd p)))"
| "pyval_wf _ = True"

subsection \<open>The feed\<close>

text \<open>
  The accumulator \<open>{'proxy_list': [...], 'proxy_names': [...]}\<close> that the normalizers
  return and \<open>get_proxies\<close> extends: the records and, index by index, their names.
\<close>

record feed =
  proxy_list :: "pyval list"
  proxy_names :: "pyval list"

definition feed_empty :: feed where
  "feed_empty = \<lparr>proxy_list = [], proxy_names = []\<rparr>"

text \<open>\<open>a['proxy_list'].extend(b['proxy_list']); a['proxy_names'].extend(b['proxy_names'])\<close>\<close>

definition feed_extend :: "feed \<Rightarrow> feed \<Rightarrow> feed" where
  "feed_extend a b =
     \<lparr>proxy_list = proxy_list a @ proxy_list b, proxy_names = proxy_names a @ proxy_names b\<rparr>"

text \<open>The names are the records' \<open>name\<close> fields, in order.\<close>

definition feed_aligned :: "feed \<Rightarrow> bool" where
  "feed_aligned f \<longleftrightarrow> proxy_names f = map name_of (proxy_list f)"

lemma feed_aligned_empty [intro]: "feed_aligned feed_empty"
  by (simp add: feed_aligned_def feed_empty_def)

lemma feed_aligned_extend [intro]:
  "feed_aligned a \<Longrightarrow> feed_aligned b \<Longrightarrow> feed_aligned (feed_extend a b)"
  by (simp add: feed_aligned_def feed_extend_def)

lemma feed_aligned_length: "feed_aligned f \<Longrightarrow> length (proxy_names f) = length (proxy_list f)"
  by (simp add: feed_aligned_def)

lemma feed_extend_assoc: "feed_extend (feed_extend a b) c = feed_extend a (feed_extend b c)"
  by (simp add: feed_extend_def)

lemma feed_extend_empty [simp]: "feed_extend feed_empty f = f" "feed_extend f feed_empty = f"
  by (simp_all add: feed_extend_def feed_empty_def)

end
