(* ===== verification/PyStr.thy ===== *)
theory PyStr
  imports Prelude
begin

text \<open>
  The methods of Python's \<open>str\<close> and \<open>bytes\<close> that the program calls, over code-point and
  byte lists: \<open>startswith\<close>, \<open>find\<close>, \<open>split(sep)\<close> with its inverse \<open>sep.join\<close>,
  \<open>strip()\<close> and \<open>isspace()\<close> with Python's whitespace set, \<open>bytes.splitlines()\<close>, and
  \<open>int()\<close> applied to the values the program converts.  Slicing \<open>s[i:]\<close> and \<open>s[:i]\<close>
  with \<open>0 \<le> i\<close> is \<open>drop i s\<close> and \<open>take i s\<close>, as in Python also beyond the end.
\<close>

subsection \<open>startswith and find\<close>

definition startswith :: "'a list \<Rightarrow> 'a list \<Rightarrow> bool" where
  "startswith s p \<longleftrightarrow> take (length p) s = p"

text \<open>\<open>s.find(n)\<close>: the least index at which \<open>n\<close> occurs in \<open>s\<close>; \<open>None\<close> for Python's \<open>-1\<close>.\<close>

fun find_sub :: "'a list \<Rightarrow> 'a list \<Rightarrow> nat option" where
  "find_sub n [] = (if n = [] then Some 0 else None)"
| "find_sub n (c # cs) = (if startswith (c # cs) n then Some 0 else map_option Suc (find_sub n cs))"

lemma startswith_Nil [simp]: "startswith s []"
  by (simp add: startswith_def)

lemma startswith_append [simp]: "startswith (p @ s) p"
  by (simp add: startswith_def)

lemma startswith_length: "startswith s p \<Longrightarrow> length p \<le> length s"
proof -
  assume "startswith s p"
  then have "length (take (length p) s) = length p" by (simp add: startswith_def)
  then show ?thesis by (simp add: min_def split: if_splits)
qed

lemma find_sub_SomeD:
  "find_sub n s = Some i \<Longrightarrow> i + length n \<le> length s \<and> take (length n) (drop i s) = n"
proof (induction n s arbitrary: i rule: find_sub.induct)
  case (1 n)
  then show ?case by (simp split: if_splits)
next
  case (2 n c cs)
  show ?case
  proof (cases "startswith (c # cs) n")
    case True
    with "2.prems" have "i = 0" by simp
    with True show ?thesis
      using startswith_length [OF True] by (simp add: startswith_def)
  next
    case False
    with "2.prems" obtain j where "find_sub n cs = Some j" and "i = Suc j" by auto
    with "2.IH" False show ?thesis by simp
  qed
qed

lemma find_sub_least:
  "find_sub n s = Some i \<Longrightarrow> j < i \<Longrightarrow> \<not> startswith (drop j s) n"
proof (induction n s arbitrary: i j rule: find_sub.induct)
  case (1 n)
  then show ?case by (simp split: if_splits)
next
  case (2 n c cs)
  then obtain i' where i': "i = Suc i'" "find_sub n cs = Some i'" "\<not> startswith (c # cs) n"
    by (auto split: if_splits)
  show ?case
  proof (cases j)
    case 0
    with i' show ?thesis by simp
  next
    case (Suc j')
    with "2.IH" i' "2.prems"(2) show ?thesis by simp
  qed
qed

lemma find_sub_None:
  "find_sub n s = None \<longleftrightarrow> (\<forall>j \<le> length s. \<not> startswith (drop j s) n)"
proof (induction n s rule: find_sub.induct)
  case (1 n)
  then show ?case by (simp add: startswith_def)
next
  case (2 n c cs)
  show ?case
  proof (cases "startswith (c # cs) n")
    case True
    then show ?thesis by (auto intro: exI [of _ 0])
  next
    case False
    have "(\<forall>j \<le> length (c # cs). \<not> startswith (drop j (c # cs)) n) \<longleftrightarrow>
          (\<forall>j \<le> length cs. \<not> startswith (drop j cs) n)"
    proof
      assume A: "\<forall>j \<le> length (c # cs). \<not> startswith (drop j (c # cs)) n"
      show "\<forall>j \<le> length cs. \<not> startswith (drop j cs) n"
      proof (intro allI impI)
        fix j assume "j \<le> length cs"
        then show "\<not> startswith (drop j cs) n" using A [rule_format, of "Suc j"] by simp
      qed
    next
      assume B: "\<forall>j \<le> length cs. \<not> startswith (drop j cs) n"
      show "\<forall>j \<le> length (c # cs). \<not> startswith (drop j (c # cs)) n"
      proof (intro allI impI)
        fix j assume j: "j \<le> length (c # cs)"
        show "\<not> startswith (drop j (c # cs)) n"
        proof (cases j)
          case 0
          with False show ?thesis by simp
        next
          case (Suc j')
          with j B show ?thesis by simp
        qed
      qed
    qed
    with False "2.IH" show ?thesis by simp
  qed
qed

lemma find_sub_single:
  "find_sub [x] s = (if x \<in> set s then Some (length (takeWhile (\<lambda>c. c \<noteq> x) s)) else None)"
  by (induction s) (auto simp: startswith_def)

subsection \<open>split and join\<close>

lemma find_sub_drop_shorter:
  assumes "find_sub sep s = Some i" and "sep \<noteq> []"
  shows "length (drop (i + length sep) s) < length s"
  using find_sub_SomeD [OF assms(1)] assms(2) by (cases sep) auto

text \<open>\<open>s.split(sep)\<close> for a non-empty separator (Python refuses an empty one; every call
  of the program passes a literal).\<close>

function py_split :: "'a list \<Rightarrow> 'a list \<Rightarrow> 'a list list" where
  "py_split sep s =
     (case find_sub sep s of
        None \<Rightarrow> [s]
      | Some i \<Rightarrow> (if sep = [] then [s] else take i s # py_split sep (drop (i + length sep) s)))"
  by pat_completeness auto
termination
  by (relation "measure (\<lambda>(sep, s). length s)") (auto dest: find_sub_drop_shorter)

declare py_split.simps [simp del]

fun py_join :: "'a list \<Rightarrow> 'a list list \<Rightarrow> 'a list" where
  "py_join sep [] = []"
| "py_join sep [x] = x"
| "py_join sep (x # y # xs) = x @ sep @ py_join sep (y # xs)"

lemma py_split_nonempty [simp]: "py_split sep s \<noteq> []"
  by (subst py_split.simps) (auto split: option.splits)

lemma py_join_Cons: "xs \<noteq> [] \<Longrightarrow> py_join sep (x # xs) = x @ sep @ py_join sep xs"
  by (cases xs) auto

lemma py_join_split: "py_join sep (py_split sep s) = s"
proof (induction sep s rule: py_split.induct)
  case (1 sep s)
  show ?case
  proof (cases "find_sub sep s")
    case None
    then show ?thesis by (simp add: py_split.simps [of sep s])
  next
    case (Some i)
    note fs = find_sub_SomeD [OF Some]
    show ?thesis
    proof (cases "sep = []")
      case True
      from True Some show ?thesis by (simp add: py_split.simps [of "[]" s])
    next
      case False
      have "take i s @ sep @ drop (i + length sep) s = s"
        using fs by (metis append_take_drop_id add.commute drop_drop)
      with "1.IH" [OF Some False] Some False show ?thesis
        by (simp add: py_split.simps [of sep s] py_join_Cons)
    qed
  qed
qed

lemma py_split_no_sep:
  "sep \<noteq> [] \<Longrightarrow> find_sub sep s = None \<Longrightarrow> py_split sep s = [s]"
  by (simp add: py_split.simps [of sep s])

lemma py_split_Some:
  "sep \<noteq> [] \<Longrightarrow> find_sub sep s = Some i \<Longrightarrow>
   py_split sep s = take i s # py_split sep (drop (i + length sep) s)"
  by (simp add: py_split.simps [of sep s])

subsection \<open>Whitespace, strip and isspace\<close>

text \<open>The code points \<open>str.isspace\<close> accepts (CPython's \<open>_PyUnicode_IsWhitespace\<close>).\<close>

definition is_space :: "nat \<Rightarrow> bool" where
  "is_space c \<longleftrightarrow>
     (9 \<le> c \<and> c \<le> 13) \<or> (28 \<le> c \<and> c \<le> 32) \<or> c = 133 \<or> c = 160 \<or> c = 5760 \<or>
     (8192 \<le> c \<and> c \<le> 8202) \<or> c = 8232 \<or> c = 8233 \<or> c = 8239 \<or> c = 8287 \<or> c = 12288"

definition py_strip :: "pystr \<Rightarrow> pystr" where
  "py_strip s = rev (dropWhile is_space (rev (dropWhile is_space s)))"

definition py_isspace :: "pystr \<Rightarrow> bool" where
  "py_isspace s \<longleftrightarrow> s \<noteq> [] \<and> list_all is_space s"

lemma hd_dropWhile_not: "dropWhile P xs \<noteq> [] \<Longrightarrow> \<not> P (hd (dropWhile P xs))"
  by (induction xs) auto

lemma py_strip_last:
  "py_strip s \<noteq> [] \<Longrightarrow> \<not> is_space (last (py_strip s))"
  unfolding py_strip_def by (simp add: last_rev hd_dropWhile_not)

lemma py_strip_hd:
  "py_strip s \<noteq> [] \<Longrightarrow> \<not> is_space (hd (py_strip s))"
proof -
  assume ne: "py_strip s \<noteq> []"
  let ?t = "dropWhile is_space s"
  have "rev (dropWhile is_space (rev ?t)) \<noteq> []" using ne by (simp add: py_strip_def)
  then have "?t \<noteq> []" by (metis dropWhile.simps(1) rev.simps(1))
  then have t: "\<not> is_space (hd ?t)" by (rule hd_dropWhile_not)
  have "\<exists>u. ?t = rev (dropWhile is_space (rev ?t)) @ u"
    by (metis rev_append rev_rev_ident takeWhile_dropWhile_id)
  then obtain u where "?t = py_strip s @ u" by (auto simp: py_strip_def)
  with ne t show ?thesis by (metis hd_append2)
qed

lemma py_strip_infix:
  "\<exists>a b. s = a @ py_strip s @ b \<and> list_all is_space a \<and> list_all is_space b"
proof -
  let ?t = "dropWhile is_space s"
  have s: "s = takeWhile is_space s @ ?t" by simp
  have t: "?t = py_strip s @ rev (takeWhile is_space (rev ?t))"
    by (metis py_strip_def rev_append rev_rev_ident takeWhile_dropWhile_id)
  have "list_all is_space (takeWhile is_space s)"
    by (auto simp: list_all_iff dest: set_takeWhileD)
  moreover have "list_all is_space (rev (takeWhile is_space (rev ?t)))"
    by (auto simp: list_all_iff dest: set_takeWhileD)
  ultimately show ?thesis using s t by metis
qed

subsection \<open>bytes.splitlines\<close>

text \<open>\<open>bytes.splitlines()\<close> ends a line at \<open>\n\<close>, \<open>\r\<close> or \<open>\r\n\<close>, keeps no line
  ends, and adds no empty line after a final line end.\<close>

definition is_eol :: "nat \<Rightarrow> bool" where
  "is_eol c \<longleftrightarrow> c = 10 \<or> c = 13"

function splitlines :: "bytes \<Rightarrow> bytes list" where
  "splitlines s =
     (if s = [] then []
      else takeWhile (\<lambda>c. \<not> is_eol c) s #
        (case dropWhile (\<lambda>c. \<not> is_eol c) s of
           [] \<Rightarrow> []
         | c # r \<Rightarrow> splitlines (if c = 13 \<and> r \<noteq> [] \<and> hd r = 10 then tl r else r)))"
  by pat_completeness auto
termination
proof (relation "measure length")
  fix s c r
  assume "dropWhile (\<lambda>c. \<not> is_eol c) s = c # r"
  then have "length (c # r) \<le> length s" by (metis length_dropWhile_le)
  then show "((if c = 13 \<and> r \<noteq> [] \<and> hd r = 10 then tl r else r), s) \<in> measure length"
    by auto
qed auto

declare splitlines.simps [simp del]

lemma takeWhile_no_eol: "\<not> list_ex is_eol (takeWhile (\<lambda>c. \<not> is_eol c) s)"
  by (auto simp: list_ex_iff dest: set_takeWhileD)

lemma splitlines_no_eol: "l \<in> set (splitlines s) \<Longrightarrow> \<not> list_ex is_eol l"
proof (induction s rule: splitlines.induct)
  case (1 s)
  show ?case
  proof (cases "s = []")
    case True
    with "1.prems" show ?thesis by (simp add: splitlines.simps [of "[]"])
  next
    case False
    show ?thesis
    proof (cases "dropWhile (\<lambda>c. \<not> is_eol c) s")
      case Nil
      with False "1.prems" have "l = takeWhile (\<lambda>c. \<not> is_eol c) s"
        by (simp add: splitlines.simps [of s])
      then show ?thesis by (simp add: takeWhile_no_eol)
    next
      case (Cons c r)
      let ?r = "if c = 13 \<and> r \<noteq> [] \<and> hd r = 10 then tl r else r"
      from False Cons "1.prems"
      have "l = takeWhile (\<lambda>c. \<not> is_eol c) s \<or> l \<in> set (splitlines ?r)"
        by (simp add: splitlines.simps [of s])
      then show ?thesis
      proof
        assume "l = takeWhile (\<lambda>c. \<not> is_eol c) s"
        then show ?thesis by (simp add: takeWhile_no_eol)
      next
        assume "l \<in> set (splitlines ?r)"
        then show ?thesis by (rule "1.IH" [OF False Cons])
      qed
    qed
  qed
qed

subsection \<open>int()\<close>

definition is_digit :: "nat \<Rightarrow> bool" where
  "is_digit c \<longleftrightarrow> 48 \<le> c \<and> c \<le> 57"

text \<open>Decimal digits with single underscores between them, as \<open>int(str)\<close> accepts.\<close>

fun parse_digits :: "pystr \<Rightarrow> nat \<Rightarrow> nat option" where
  "parse_digits [] acc = Some acc"
| "parse_digits (c # cs) acc =
     (if is_digit c then parse_digits cs (10 * acc + (c - 48))
      else if c = 95 \<and> cs \<noteq> [] \<and> is_digit (hd cs) then parse_digits cs acc
      else None)"

text \<open>\<open>int(s)\<close> for a string: surrounding whitespace, an optional sign, then digits.\<close>

definition int_of_str :: "pystr \<Rightarrow> int res" where
  "int_of_str s =
     (let t = py_strip s;
          (neg, u) = (case t of c # r \<Rightarrow> if c = 45 then (True, r) else if c = 43 then (False, r)
                                       else (False, t)
                     | [] \<Rightarrow> (False, t))
      in case u of
           c # _ \<Rightarrow> (if is_digit c then
                       (case parse_digits u 0 of
                          None \<Rightarrow> Inl ValueError
                        | Some n \<Rightarrow> Inr (if neg then - int n else int n))
                     else Inl ValueError)
         | [] \<Rightarrow> Inl ValueError)"

text \<open>\<open>int(v)\<close> for the values the program converts.\<close>

fun int_of_val :: "pyval \<Rightarrow> int res" where
  "int_of_val (PInt i) = Inr i"
| "int_of_val (PBool b) = Inr (if b then 1 else 0)"
| "int_of_val (PStr s) = int_of_str s"
| "int_of_val _ = Inl TypeError"

text \<open>The decimal rendering of a number, for the round trip below.\<close>

fun dec_digits :: "nat \<Rightarrow> pystr" where
  "dec_digits n = (if n < 10 then [48 + n] else dec_digits (n div 10) @ [48 + n mod 10])"

declare dec_digits.simps [simp del]

subsection \<open>Splitting text that was joined\<close>

lemma find_sub_first_hd:
  "a \<notin> set x \<Longrightarrow> find_sub (a # n) (x @ a # n @ y) = Some (length x)"
  by (induction x) (auto simp: startswith_def)

lemma find_sub_absent_hd: "a \<notin> set s \<Longrightarrow> find_sub (a # n) s = None"
  by (induction s) (auto simp: startswith_def)

lemma py_split_at_first:
  "a \<notin> set x \<Longrightarrow> py_split (a # n) (x @ (a # n) @ y) = x # py_split (a # n) y"
  by (simp add: py_split_Some find_sub_first_hd)

lemma py_split_absent: "a \<notin> set s \<Longrightarrow> py_split (a # n) s = [s]"
  by (simp add: py_split_no_sep find_sub_absent_hd)

lemma py_split_join_single:
  "xs \<noteq> [] \<Longrightarrow> \<forall>x \<in> set xs. c \<notin> set x \<Longrightarrow> py_split [c] (py_join [c] xs) = xs"
proof (induction xs)
  case Nil
  then show ?case by simp
next
  case (Cons x xs)
  show ?case
  proof (cases xs)
    case Nil
    with Cons.prems show ?thesis by (simp add: py_split_absent)
  next
    case (Cons y ys)
    then have "xs \<noteq> []" by simp
    with Cons.prems Cons.IH have "py_split [c] (py_join [c] xs) = xs" by simp
    moreover have "py_join [c] (x # xs) = x @ [c] @ py_join [c] xs"
      using \<open>xs \<noteq> []\<close> by (simp add: py_join_Cons)
    ultimately show ?thesis
      using Cons.prems py_split_at_first [of c x "[]" "py_join [c] xs"] by simp
  qed
qed

lemma set_py_join: "set (py_join sep xs) \<subseteq> set sep \<union> (\<Union>x \<in> set xs. set x)"
  by (induction sep xs rule: py_join.induct) auto

subsection \<open>int() on decimal text\<close>

lemma dec_digits_digits: "c \<in> set (dec_digits n) \<Longrightarrow> is_digit c"
proof (induction n rule: dec_digits.induct)
  case (1 n)
  then show ?case
    by (subst (asm) dec_digits.simps) (auto simp: is_digit_def split: if_splits)
qed

lemma dec_digits_ne: "dec_digits n \<noteq> []"
  by (subst dec_digits.simps) simp

lemma parse_digits_append:
  "list_all is_digit xs \<Longrightarrow> parse_digits (xs @ ys) acc = parse_digits ys (foldl (\<lambda>a c. 10 * a + (c - 48)) acc xs)"
  by (induction xs arbitrary: acc) auto

lemma foldl_dec_digits: "foldl (\<lambda>a c. 10 * a + (c - 48)) acc (dec_digits n) = acc * 10 ^ length (dec_digits n) + n"
proof (induction n arbitrary: acc rule: dec_digits.induct)
  case (1 n)
  show ?case
  proof (cases "n < 10")
    case True
    then show ?thesis by (subst (1 2) dec_digits.simps) simp
  next
    case False
    then have d: "dec_digits n = dec_digits (n div 10) @ [48 + n mod 10]" by (subst dec_digits.simps) simp
    have "foldl (\<lambda>a c. 10 * a + (c - 48)) acc (dec_digits n) =
          10 * (acc * 10 ^ length (dec_digits (n div 10)) + n div 10) + n mod 10"
      using "1.IH" [OF False] by (simp add: d)
    also have "\<dots> = acc * 10 ^ length (dec_digits n) + n" by (simp add: d algebra_simps)
    finally show ?thesis .
  qed
qed

lemma dropWhile_none: "\<forall>c \<in> set s. \<not> P c \<Longrightarrow> dropWhile P s = s"
  by (cases s) auto

lemma py_strip_no_space: "\<forall>c \<in> set s. \<not> is_space c \<Longrightarrow> py_strip s = s"
  by (simp add: py_strip_def dropWhile_none)

lemma int_of_str_dec_digits: "int_of_str (dec_digits n) = Inr (int n)"
proof -
  have dg: "\<forall>c \<in> set (dec_digits n). is_digit c" using dec_digits_digits by blast
  then have sp: "py_strip (dec_digits n) = dec_digits n"
    by (intro py_strip_no_space) (auto simp: is_digit_def is_space_def)
  have pd: "parse_digits (dec_digits n) 0 = Some n"
    using parse_digits_append [of "dec_digits n" "[]" 0] dg by (simp add: list_all_iff foldl_dec_digits)
  obtain c cs where dc: "dec_digits n = c # cs" using dec_digits_ne by (cases "dec_digits n") auto
  with dg have "is_digit c" by simp
  then have "c \<noteq> 45" "c \<noteq> 43" by (auto simp: is_digit_def)
  with sp pd dc \<open>is_digit c\<close> show ?thesis by (simp add: int_of_str_def)
qed

end
