(* ===== verification/Base64.thy ===== *)
theory Base64
  imports PyStr
begin

text \<open>
  Base64 as the program uses it.  \<open>safe_decode\<close> (src/freefq.py) pads its argument with
  \<open>=\<close> to a multiple of four and calls \<open>base64.urlsafe_b64decode\<close>; \<open>decode_v2ray_node\<close>
  and \<open>get_proxies\<close> call \<open>base64.b64decode\<close> directly.  Both end in CPython's
  \<open>binascii.a2b_base64\<close> in its default, non-strict mode, modelled here as the loop it is:
  a state of the position in the current quadruple, the bits carried over, the count of
  pad characters seen and the output; characters outside the alphabet are skipped, a pad
  sequence that completes a quadruple ends the input, and input that ends inside a
  quadruple is an error.  The encoder is the standard one and serves the round trips.
\<close>

subsection \<open>The alphabet\<close>

definition b64_val :: "nat \<Rightarrow> nat option" where
  "b64_val c =
     (if 65 \<le> c \<and> c \<le> 90 then Some (c - 65)
      else if 97 \<le> c \<and> c \<le> 122 then Some (c - 71)
      else if 48 \<le> c \<and> c \<le> 57 then Some (c + 4)
      else if c = 43 then Some 62
      else if c = 47 then Some 63
      else None)"

definition b64_chr :: "nat \<Rightarrow> nat" where
  "b64_chr v =
     (if v < 26 then v + 65 else if v < 52 then v + 71 else if v < 62 then v - 4
      else if v = 62 then 43 else 47)"

lemma b64_val_bound: "b64_val c = Some v \<Longrightarrow> v < 64"
  by (auto simp: b64_val_def split: if_splits)

lemma b64_val_chr [simp]: "v < 64 \<Longrightarrow> b64_val (b64_chr v) = Some v"
  by (auto simp: b64_val_def b64_chr_def)

lemma b64_chr_not_pad [simp]: "b64_chr v \<noteq> 61"
  by (auto simp: b64_chr_def)

lemma b64_val_pad [simp]: "b64_val 61 = None"
  by (simp add: b64_val_def)

subsection \<open>binascii.a2b_base64\<close>

record a2b_state =
  quad_pos :: nat
  leftchar :: nat
  pads :: nat
  bin_data :: bytes

definition a2b_init :: a2b_state where
  "a2b_init = \<lparr>quad_pos = 0, leftchar = 0, pads = 0, bin_data = []\<rparr>"

text \<open>One data character of value \<open>v\<close> (the \<open>switch (quad_pos)\<close> of the C loop).\<close>

definition a2b_data :: "a2b_state \<Rightarrow> nat \<Rightarrow> a2b_state" where
  "a2b_data st v =
     (case quad_pos st of
        0 \<Rightarrow> st\<lparr>quad_pos := 1, leftchar := v, pads := 0\<rparr>
      | Suc 0 \<Rightarrow> st\<lparr>quad_pos := 2, leftchar := v mod 16, pads := 0,
                   bin_data := bin_data st @ [leftchar st * 4 + v div 16]\<rparr>
      | Suc (Suc 0) \<Rightarrow> st\<lparr>quad_pos := 3, leftchar := v mod 4, pads := 0,
                   bin_data := bin_data st @ [leftchar st * 16 + v div 4]\<rparr>
      | _ \<Rightarrow> st\<lparr>quad_pos := 0, leftchar := 0, pads := 0,
                   bin_data := bin_data st @ [leftchar st * 64 + v]\<rparr>)"

text \<open>
  The loop over the input.  The Boolean result is \<open>True\<close> when a pad sequence ended the
  input (\<open>goto done\<close>).  As in C, the pad counter is only advanced when at least two
  data characters of the quadruple have been read (\<open>quad_pos >= 2 && ... ++pads\<close>).
\<close>

fun a2b_loop :: "a2b_state \<Rightarrow> bytes \<Rightarrow> a2b_state \<times> bool" where
  "a2b_loop st [] = (st, False)"
| "a2b_loop st (c # cs) =
     (if c = 61 then
        (if 2 \<le> quad_pos st then
           (let st' = st\<lparr>pads := Suc (pads st)\<rparr>
            in if 4 \<le> quad_pos st + pads st' then (st', True) else a2b_loop st' cs)
         else a2b_loop st cs)
      else case b64_val c of
             None \<Rightarrow> a2b_loop st cs
           | Some v \<Rightarrow> a2b_loop (a2b_data st v) cs)"

definition a2b_base64 :: "bytes \<Rightarrow> bytes res" where
  "a2b_base64 s =
     (case a2b_loop a2b_init s of
        (st, True) \<Rightarrow> Inr (bin_data st)
      | (st, False) \<Rightarrow> (if quad_pos st = 0 then Inr (bin_data st) else Inl Base64Error))"

text \<open>
  \<open>base64.b64decode(s)\<close> for a \<open>str\<close>: the text must be ASCII (else \<open>ValueError\<close>),
  then \<open>a2b_base64\<close>.  \<open>urlsafe_b64decode\<close> first maps \<open>-\<close> to \<open>+\<close> and \<open>_\<close> to \<open>/\<close>.
\<close>

definition b64decode :: "pystr \<Rightarrow> bytes res" where
  "b64decode s = (if list_all (\<lambda>c. c < 128) s then a2b_base64 s else Inl ValueError)"

definition urlsafe_tr :: "nat \<Rightarrow> nat" where
  "urlsafe_tr c = (if c = 45 then 43 else if c = 95 then 47 else c)"

definition urlsafe_b64decode :: "pystr \<Rightarrow> bytes res" where
  "urlsafe_b64decode s =
     (if list_all (\<lambda>c. c < 128) s then a2b_base64 (map urlsafe_tr s) else Inl ValueError)"

text \<open>\<open>safe_decode(s)\<close>, src/freefq.py lines 34--43.\<close>

definition safe_decode :: "pystr \<Rightarrow> bytes res" where
  "safe_decode s =
     (let num = length s mod 4;
          s' = (if num \<noteq> 0 then s @ replicate (4 - num) 61 else s)
      in urlsafe_b64decode s')"

subsection \<open>Encoding\<close>

fun b64_enc :: "bytes \<Rightarrow> bytes" where
  "b64_enc (a # b # c # rest) =
     [b64_chr (a div 4), b64_chr (a mod 4 * 16 + b div 16),
      b64_chr (b mod 16 * 4 + c div 64), b64_chr (c mod 64)] @ b64_enc rest"
| "b64_enc [a, b] =
     [b64_chr (a div 4), b64_chr (a mod 4 * 16 + b div 16), b64_chr (b mod 16 * 4), 61]"
| "b64_enc [a] = [b64_chr (a div 4), b64_chr (a mod 4 * 16), 61, 61]"
| "b64_enc [] = []"

text \<open>The URL-safe alphabet without padding, as subscription links carry it.\<close>

definition urlsafe_enc_tr :: "nat \<Rightarrow> nat" where
  "urlsafe_enc_tr c = (if c = 43 then 45 else if c = 47 then 95 else c)"

definition b64url_nopad :: "bytes \<Rightarrow> pystr" where
  "b64url_nopad bs = map urlsafe_enc_tr (filter (\<lambda>c. c \<noteq> 61) (b64_enc bs))"

subsection \<open>The decoder loop: invariant and bounds\<close>

definition a2b_inv :: "a2b_state \<Rightarrow> bool" where
  "a2b_inv st \<longleftrightarrow> quad_pos st < 4 \<and> leftchar st < 2 ^ (8 - 2 * quad_pos st) \<and> bytes_ok (bin_data st)"

lemma a2b_inv_init: "a2b_inv a2b_init"
  by (simp add: a2b_inv_def a2b_init_def bytes_ok_def)

lemma a2b_data_inv: "a2b_inv st \<Longrightarrow> v < 64 \<Longrightarrow> a2b_inv (a2b_data st v)"
  by (auto simp: a2b_inv_def a2b_data_def bytes_ok_def split: nat.splits)

lemma a2b_inv_pads [simp]: "a2b_inv (st\<lparr>pads := n\<rparr>) = a2b_inv st"
  by (simp add: a2b_inv_def)

lemma a2b_loop_inv: "a2b_inv st \<Longrightarrow> a2b_inv (fst (a2b_loop st s))"
proof (induction st s rule: a2b_loop.induct)
  case (1 st)
  then show ?case by simp
next
  case (2 st c cs)
  then show ?case
    by (auto simp: Let_def dest: b64_val_bound intro: a2b_data_inv split: option.splits)
qed

lemma a2b_base64_bytes_ok: "a2b_base64 s = Inr bs \<Longrightarrow> bytes_ok bs"
proof -
  assume r: "a2b_base64 s = Inr bs"
  obtain st d where l: "a2b_loop a2b_init s = (st, d)" by fastforce
  have "a2b_inv st" using a2b_loop_inv [OF a2b_inv_init, of s] l by simp
  moreover have "bs = bin_data st" using r l by (auto simp: a2b_base64_def split: if_splits bool.splits)
  ultimately show ?thesis by (simp add: a2b_inv_def)
qed

lemma a2b_loop_quad:
  assumes "quad_pos st = 0" "v1 < 64" "v2 < 64" "v3 < 64" "v4 < 64"
  shows "a2b_loop st (b64_chr v1 # b64_chr v2 # b64_chr v3 # b64_chr v4 # rest) =
         a2b_loop (st\<lparr>quad_pos := 0, leftchar := 0, pads := 0,
           bin_data := bin_data st @ [v1 * 4 + v2 div 16, v2 mod 16 * 16 + v3 div 4, v3 mod 4 * 64 + v4]\<rparr>) rest"
  using assms by (simp add: a2b_data_def)

lemma a2b_loop_pad1:
  assumes "quad_pos st = 0" "v1 < 64" "v2 < 64" "v3 < 64"
  shows "a2b_loop st [b64_chr v1, b64_chr v2, b64_chr v3, 61] =
         (st\<lparr>quad_pos := 3, leftchar := v3 mod 4, pads := 1,
           bin_data := bin_data st @ [v1 * 4 + v2 div 16, v2 mod 16 * 16 + v3 div 4]\<rparr>, True)"
  using assms by (simp add: a2b_data_def)

lemma a2b_loop_pad2:
  assumes "quad_pos st = 0" "v1 < 64" "v2 < 64"
  shows "a2b_loop st [b64_chr v1, b64_chr v2, 61, 61] =
         (st\<lparr>quad_pos := 2, leftchar := v2 mod 16, pads := 2,
           bin_data := bin_data st @ [v1 * 4 + v2 div 16]\<rparr>, True)"
  using assms by (simp add: a2b_data_def)

lemma sextet_bounds:
  fixes a b c :: nat
  assumes "a < 256" "b < 256" "c < 256"
  shows "a div 4 < 64" "a mod 4 * 16 + b div 16 < 64" "b mod 16 * 4 + c div 64 < 64"
    "c mod 64 < 64" "a mod 4 * 16 < 64" "b mod 16 * 4 < 64"
  using assms by simp_all

lemma sextet_parts:
  fixes a b c :: nat
  assumes "b < 256" "c < 256"
  shows "(a mod 4 * 16 + b div 16) div 16 = a mod 4"
    "(a mod 4 * 16 + b div 16) mod 16 = b div 16"
    "(b mod 16 * 4 + c div 64) div 4 = b mod 16"
    "(b mod 16 * 4 + c div 64) mod 4 = c div 64"
    "b div 16 mod 16 = b div 16" "c div 64 mod 4 = c div 64"
  using assms by simp_all

lemma a2b_loop_enc:
  assumes "bytes_ok bs" and "quad_pos st = 0"
  shows "bin_data (fst (a2b_loop st (b64_enc bs))) = bin_data st @ bs \<and>
         (snd (a2b_loop st (b64_enc bs)) \<or> quad_pos (fst (a2b_loop st (b64_enc bs))) = 0)"
  using assms
proof (induction bs arbitrary: st rule: b64_enc.induct)
  case (1 a b c rest)
  let ?st' = "st\<lparr>quad_pos := 0, leftchar := 0, pads := 0, bin_data := bin_data st @ [a, b, c]\<rparr>"
  have ab: "a < 256" "b < 256" "c < 256" "bytes_ok rest" using "1.prems"(1) by simp_all
  have "a2b_loop st (b64_enc (a # b # c # rest)) = a2b_loop ?st' (b64_enc rest)"
    using a2b_loop_quad [OF "1.prems"(2) sextet_bounds(1-4) [OF ab(1-3)], of "b64_enc rest"]
    by (simp add: sextet_parts [OF ab(2,3)])
  moreover have "quad_pos ?st' = 0" by simp
  ultimately show ?case using "1.IH" [OF ab(4)] by simp
next
  case (2 a b)
  have ab: "a < 256" "b < 256" using "2.prems"(1) by simp_all
  show ?case
    using a2b_loop_pad1 [OF "2.prems"(2) sextet_bounds(1,2,6) [OF ab ab(2)]]
    by (simp add: sextet_parts [OF ab(2) ab(2)])
next
  case (3 a)
  have a: "a < 256" using "3.prems"(1) by simp
  show ?case
    using a2b_loop_pad2 [OF "3.prems"(2) sextet_bounds(1,5) [OF a a a]] by simp
next
  case 4
  then show ?case by simp
qed

lemma a2b_base64_enc: "bytes_ok bs \<Longrightarrow> a2b_base64 (b64_enc bs) = Inr bs"
  using a2b_loop_enc [of bs a2b_init]
  by (auto simp: a2b_base64_def a2b_init_def split: prod.splits bool.splits)

lemma b64_chr_ascii [simp]: "b64_chr v < 128" "b64_chr v \<noteq> 45" "b64_chr v \<noteq> 95"
  by (auto simp: b64_chr_def)

lemma b64_enc_chars: "c \<in> set (b64_enc bs) \<Longrightarrow> c < 128 \<and> c \<noteq> 45 \<and> c \<noteq> 95"
  by (induction bs rule: b64_enc.induct) auto

lemma b64_enc_repad:
  assumes "bytes_ok bs"
  shows "(let n = filter (\<lambda>c. c \<noteq> 61) (b64_enc bs)
          in if length n mod 4 \<noteq> 0 then n @ replicate (4 - length n mod 4) 61 else n) = b64_enc bs"
  using assms
proof (induction bs rule: b64_enc.induct)
  case (1 a b c rest)
  then have "a < 256" "b < 256" "c < 256" "bytes_ok rest" by simp_all
  with "1.IH" show ?case by (simp add: Let_def sextet_bounds split: if_splits)
qed (simp_all add: sextet_bounds numeral_2_eq_2)

lemma urlsafe_tr_enc: "c \<noteq> 45 \<Longrightarrow> c \<noteq> 95 \<Longrightarrow> urlsafe_tr (urlsafe_enc_tr c) = c"
  by (simp add: urlsafe_tr_def urlsafe_enc_tr_def)

lemma safe_decode_b64url_nopad:
  assumes "bytes_ok bs"
  shows "safe_decode (b64url_nopad bs) = Inr bs"
proof -
  let ?n = "filter (\<lambda>c. c \<noteq> 61) (b64_enc bs)"
  have chars: "\<forall>c \<in> set ?n. c < 128 \<and> c \<noteq> 45 \<and> c \<noteq> 95" using b64_enc_chars by auto
  have "map (urlsafe_tr \<circ> urlsafe_enc_tr) ?n = ?n"
    by (rule map_idI) (use chars in \<open>auto simp: urlsafe_tr_enc\<close>)
  then have tr: "map urlsafe_tr (map urlsafe_enc_tr ?n) = ?n" by simp
  have tr61: "map urlsafe_tr (replicate k 61) = replicate k 61" for k
    by (simp add: urlsafe_tr_def)
  have ascii: "list_all (\<lambda>c. c < 128) (map urlsafe_enc_tr ?n @ replicate k 61)" for k
    using chars by (auto simp: list_all_iff urlsafe_enc_tr_def)
  let ?k = "if length ?n mod 4 \<noteq> 0 then 4 - length ?n mod 4 else 0"
  have rp: "?n @ replicate ?k 61 = b64_enc bs"
    using b64_enc_repad [OF assms] by (simp add: Let_def split: if_splits)
  have "safe_decode (b64url_nopad bs) = urlsafe_b64decode (map urlsafe_enc_tr ?n @ replicate ?k 61)"
    by (simp add: safe_decode_def b64url_nopad_def Let_def)
  also have "\<dots> = a2b_base64 (map urlsafe_tr (map urlsafe_enc_tr ?n @ replicate ?k 61))"
    using ascii by (simp add: urlsafe_b64decode_def)
  also have "map urlsafe_tr (map urlsafe_enc_tr ?n @ replicate ?k 61) = b64_enc bs"
    by (simp only: map_append tr tr61 rp)
  finally show ?thesis using a2b_base64_enc [OF assms] by simp
qed

definition b64_relevant :: "nat \<Rightarrow> bool" where
  "b64_relevant c \<longleftrightarrow> c = 61 \<or> b64_val c \<noteq> None"

lemma a2b_loop_filter: "a2b_loop st (filter b64_relevant s) = a2b_loop st s"
  by (induction st s rule: a2b_loop.induct) (auto simp: b64_relevant_def Let_def split: option.splits)

subsection \<open>The URL-safe alphabet\<close>

definition is_b64url_char :: "nat \<Rightarrow> bool" where
  "is_b64url_char c \<longleftrightarrow> (48 \<le> c \<and> c \<le> 57) \<or> (65 \<le> c \<and> c \<le> 90) \<or> (97 \<le> c \<and> c \<le> 122) \<or> c = 45 \<or> c = 95"

lemma b64url_nopad_chars: "c \<in> set (b64url_nopad bs) \<Longrightarrow> is_b64url_char c"
proof -
  have chr: "is_b64url_char (urlsafe_enc_tr (b64_chr v))" for v
    by (auto simp: is_b64url_char_def urlsafe_enc_tr_def b64_chr_def)
  have "c' \<in> set (b64_enc bs) \<Longrightarrow> c' = 61 \<or> (\<exists>v. c' = b64_chr v)" for c'
    by (induction bs rule: b64_enc.induct) auto
  then show "c \<in> set (b64url_nopad bs) \<Longrightarrow> is_b64url_char c"
    using chr by (auto simp: b64url_nopad_def)
qed

lemma b64url_nopad_nonempty: "bs \<noteq> [] \<Longrightarrow> b64url_nopad bs \<noteq> []"
  by (induction bs rule: b64_enc.induct) (auto simp: b64url_nopad_def)

lemma b64url_not:
  "c \<in> set (b64url_nopad bs) \<Longrightarrow> c \<notin> set (py '':&=/?#@'') \<and> c \<noteq> 10 \<and> c < 128 \<and> \<not> is_space c"
  by (drule b64url_nopad_chars) (auto simp: is_b64url_char_def is_space_def)

subsection \<open>Properties of the decoder\<close>

text \<open>C10: \<open>safe_decode\<close> inverts URL-safe base64 encoding with the padding removed, the
  form in which subscription links carry their payloads.\<close>

theorem safe_decode_roundtrip:
  assumes "bytes_ok bs"
  shows "safe_decode (b64url_nopad bs) = Inr bs"
  using assms by (rule safe_decode_b64url_nopad)

theorem safe_decode_roundtrip_witness:
  "safe_decode (b64url_nopad [0, 255, 62, 63]) = Inr [0, 255, 62, 63]"
  by (rule safe_decode_roundtrip) simp

text \<open>The non-strict decoder ignores every character that is neither in the alphabet nor
  the pad, so noise such as line breaks or spaces does not change the result.\<close>

lemma a2b_base64_ignores_noise:
  "a2b_base64 (filter b64_relevant s) = a2b_base64 s"
  by (simp add: a2b_base64_def a2b_loop_filter)

subsection \<open>The standard alphabet\<close>

lemma b64_enc_not_space: "c \<in> set (b64_enc bs) \<Longrightarrow> c < 128 \<and> \<not> is_space c"
proof -
  have chr: "\<not> is_space (b64_chr v)" for v by (auto simp: is_space_def b64_chr_def)
  assume "c \<in> set (b64_enc bs)"
  then have "c = 61 \<or> (\<exists>v. c = b64_chr v)" by (induction bs rule: b64_enc.induct) auto
  then show ?thesis using chr b64_chr_ascii(1) by (auto simp: is_space_def)
qed

lemma b64_enc_nonempty: "bs \<noteq> [] \<Longrightarrow> b64_enc bs \<noteq> []"
  by (induction bs rule: b64_enc.induct) auto

subsection \<open>Text of alphabet characters only\<close>

lemma quad_pos_a2b_data: "quad_pos st < 4 \<Longrightarrow> quad_pos (a2b_data st v) = Suc (quad_pos st) mod 4"
proof -
  assume "quad_pos st < 4"
  then consider "quad_pos st = 0" | "quad_pos st = Suc 0" | "quad_pos st = Suc (Suc 0)"
    | "quad_pos st = Suc (Suc (Suc 0))" by linarith
  then show ?thesis by cases (simp_all add: a2b_data_def)
qed

text \<open>On text made of alphabet characters only the loop never stops early, and it ends
  inside a quadruple exactly when the length is not a multiple of four.\<close>

lemma a2b_loop_data_only:
  assumes "list_all (\<lambda>c. b64_val c \<noteq> None) t" "quad_pos st < 4"
  shows "\<not> snd (a2b_loop st t) \<and> quad_pos (fst (a2b_loop st t)) = (quad_pos st + length t) mod 4"
  using assms
proof (induction t arbitrary: st)
  case Nil
  then show ?case by simp
next
  case (Cons c t)
  then obtain v where v: "b64_val c = Some v" by auto
  then have c: "c \<noteq> 61" by auto
  have "quad_pos (a2b_data st v) < 4" using quad_pos_a2b_data [OF Cons.prems(2)] by simp
  with Cons.IH [of "a2b_data st v"] Cons.prems quad_pos_a2b_data [OF Cons.prems(2), of v] v c
  show ?case by (simp add: mod_add_left_eq)
qed

lemma a2b_base64_data_only:
  assumes "list_all (\<lambda>c. b64_val c \<noteq> None) t"
  shows "a2b_base64 t = (if length t mod 4 = 0 then Inr (bin_data (fst (a2b_loop a2b_init t)))
                         else Inl Base64Error)"
  using a2b_loop_data_only [OF assms, of a2b_init]
  by (auto simp: a2b_base64_def a2b_init_def split: prod.splits bool.splits)

lemma b64_enc_nopad_data:
  "bytes_ok bs \<Longrightarrow> list_all (\<lambda>c. b64_val c \<noteq> None) (filter (\<lambda>c. c \<noteq> 61) (b64_enc bs))"
  by (induction bs rule: b64_enc.induct) (auto simp: sextet_bounds)

lemma b64_enc_nopad_length:
  "length (filter (\<lambda>c. c \<noteq> 61) (b64_enc bs)) mod 4 = 0 \<longleftrightarrow> length bs mod 3 = 0"
  by (induction bs rule: b64_enc.induct) simp_all

text \<open>Standard base64 without its padding is rejected when the byte count is not a
  multiple of three.\<close>

lemma a2b_base64_nopad:
  assumes "bytes_ok bs" "length bs mod 3 \<noteq> 0"
  shows "a2b_base64 (filter (\<lambda>c. c \<noteq> 61) (b64_enc bs)) = Inl Base64Error"
  using a2b_base64_data_only [OF b64_enc_nopad_data [OF assms(1)]] b64_enc_nopad_length [of bs] assms(2)
  by simp

text \<open>\<open>safe_decode\<close> restores the padding that the standard encoding lost.\<close>

lemma safe_decode_std_nopad:
  assumes "bytes_ok bs"
  shows "safe_decode (filter (\<lambda>c. c \<noteq> 61) (b64_enc bs)) = Inr bs"
proof -
  let ?n = "filter (\<lambda>c. c \<noteq> 61) (b64_enc bs)"
  let ?k = "if length ?n mod 4 \<noteq> 0 then 4 - length ?n mod 4 else 0"
  have rp: "?n @ replicate ?k 61 = b64_enc bs"
    using b64_enc_repad [OF assms] by (simp add: Let_def split: if_splits)
  have tr: "map urlsafe_tr (b64_enc bs) = b64_enc bs"
    by (rule map_idI) (use b64_enc_chars in \<open>auto simp: urlsafe_tr_def\<close>)
  have ascii: "list_all (\<lambda>c. c < 128) (b64_enc bs)"
    using b64_enc_chars by (auto simp: list_all_iff)
  have "safe_decode ?n = urlsafe_b64decode (?n @ replicate ?k 61)"
    by (simp add: safe_decode_def Let_def)
  also have "\<dots> = urlsafe_b64decode (b64_enc bs)" by (simp only: rp)
  also have "\<dots> = Inr bs" using ascii tr a2b_base64_enc [OF assms] by (simp add: urlsafe_b64decode_def)
  finally show ?thesis .
qed

end
