(* ===== verification/Codec.thy ===== *)
theory Codec
  imports PyStr
begin

text \<open>
  The text codecs the decoders call.  \<open>bytes.decode('utf-8')\<close> (strict: malformed input
  raises \<open>UnicodeDecodeError\<close>) and its \<open>errors='replace'\<close> variant, which
  \<open>urllib.parse.unquote\<close> uses, share one step: the next scalar value and the number of
  bytes it takes, or for malformed input the length of the maximal well-formed prefix
  that is replaced by one U+FFFD (CPython follows the Unicode recommendation).
  \<open>unquote\<close> is modelled after CPython's \<open>urllib.parse\<close>: only maximal ASCII runs are
  percent-decoded, by \<open>unquote_to_bytes\<close>, which splits at \<open>%\<close> and decodes a piece
  whose first two characters are hexadecimal digits.
\<close>

subsection \<open>UTF-8\<close>

definition is_cont :: "nat \<Rightarrow> bool" where
  "is_cont c \<longleftrightarrow> 128 \<le> c \<and> c < 192"

text \<open>
  One decoding step at lead byte \<open>b\<close> followed by \<open>rest\<close>; \<open>lo\<close> and \<open>hi\<close>
  bound the second byte (\<open>hi\<close> exclusive), which rules out overlong forms, surrogates
  and values beyond U+10FFFF.
\<close>

definition utf8_next :: "nat \<Rightarrow> bytes \<Rightarrow> nat option \<times> nat" where
  "utf8_next b rest =
     (if b < 128 then (Some b, 1)
      else if 194 \<le> b \<and> b \<le> 223 then
        (case rest of
           c # _ \<Rightarrow> if is_cont c then (Some ((b - 192) * 64 + (c - 128)), 2) else (None, 1)
         | [] \<Rightarrow> (None, 1))
      else if 224 \<le> b \<and> b \<le> 239 then
        (let lo = (if b = 224 then 160 else 128); hi = (if b = 237 then 160 else 192) in
         case rest of
           c1 # r1 \<Rightarrow>
             if lo \<le> c1 \<and> c1 < hi then
               (case r1 of
                  c2 # _ \<Rightarrow> if is_cont c2
                            then (Some ((b - 224) * 4096 + (c1 - 128) * 64 + (c2 - 128)), 3)
                            else (None, 2)
                | [] \<Rightarrow> (None, 2))
             else (None, 1)
         | [] \<Rightarrow> (None, 1))
      else if 240 \<le> b \<and> b \<le> 244 then
        (let lo = (if b = 240 then 144 else 128); hi = (if b = 244 then 144 else 192) in
         case rest of
           c1 # r1 \<Rightarrow>
             if lo \<le> c1 \<and> c1 < hi then
               (case r1 of
                  c2 # r2 \<Rightarrow>
                    if is_cont c2 then
                      (case r2 of
                         c3 # _ \<Rightarrow> if is_cont c3
                                   then (Some ((b - 240) * 262144 + (c1 - 128) * 4096
                                               + (c2 - 128) * 64 + (c3 - 128)), 4)
                                   else (None, 3)
                       | [] \<Rightarrow> (None, 3))
                    else (None, 2)
                | [] \<Rightarrow> (None, 2))
             else (None, 1)
         | [] \<Rightarrow> (None, 1))
      else (None, 1))"

lemma utf8_next_len: "utf8_next b rest = (r, n) \<Longrightarrow> 1 \<le> n \<and> n \<le> Suc (length rest)"
  by (auto simp: utf8_next_def Let_def split: if_splits list.splits)

text \<open>\<open>bytes.decode('utf-8')\<close>.\<close>

function utf8_decode :: "bytes \<Rightarrow> pystr option" where
  "utf8_decode [] = Some []"
| "utf8_decode (b # rest) =
     (case utf8_next b rest of
        (Some c, n) \<Rightarrow> map_option (Cons c) (utf8_decode (drop n (b # rest)))
      | (None, _) \<Rightarrow> None)"
  by pat_completeness auto
termination
  by (relation "measure length") (auto dest!: utf8_next_len sym [THEN utf8_next_len])

text \<open>\<open>bytes.decode('utf-8', 'replace')\<close>.\<close>

function utf8_decode_replace :: "bytes \<Rightarrow> pystr" where
  "utf8_decode_replace [] = []"
| "utf8_decode_replace (b # rest) =
     (case utf8_next b rest of
        (r, n) \<Rightarrow> (case r of Some c \<Rightarrow> c | None \<Rightarrow> 65533) # utf8_decode_replace (drop n (b # rest)))"
  by pat_completeness auto
termination
  by (relation "measure length") (auto dest!: utf8_next_len sym [THEN utf8_next_len])

definition decode_utf8 :: "bytes \<Rightarrow> pystr res" where
  "decode_utf8 bs = (case utf8_decode bs of None \<Rightarrow> Inl UnicodeDecodeError | Some s \<Rightarrow> Inr s)"

text \<open>The encoder, for the round trip: the scalar values are those below U+110000 that
  are no surrogate.\<close>

definition is_scalar :: "nat \<Rightarrow> bool" where
  "is_scalar c \<longleftrightarrow> c < 1114112 \<and> \<not> (55296 \<le> c \<and> c \<le> 57343)"

definition utf8_encode_char :: "nat \<Rightarrow> bytes" where
  "utf8_encode_char c =
     (if c < 128 then [c]
      else if c < 2048 then [192 + c div 64, 128 + c mod 64]
      else if c < 65536 then [224 + c div 4096, 128 + c div 64 mod 64, 128 + c mod 64]
      else [240 + c div 262144, 128 + c div 4096 mod 64, 128 + c div 64 mod 64, 128 + c mod 64])"

definition utf8_encode :: "pystr \<Rightarrow> bytes" where
  "utf8_encode s = concat (map utf8_encode_char s)"

subsection \<open>Percent-decoding\<close>

definition is_hex :: "nat \<Rightarrow> bool" where
  "is_hex c \<longleftrightarrow> (48 \<le> c \<and> c \<le> 57) \<or> (65 \<le> c \<and> c \<le> 70) \<or> (97 \<le> c \<and> c \<le> 102)"

definition hex_val :: "nat \<Rightarrow> nat" where
  "hex_val c = (if c \<le> 57 then c - 48 else if c \<le> 70 then c - 55 else c - 87)"

text \<open>One piece after a \<open>%\<close>: \<open>_hextobyte[item[:2]] + item[2:]\<close>, or \<open>b'%' + item\<close>.\<close>

definition unquote_piece :: "bytes \<Rightarrow> bytes" where
  "unquote_piece item =
     (case item of
        h1 # h2 # r \<Rightarrow> if is_hex h1 \<and> is_hex h2 then (hex_val h1 * 16 + hex_val h2) # r
                       else 37 # item
      | _ \<Rightarrow> 37 # item)"

definition unquote_to_bytes :: "bytes \<Rightarrow> bytes" where
  "unquote_to_bytes s =
     (case py_split (py ''%'') s of
        [] \<Rightarrow> s
      | b0 # rest \<Rightarrow> b0 @ concat (map unquote_piece rest))"

text \<open>\<open>_asciire.split(string)\<close>: maximal runs of ASCII and of non-ASCII code points.\<close>

fun ascii_runs :: "pystr \<Rightarrow> (bool \<times> pystr) list" where
  "ascii_runs [] = []"
| "ascii_runs (c # cs) =
     (case ascii_runs cs of
        (a, r) # rs \<Rightarrow> if a = (c < 128) then (a, c # r) # rs else (c < 128, [c]) # (a, r) # rs
      | [] \<Rightarrow> [(c < 128, [c])])"

definition unquote :: "pystr \<Rightarrow> pystr" where
  "unquote s =
     (if 37 \<notin> set s then s
      else concat (map (\<lambda>(a, r). if a then utf8_decode_replace (unquote_to_bytes r) else r)
                       (ascii_runs s)))"

subsection \<open>UTF-8 round trip\<close>

lemma div_64_parts:
  fixes c :: nat
  shows "c div 4096 * 4096 + c div 64 mod 64 * 64 + c mod 64 = c"
    and "c div 262144 * 262144 + c div 4096 mod 64 * 4096 + c div 64 mod 64 * 64 + c mod 64 = c"
proof -
  have a: "c div 64 * 64 + c mod 64 = c" by (rule div_mult_mod_eq)
  have b: "c div 64 div 64 * 64 + c div 64 mod 64 = c div 64" by (rule div_mult_mod_eq)
  have c: "c div 4096 div 64 * 64 + c div 4096 mod 64 = c div 4096" by (rule div_mult_mod_eq)
  have e1: "c div 64 div 64 = c div 4096" by (simp add: div_mult2_eq [symmetric])
  have e2: "c div 4096 div 64 = c div 262144" by (simp add: div_mult2_eq [symmetric])
  show "c div 4096 * 4096 + c div 64 mod 64 * 64 + c mod 64 = c" using a b e1 by linarith
  show "c div 262144 * 262144 + c div 4096 mod 64 * 4096 + c div 64 mod 64 * 64 + c mod 64 = c"
    using a b c e1 e2 by linarith
qed

lemma utf8_enc1: "c < 128 \<Longrightarrow> utf8_next c rest = (Some c, 1)"
  by (simp add: utf8_next_def)

lemma utf8_enc2:
  assumes "128 \<le> c" "c < 2048"
  shows "utf8_next (192 + c div 64) ((128 + c mod 64) # rest) = (Some c, 2)"
proof -
  have "2 \<le> c div 64" "c div 64 < 32" using assms by linarith+
  then show ?thesis by (simp add: utf8_next_def is_cont_def)
qed

lemma utf8_enc3:
  assumes "2048 \<le> c" "c < 65536" "\<not> (55296 \<le> c \<and> c \<le> 57343)"
  shows "utf8_next (224 + c div 4096) ((128 + c div 64 mod 64) # (128 + c mod 64) # rest) = (Some c, 3)"
proof -
  have q: "c div 4096 < 16" using assms by linarith
  have m: "c div 64 mod 64 < 64" "c mod 64 < 64" by simp_all
  have lo: "32 \<le> c div 64 mod 64" if "c div 4096 = 0"
  proof -
    have "c div 64 < 64" using that by linarith
    then have "c div 64 mod 64 = c div 64" by simp
    then show ?thesis using assms(1) by linarith
  qed
  have hi: "c div 64 mod 64 < 32" if "c div 4096 = 13"
  proof -
    have "c div 64 div 64 = c div 4096" by (simp add: div_mult2_eq [symmetric])
    moreover have "c div 64 div 64 * 64 + c div 64 mod 64 = c div 64" by (rule div_mult_mod_eq)
    moreover have "c div 64 < 864" using assms that by linarith
    ultimately show ?thesis using that by linarith
  qed
  note rec = div_64_parts(1) [of c]
  show ?thesis using q m lo hi rec by (auto simp: utf8_next_def is_cont_def Let_def)
qed

lemma utf8_enc4:
  assumes "65536 \<le> c" "c < 1114112"
  shows "utf8_next (240 + c div 262144)
           ((128 + c div 4096 mod 64) # (128 + c div 64 mod 64) # (128 + c mod 64) # rest) =
         (Some c, 4)"
proof -
  have q: "c div 262144 < 5" using assms by linarith
  have lo: "16 \<le> c div 4096 mod 64" if "c div 262144 = 0"
  proof -
    have "c div 4096 < 64" using that by linarith
    then have "c div 4096 mod 64 = c div 4096" by simp
    then show ?thesis using assms(1) by linarith
  qed
  have hi: "c div 4096 mod 64 < 16" if "c div 262144 = 4"
  proof -
    have "c div 4096 div 64 = c div 262144" by (simp add: div_mult2_eq [symmetric])
    moreover have "c div 4096 div 64 * 64 + c div 4096 mod 64 = c div 4096" by (rule div_mult_mod_eq)
    moreover have "c div 4096 < 272" using assms by linarith
    ultimately show ?thesis using that by linarith
  qed
  note rec = div_64_parts(2) [of c]
  show ?thesis using q lo hi rec by (auto simp: utf8_next_def is_cont_def Let_def)
qed

lemma utf8_encode_char_next:
  assumes "is_scalar c"
  obtains b bs where "utf8_encode_char c = b # bs"
    and "\<And>rest. utf8_next b (bs @ rest) = (Some c, Suc (length bs))"
proof -
  consider "c < 128" | "128 \<le> c" "c < 2048" | "2048 \<le> c" "c < 65536" | "65536 \<le> c"
    by linarith
  then show ?thesis
  proof cases
    case 1
    then show ?thesis using that utf8_enc1 by (simp add: utf8_encode_char_def)
  next
    case 2
    then show ?thesis using that utf8_enc2 by (simp add: utf8_encode_char_def)
  next
    case 3
    then show ?thesis using that utf8_enc3 assms by (simp add: utf8_encode_char_def is_scalar_def)
  next
    case 4
    then show ?thesis using that utf8_enc4 assms by (simp add: utf8_encode_char_def is_scalar_def)
  qed
qed

lemma utf8_decode_encode: "list_all is_scalar s \<Longrightarrow> utf8_decode (utf8_encode s) = Some s"
proof (induction s)
  case Nil
  then show ?case by (simp add: utf8_encode_def)
next
  case (Cons c s)
  then have sc: "is_scalar c" and IH: "utf8_decode (utf8_encode s) = Some s" by simp_all
  obtain b bs where e: "utf8_encode_char c = b # bs"
    and n: "\<And>rest. utf8_next b (bs @ rest) = (Some c, Suc (length bs))"
    using utf8_encode_char_next [OF sc] by blast
  have "utf8_encode (c # s) = b # bs @ utf8_encode s" by (simp add: utf8_encode_def e)
  then show ?case using n [of "utf8_encode s"] IH by simp
qed

subsection \<open>ASCII and byte bounds\<close>

lemma utf8_encode_char_ascii: "c < 128 \<Longrightarrow> utf8_encode_char c = [c]"
  by (simp add: utf8_encode_char_def)

lemma utf8_encode_ascii: "list_all (\<lambda>c. c < 128) s \<Longrightarrow> utf8_encode s = s"
  by (induction s) (auto simp: utf8_encode_def utf8_encode_char_ascii)

lemma utf8_encode_bytes_ok: "list_all is_scalar s \<Longrightarrow> bytes_ok (utf8_encode s)"
proof (induction s)
  case Nil
  then show ?case by (simp add: utf8_encode_def bytes_ok_def)
next
  case (Cons c s)
  then have "is_scalar c" by simp
  then have "list_all (\<lambda>b. b < 256) (utf8_encode_char c)"
    by (auto simp: utf8_encode_char_def is_scalar_def)
  with Cons show ?case by (simp add: utf8_encode_def bytes_ok_def)
qed

subsection \<open>Decoding text the program decodes\<close>

lemma utf8_encode_nonempty: "s \<noteq> [] \<Longrightarrow> utf8_encode s \<noteq> []"
  by (cases s) (simp_all add: utf8_encode_def utf8_encode_char_def)

lemma decode_utf8_encode: "list_all is_scalar s \<Longrightarrow> decode_utf8 (utf8_encode s) = Inr s"
  by (simp add: decode_utf8_def utf8_decode_encode)

lemma decode_utf8_ascii: "list_all (\<lambda>c. c < 128) s \<Longrightarrow> decode_utf8 s = Inr s"
proof -
  assume a: "list_all (\<lambda>c. c < 128) s"
  then have "list_all is_scalar s" by (auto simp: list_all_iff is_scalar_def)
  then have "utf8_decode (utf8_encode s) = Some s" by (rule utf8_decode_encode)
  with a show ?thesis by (simp add: decode_utf8_def utf8_encode_ascii)
qed

lemma unquote_plain: "37 \<notin> set s \<Longrightarrow> unquote s = s"
  by (simp add: unquote_def)

end
