(* ===== verification/Regex.thy ===== *)
theory Regex
  imports Prelude
begin

text \<open>
  \<open>re.match(pattern, s)\<close> for the patterns of \<open>decode_ss_node\<close> (src/freefq.py lines
  89, 96--97 and 104--105): sequences of literal characters and capture groups \<open>(.*)\<close>
  (greedy) and \<open>(.*?)\<close> (lazy), where \<open>.\<close> is any code point but the newline (10).
  \<open>re.match\<close> anchors at the start only.  The matcher backtracks in the order of Python's
  engine: a greedy group first tries to take one more character, a lazy group first tries
  to take none, and the first success is the match.  The result is the list of captured
  groups, \<open>[m.group(1), m.group(2), ...]\<close>; \<open>None\<close> is no match.  The last
  section proves each pattern equivalent to a reference made of \<open>str.partition\<close> and
  \<open>str.rpartition\<close> on the first line of the text.
\<close>

datatype rx = RLit nat | RStar bool  \<comment> \<open>\<open>RStar True\<close> is \<open>(.*?)\<close>, \<open>RStar False\<close> is \<open>(.*)\<close>\<close>

definition cons_hd :: "nat \<Rightarrow> pystr list \<Rightarrow> pystr list" where
  "cons_hd x gs = (case gs of g # gs' \<Rightarrow> (x # g) # gs' | [] \<Rightarrow> [[x]])"

fun rx_match :: "rx list \<Rightarrow> pystr \<Rightarrow> pystr list option" where
  "rx_match [] s = Some []"
| "rx_match (RLit c # ps) [] = None"
| "rx_match (RLit c # ps) (x # s) = (if x = c then rx_match ps s else None)"
| "rx_match (RStar l # ps) [] = map_option (Cons []) (rx_match ps [])"
| "rx_match (RStar True # ps) (x # s) =
     (case rx_match ps (x # s) of
        Some gs \<Rightarrow> Some ([] # gs)
      | None \<Rightarrow> if x = 10 then None else map_option (cons_hd x) (rx_match (RStar True # ps) s))"
| "rx_match (RStar False # ps) (x # s) =
     (if x = 10 then map_option (Cons []) (rx_match ps (x # s))
      else case rx_match (RStar False # ps) s of
             Some gs \<Rightarrow> Some (cons_hd x gs)
           | None \<Rightarrow> map_option (Cons []) (rx_match ps (x # s)))"

text \<open>The three patterns of \<open>decode_ss_node\<close>.\<close>

definition pat_userinfo_at :: "rx list" where  \<comment> \<open>\<open>r'(.*?)@(.*):(.*)'\<close>\<close>
  "pat_userinfo_at = [RStar True, RLit 64, RStar False, RLit 58, RStar False]"

definition pat_method_pw :: "rx list" where  \<comment> \<open>\<open>r'(.*?):(.*)'\<close>\<close>
  "pat_method_pw = [RStar True, RLit 58, RStar False]"

definition pat_full :: "rx list" where  \<comment> \<open>\<open>r'(.*?):(.*)@(.*):(.*)'\<close>\<close>
  "pat_full = [RStar True, RLit 58, RStar False, RLit 64, RStar False, RLit 58, RStar False]"

subsection \<open>Reference: partition at the first and at the last occurrence\<close>

text \<open>The first line of a text (\<open>.\<close> never matches the newline), and Python's
  \<open>str.partition\<close> and \<open>str.rpartition\<close> as options: the text before and after the
  first (last) occurrence of a character, \<open>None\<close> when it does not occur.\<close>

definition line1 :: "pystr \<Rightarrow> pystr" where
  "line1 s = takeWhile (\<lambda>c. c \<noteq> 10) s"

primrec partition_at :: "nat \<Rightarrow> pystr \<Rightarrow> (pystr \<times> pystr) option" where
  "partition_at c [] = None"
| "partition_at c (x # s) =
     (if x = c then Some ([], s) else map_option (\<lambda>(a, b). (x # a, b)) (partition_at c s))"

primrec rpartition_at :: "nat \<Rightarrow> pystr \<Rightarrow> (pystr \<times> pystr) option" where
  "rpartition_at c [] = None"
| "rpartition_at c (x # s) =
     (case rpartition_at c s of
        Some (a, b) \<Rightarrow> Some (x # a, b)
      | None \<Rightarrow> if x = c then Some ([], s) else None)"

text \<open>A continuation that fails on a text fails on its tail when the text starts on the
  first line: the lazy group gives up at the first success.\<close>

definition rx_mono :: "rx list \<Rightarrow> bool" where
  "rx_mono ps \<longleftrightarrow> (\<forall>x t. x \<noteq> 10 \<longrightarrow> rx_match ps (x # t) = None \<longrightarrow> rx_match ps t = None)"

subsection \<open>Matching newline-free text\<close>

lemma cons_hd_Cons [simp]: "cons_hd x (g # gs) = (x # g) # gs"
  by (simp add: cons_hd_def)

lemma rx_greedy_end: "10 \<notin> set s \<Longrightarrow> rx_match [RStar False] s = Some [s]"
  by (induction s) auto

text \<open>A group before a literal that does not occur in the text never matches.\<close>

lemma rx_star_lit_absent:
  "c \<notin> set s \<Longrightarrow> rx_match (RStar l # RLit c # ps) s = None"
proof (induction s)
  case Nil
  then show ?case by (cases l) auto
next
  case (Cons x s)
  then show ?case by (cases l) auto
qed

text \<open>A lazy group ends at the first occurrence of the literal after it.\<close>

lemma rx_lazy_lit:
  assumes "10 \<notin> set a" "c \<notin> set a" "rx_match ps b = Some gs"
  shows "rx_match (RStar True # RLit c # ps) (a @ c # b) = Some (a # gs)"
  using assms by (induction a) auto

text \<open>A greedy group ends at the last occurrence of the literal after it.\<close>

lemma rx_greedy_lit:
  assumes "10 \<notin> set a" "c \<notin> set b" "c \<noteq> 10" "rx_match ps b = Some gs"
  shows "rx_match (RStar False # RLit c # ps) (a @ c # b) = Some (a # gs)"
  using assms
proof (induction a)
  case Nil
  then show ?case by (simp add: rx_star_lit_absent)
next
  case (Cons y a)
  then show ?case by simp
qed

subsection \<open>The patterns on well-formed links\<close>

lemma rx_userinfo_at:
  assumes "10 \<notin> set u" "64 \<notin> set u" "10 \<notin> set s" "10 \<notin> set p" "58 \<notin> set p"
  shows "rx_match pat_userinfo_at (u @ 64 # s @ 58 # p) = Some [u, s, p]"
proof -
  have "rx_match [RStar False, RLit 58, RStar False] (s @ 58 # p) = Some [s, p]"
    using assms(3-5) by (intro rx_greedy_lit) (simp_all add: rx_greedy_end)
  then show ?thesis using assms(1,2) by (simp add: pat_userinfo_at_def rx_lazy_lit)
qed

lemma rx_method_pw:
  assumes "10 \<notin> set m" "58 \<notin> set m" "10 \<notin> set p"
  shows "rx_match pat_method_pw (m @ 58 # p) = Some [m, p]"
  using assms by (simp add: pat_method_pw_def rx_lazy_lit rx_greedy_end)

subsection \<open>The patterns are partitions of the first line\<close>

lemma line1_simps [simp]:
  "line1 [] = []" "line1 (x # s) = (if x = 10 then [] else x # line1 s)"
  by (simp_all add: line1_def)

lemma partition_at_iff: "partition_at c s = Some (a, b) \<longleftrightarrow> s = a @ c # b \<and> c \<notin> set a"
proof (induction s arbitrary: a b)
  case Nil
  then show ?case by simp
next
  case (Cons x s)
  then show ?case by (cases a) (auto split: prod.splits)
qed

lemma rpartition_at_None: "rpartition_at c s = None \<longleftrightarrow> c \<notin> set s"
  by (induction s) (auto split: option.splits)

lemma last_occ_unique:
  "a @ c # b = a' @ c # b' \<Longrightarrow> c \<notin> set b \<Longrightarrow> c \<notin> set b' \<Longrightarrow> a = a' \<and> b = b'"
proof (induction a arbitrary: a')
  case Nil
  then show ?case by (cases a') auto
next
  case (Cons y a)
  then show ?case by (cases a') auto
qed

lemma rpartition_at_iff: "rpartition_at c s = Some (a, b) \<longleftrightarrow> s = a @ c # b \<and> c \<notin> set b"
proof (induction s arbitrary: a b)
  case Nil
  then show ?case by simp
next
  case (Cons x s)
  show ?case
  proof (cases "rpartition_at c s")
    case None
    moreover from None have "c \<notin> set s" by (simp add: rpartition_at_None)
    ultimately show ?thesis by (cases a) auto
  next
    case (Some p)
    obtain a' b' where p: "p = (a', b')" by (cases p)
    with Some Cons.IH have s: "s = a' @ c # b'" "c \<notin> set b'" by auto
    show ?thesis
    proof
      assume "rpartition_at c (x # s) = Some (a, b)"
      with Some p s show "x # s = a @ c # b \<and> c \<notin> set b" by simp
    next
      assume "x # s = a @ c # b \<and> c \<notin> set b"
      with s have "(x # a') @ c # b' = a @ c # b" "c \<notin> set b" by auto
      with last_occ_unique [OF this(1) s(2)] Some p show "rpartition_at c (x # s) = Some (a, b)" by auto
    qed
  qed
qed

lemma partition_at_length: "partition_at c s = Some (a, b) \<Longrightarrow> length a < length s"
  by (simp add: partition_at_iff)

lemma rx_greedy_line: "rx_match [RStar False] s = Some [line1 s]"
  by (induction s) auto

lemma rx_mono_drop:
  assumes "rx_mono ps" "rx_match ps t = None" "k \<le> length (line1 t)"
  shows "rx_match ps (drop k t) = None"
  using assms(2,3)
proof (induction k arbitrary: t)
  case 0
  then show ?case by simp
next
  case (Suc k)
  then obtain x t' where t: "t = x # t'" "x \<noteq> 10" by (cases t) (auto split: if_splits)
  with Suc.prems assms(1) have "rx_match ps t' = None" by (auto simp: rx_mono_def)
  with Suc.IH [of t'] Suc.prems t show ?case by simp
qed

text \<open>A lazy group before a literal ends at the first occurrence of the literal on the
  first line, when the rest of the pattern fails monotonically.\<close>

lemma rx_lazy_partition:
  assumes "c \<noteq> 10" "rx_mono ps"
  shows "rx_match (RStar True # RLit c # ps) s =
           (case partition_at c (line1 s) of
              None \<Rightarrow> None
            | Some (a, _) \<Rightarrow> map_option (Cons a) (rx_match ps (drop (Suc (length a)) s)))"
proof (induction s)
  case Nil
  then show ?case by simp
next
  case (Cons x s)
  show ?case
  proof (cases "x = 10 \<or> x \<noteq> c")
    case True
    with assms(1) Cons show ?thesis
      by (auto simp: option.map_comp comp_def split: option.splits)
  next
    case False
    then have x: "x = c" "x \<noteq> 10" by auto
    show ?thesis
    proof (cases "rx_match ps s")
      case (Some gs)
      with x show ?thesis by simp
    next
      case None
      have "\<forall>a b. partition_at c (line1 s) = Some (a, b) \<longrightarrow> rx_match ps (drop (Suc (length a)) s) = None"
      proof (intro allI impI)
        fix a b assume "partition_at c (line1 s) = Some (a, b)"
        then have "Suc (length a) \<le> length (line1 s)" using partition_at_length by fastforce
        with rx_mono_drop [OF assms(2) None] show "rx_match ps (drop (Suc (length a)) s) = None" .
      qed
      with x None Cons show ?thesis by (auto split: option.splits)
    qed
  qed
qed


lemma rx_greedy_colon:
  "rx_match [RStar False, RLit 58, RStar False] t =
     map_option (\<lambda>(a, p). [a, p]) (rpartition_at 58 (line1 t))"
proof (induction t)
  case Nil
  then show ?case by simp
next
  case (Cons x t)
  then show ?case by (auto simp: rx_greedy_line split: option.splits)
qed

lemma rx_greedy_at:
  "rx_match [RStar False, RLit 64, RStar False, RLit 58, RStar False] t =
     (case rpartition_at 58 (line1 t) of
        None \<Rightarrow> None
      | Some (pre, port) \<Rightarrow> map_option (\<lambda>(a, srv). [a, srv, port]) (rpartition_at 64 pre))"
proof (induction t)
  case Nil
  then show ?case by simp
next
  case (Cons x t)
  then show ?case by (auto simp: rx_greedy_colon split: option.splits)
qed


lemma rx_mono_greedy_colon: "rx_mono [RStar False, RLit 58, RStar False]"
  unfolding rx_mono_def rx_greedy_colon by (auto simp: rpartition_at_None split: option.splits)

lemma rx_mono_greedy_at: "rx_mono [RStar False, RLit 64, RStar False, RLit 58, RStar False]"
  unfolding rx_mono_def rx_greedy_at
  by (auto simp: rpartition_at_None split: option.splits)

lemma rx_mono_greedy: "rx_mono [RStar False]"
  by (simp add: rx_mono_def rx_greedy_line)

lemma line1_append: "10 \<notin> set r \<Longrightarrow> line1 (r @ t) = r @ line1 t"
  by (induction r) auto

lemma line1_no_eol: "10 \<notin> set (line1 s)"
  by (induction s) auto

lemma line1_rest: "line1 (dropWhile (\<lambda>c. c \<noteq> 10) s) = []"
  by (induction s) auto

lemma line1_drop_partition:
  assumes "partition_at c (line1 s) = Some (a, r)"
  shows "line1 (drop (Suc (length a)) s) = r"
proof -
  define w where "w = dropWhile (\<lambda>c. c \<noteq> 10) s"
  have l: "line1 s = a @ c # r" using assms by (simp add: partition_at_iff)
  have "s = line1 s @ w" by (simp add: line1_def w_def)
  then have sw: "s = a @ c # r @ w" by (simp add: l)
  have "10 \<notin> set r" using line1_no_eol [of s] l by simp
  moreover have "line1 w = []" by (simp add: w_def line1_rest)
  ultimately show ?thesis by (subst sw) (simp add: line1_append)
qed

text \<open>C35: \<open>re.match(r'(.*?):(.*)', s)\<close>, which splits the decoded user information of
  an ss:// link into method and password (line 97), is equivalent to
  \<open>s.partition(':')\<close> on the first line of \<open>s\<close>: the method ends at the first colon and
  the password is the rest of the line, colons included.\<close>

theorem rx_method_pw_partition:
  "rx_match pat_method_pw s = map_option (\<lambda>(m, p). [m, p]) (partition_at 58 (line1 s))"
proof (cases "partition_at 58 (line1 s)")
  case None
  then show ?thesis by (simp add: pat_method_pw_def rx_lazy_partition rx_mono_greedy)
next
  case (Some mp)
  then show ?thesis
    by (cases mp) (simp add: pat_method_pw_def rx_lazy_partition rx_mono_greedy rx_greedy_line
        line1_drop_partition)
qed

text \<open>C30: \<open>re.match(r'(.*?)@(.*):(.*)', s)\<close>, the backtracking matcher, is equivalent
  to two string operations on the first line of \<open>s\<close>: partition at the first \<open>@\<close>,
  then partition the rest at its last \<open>:\<close>; there is no match when either is missing.
  So the port is what follows the last colon and an IPv6 server such as \<open>[::1]\<close> keeps
  its colons.\<close>

theorem rx_userinfo_at_partition:
  "rx_match pat_userinfo_at s =
     (case partition_at 64 (line1 s) of
        None \<Rightarrow> None
      | Some (u, r) \<Rightarrow> map_option (\<lambda>(a, p). [u, a, p]) (rpartition_at 58 r))"
proof (cases "partition_at 64 (line1 s)")
  case None
  then show ?thesis by (simp add: pat_userinfo_at_def rx_lazy_partition rx_mono_greedy_colon)
next
  case (Some ur)
  then show ?thesis
    by (cases ur) (simp add: pat_userinfo_at_def rx_lazy_partition rx_mono_greedy_colon
        rx_greedy_colon line1_drop_partition option.map_comp comp_def case_prod_unfold)
qed


text \<open>C31: \<open>re.match(r'(.*?):(.*)@(.*):(.*)', s)\<close> is equivalent to: partition the first
  line at its first \<open>:\<close> (the method), the rest at its last \<open>:\<close> (the port) and what
  is before that at its last \<open>@\<close> (password, then server); a password may contain
  \<open>:\<close> and \<open>@\<close>, a server name neither.\<close>

theorem rx_full_partition:
  "rx_match pat_full s =
     (case partition_at 58 (line1 s) of
        None \<Rightarrow> None
      | Some (m, r) \<Rightarrow>
          (case rpartition_at 58 r of
             None \<Rightarrow> None
           | Some (pre, port) \<Rightarrow> map_option (\<lambda>(pw, srv). [m, pw, srv, port]) (rpartition_at 64 pre)))"
proof (cases "partition_at 58 (line1 s)")
  case None
  then show ?thesis by (simp add: pat_full_def rx_lazy_partition rx_mono_greedy_at)
next
  case (Some mr)
  obtain m r where mr: "mr = (m, r)" by (cases mr)
  have "rx_match pat_full s =
          map_option (Cons m) (rx_match [RStar False, RLit 64, RStar False, RLit 58, RStar False]
            (drop (Suc (length m)) s))"
    using Some mr by (simp add: pat_full_def rx_lazy_partition rx_mono_greedy_at)
  then show ?thesis
    using Some mr line1_drop_partition [of 58 s m r]
    by (simp add: rx_greedy_at option.map_comp comp_def case_prod_unfold split: option.split)
qed

end
