(* ===== verification/Decode.thy ===== *)
theory Decode
  imports Base64 Codec Regex
begin

text \<open>
  The codec layer for the delimited schemes: \<open>decode_ss_node\<close> (src/freefq.py lines
  64--114) and \<open>decode_ssr_node\<close> (lines 117--148).  Each takes a list of raw lines
  (\<open>bytes\<close>) and returns the list of decoded records, a \<open>dict\<close> of strings.  The body
  of the loop is one function per scheme, returning \<open>Inr None\<close> for a node the code
  skips with \<open>continue\<close>, \<open>Inr (Some info)\<close> for a decoded node and \<open>Inl e\<close> for an
  exception that leaves the loop (the code catches none).  Logging is not modelled.
\<close>

type_synonym sdict = "pystr pydict"

subsection \<open>decode_ss_node\<close>

text \<open>The plugin options after \<open>/?\<close>: \<open>info[key_value[0]] = key_value[1]\<close> for each
  \<open>;\<close>-separated item; an item without \<open>=\<close> raises \<open>IndexError\<close>.\<close>

definition ss_plugin_opt :: "pystr \<Rightarrow> sdict \<Rightarrow> sdict res" where
  "ss_plugin_opt p info =
     (let key_value = py_split (py ''='') p
      in if length key_value < 2 then Inl IndexError
         else Inr (dict_set info (key_value ! 0) (key_value ! 1)))"

text \<open>Lines 88--112: the credentials, after the name and the plugin part are cut off.\<close>

definition ss_credentials :: "sdict \<Rightarrow> pystr \<Rightarrow> sdict option res" where
  "ss_credentials info param =
     (if find_sub (py ''@'') param \<noteq> None then
        (case rx_match pat_userinfo_at param of
           Some [g1, g2, g3] \<Rightarrow>
             (let info' = dict_set (dict_set info (py ''server'') g2) (py ''port'') g3
              in rbind (safe_decode g1) (\<lambda>b. rbind (decode_utf8 b) (\<lambda>u.
                   case rx_match pat_method_pw u of
                     Some [m, pw] \<Rightarrow>
                       Inr (Some (dict_set (dict_set info' (py ''method'') m) (py ''password'') pw))
                   | _ \<Rightarrow> Inr None)))
         | _ \<Rightarrow> Inr None)
      else
        rbind (safe_decode param) (\<lambda>b. rbind (decode_utf8 b) (\<lambda>u.
          case rx_match pat_full u of
            Some [m, pw, srv, port] \<Rightarrow>
              Inr (Some (dict_set (dict_set (dict_set (dict_set info
                (py ''method'') m) (py ''password'') pw) (py ''server'') srv) (py ''port'') port))
          | _ \<Rightarrow> Inr None)))"

text \<open>The body of the loop for one node.\<close>

definition ss_decode_one :: "bytes \<Rightarrow> sdict option res" where
  "ss_decode_one node =
     rbind (decode_utf8 node) (\<lambda>u.
       let decode_proxy = drop 5 u in
       if decode_proxy = [] \<or> py_isspace decode_proxy then Inr None
       else
         let (info1, param1) =
               (case find_sub (py ''#'') decode_proxy of
                  Some i \<Rightarrow> ([(py ''name'', unquote (drop (i + 1) decode_proxy))], take i decode_proxy)
                | None \<Rightarrow> ([], decode_proxy))
         in case find_sub (py ''/?'') param1 of
              Some i \<Rightarrow>
                rbind (rfold ss_plugin_opt (py_split (py '';'') (unquote (drop (i + 2) param1))) info1)
                  (\<lambda>info2. ss_credentials info2 (take i param1))
            | None \<Rightarrow> ss_credentials info1 param1)"

text \<open>The loop: decoded nodes in input order, skipped nodes left out.\<close>

definition collect_step :: "('a \<Rightarrow> 'b option res) \<Rightarrow> 'a \<Rightarrow> 'b list \<Rightarrow> 'b list res" where
  "collect_step f x acc =
     rbind (f x) (\<lambda>r. case r of None \<Rightarrow> Inr acc | Some v \<Rightarrow> Inr (acc @ [v]))"

definition decode_ss_node :: "bytes list \<Rightarrow> sdict list res" where
  "decode_ss_node nodes = rfold (collect_step ss_decode_one) nodes []"

subsection \<open>decode_ssr_node\<close>

text \<open>Lines 144--146: \<open>info[key] = safe_decode(value).decode('utf-8')\<close> for each
  \<open>&\<close>-separated parameter.\<close>

definition ssr_param :: "pystr \<Rightarrow> sdict \<Rightarrow> sdict res" where
  "ssr_param p info =
     (let key_value = py_split (py ''='') p
      in if length key_value < 2 then Inl IndexError
         else rbind (safe_decode (key_value ! 1)) (\<lambda>b. rbind (decode_utf8 b) (\<lambda>v.
                Inr (dict_set info (key_value ! 0) v))))"

definition ssr_decode_one :: "bytes \<Rightarrow> sdict option res" where
  "ssr_decode_one node =
     rbind (decode_utf8 node) (\<lambda>u.
       let decode_proxy = drop 6 u in
       if decode_proxy = [] \<or> py_isspace decode_proxy then Inr None
       else
         rbind (safe_decode decode_proxy) (\<lambda>b. rbind (decode_utf8 b) (\<lambda>proxy_str.
           let parts = py_split (py '':'') proxy_str in
           if length parts \<noteq> 6 then Inr None
           else
             let info = [(py ''server'', parts ! 0), (py ''port'', parts ! 1),
                         (py ''protocol'', parts ! 2), (py ''method'', parts ! 3),
                         (py ''obfs'', parts ! 4)];
                 password_params = py_split (py ''/?'') (parts ! 5)
             in rbind (safe_decode (password_params ! 0)) (\<lambda>pb. rbind (decode_utf8 pb) (\<lambda>pw.
                  let info' = dict_set info (py ''password'') pw in
                  if length password_params < 2 then Inl IndexError
                  else rbind (rfold ssr_param (py_split (py ''&'') (password_params ! 1)) info')
                         (\<lambda>info''. Inr (Some info'')))))))"

definition decode_ssr_node :: "bytes list \<Rightarrow> sdict list res" where
  "decode_ssr_node nodes = rfold (collect_step ssr_decode_one) nodes []"

subsection \<open>Error paths\<close>

text \<open>C11: an ss plugin option without \<open>=\<close> raises IndexError (\<open>key_value[1]\<close>).\<close>

theorem ss_plugin_opt_no_eq:
  assumes "61 \<notin> set p"
  shows "ss_plugin_opt p info = Inl IndexError"
  using assms by (simp add: ss_plugin_opt_def py_split_absent)

theorem ss_plugin_opt_no_eq_witness:
  "ss_plugin_opt (py ''obfs'') [] = Inl IndexError"
  by (rule ss_plugin_opt_no_eq) simp

end
