(* ===== verification/Normalize.thy ===== *)
theory Normalize
  imports Decode
begin

text \<open>
  The normalizer layer: \<open>v2ray_to_clash\<close> (src/freefq.py lines 222--259),
  \<open>ss_to_clash\<close> (lines 262--294) and \<open>ssr_to_clash\<close> (lines 297--330).  Each builds
  one Clash record per decoded item as a dict literal (its values evaluated left to
  right, so the first failing value raises), deletes the keys whose value is \<open>None\<close>,
  applies its inclusion rule and appends the record and its \<open>name\<close> to a feed.
\<close>

subsection \<open>Shared steps\<close>

text \<open>\<open>item.get(k)\<close> on a decoded record of strings.\<close>

definition sget :: "sdict \<Rightarrow> pystr \<Rightarrow> pyval" where
  "sget d k = (case map_of d k of None \<Rightarrow> PNone | Some v \<Rightarrow> PStr v)"

text \<open>\<open>for key in list(obj.keys()): if obj.get(key) is None: del obj[key]\<close>\<close>

definition drop_none :: "pyval pydict \<Rightarrow> pyval pydict" where
  "drop_none d = filter (\<lambda>p. snd p \<noteq> PNone) d"

text \<open>\<open>v.strip() if v else None\<close>\<close>

definition strip_name :: "pyval \<Rightarrow> pyval res" where
  "strip_name v =
     (if truthy v then (case v of PStr s \<Rightarrow> Inr (PStr (py_strip s)) | _ \<Rightarrow> Inl AttributeError)
      else Inr PNone)"

text \<open>\<open>obj['name']\<close>: \<open>KeyError\<close> when the key was deleted.\<close>

definition dindex :: "pyval pydict \<Rightarrow> pystr \<Rightarrow> pyval res" where
  "dindex d k = (case map_of d k of None \<Rightarrow> Inl KeyError | Some v \<Rightarrow> Inr v)"

definition feed_add :: "feed \<Rightarrow> pyval \<Rightarrow> pyval \<Rightarrow> feed" where
  "feed_add f r n = \<lparr>proxy_list = proxy_list f @ [r], proxy_names = proxy_names f @ [n]\<rparr>"

subsection \<open>v2ray_to_clash\<close>

definition v2ray_obj :: "pyval pydict \<Rightarrow> pyval pydict res" where
  "v2ray_obj item =
     rbind (strip_name (dget item (py ''ps''))) (\<lambda>name.
     rbind (int_of_val (dget item (py ''port''))) (\<lambda>port.
     Inr (drop_none
       [(py ''name'', name),
        (py ''type'', PStr (py ''vmess'')),
        (py ''server'', dget item (py ''add'')),
        (py ''port'', PInt port),
        (py ''uuid'', dget item (py ''id'')),
        (py ''alterId'', dget item (py ''aid'')),
        (py ''cipher'', PStr (py ''auto'')),
        (py ''udp'', PBool True),
        (py ''network'', dget item (py ''net'')),
        (py ''tls'', if dget item (py ''tls'') = PStr (py ''tls'') then PBool True else PNone),
        (py ''ws-path'', dget item (py ''path'')),
        (py ''ws-headers'', if truthy (dget item (py ''host''))
                            then PDict [(py ''Host'', dget item (py ''host''))] else PNone)])))"

definition v2ray_step :: "pyval \<Rightarrow> feed \<Rightarrow> feed res" where
  "v2ray_step v f =
     (case v of
        PDict item \<Rightarrow>
          (if dget item (py ''ps'') = PNone \<and> dget item (py ''add'') = PNone \<and>
              dget item (py ''port'') = PNone \<and> dget item (py ''id'') = PNone \<and>
              dget item (py ''aid'') = PNone then Inr f
           else rbind (v2ray_obj item) (\<lambda>obj.
                  if dget obj (py ''alterId'') \<noteq> PNone
                  then rbind (dindex obj (py ''name'')) (\<lambda>n. Inr (feed_add f (PDict obj) n))
                  else Inr f))
      | _ \<Rightarrow> Inl AttributeError)"

definition v2ray_to_clash :: "pyval list \<Rightarrow> feed res" where
  "v2ray_to_clash arr = rfold v2ray_step arr feed_empty"

subsection \<open>ss_to_clash\<close>

text \<open>\<open>obj['plugin-opts'][k] = v\<close>: item assignment on \<open>None\<close> raises \<open>TypeError\<close>.\<close>

definition set_plugin_opt :: "pyval pydict \<Rightarrow> pystr \<Rightarrow> pyval \<Rightarrow> pyval pydict res" where
  "set_plugin_opt obj k v =
     (case dget obj (py ''plugin-opts'') of
        PDict opts \<Rightarrow> Inr (dict_set obj (py ''plugin-opts'') (PDict (dict_set opts k v)))
      | _ \<Rightarrow> Inl TypeError)"

definition ss_obj :: "sdict \<Rightarrow> pyval pydict res" where
  "ss_obj item =
     rbind (strip_name (sget item (py ''name''))) (\<lambda>name.
     rbind (int_of_val (sget item (py ''port''))) (\<lambda>port.
     let plugin = sget item (py ''plugin'');
         obj0 =
           [(py ''name'', name),
            (py ''type'', PStr (py ''ss'')),
            (py ''server'', sget item (py ''server'')),
            (py ''port'', PInt port),
            (py ''cipher'', sget item (py ''method'')),
            (py ''password'', sget item (py ''password'')),
            (py ''plugin'', if truthy plugin \<and> (case plugin of PStr p \<Rightarrow> startswith p (py ''obfs'') | _ \<Rightarrow> False)
                            then PStr (py ''obfs'') else PNone),
            (py ''plugin-opts'', if truthy plugin then PDict [] else PNone)]
     in rbind (if truthy (sget item (py ''obfs''))
               then set_plugin_opt obj0 (py ''mode'') (sget item (py ''obfs'')) else Inr obj0) (\<lambda>obj1.
        rbind (if truthy (sget item (py ''obfs-host''))
               then set_plugin_opt obj1 (py ''host'') (sget item (py ''obfs-host'')) else Inr obj1) (\<lambda>obj2.
        Inr (drop_none obj2)))))"

definition ss_step :: "sdict \<Rightarrow> feed \<Rightarrow> feed res" where
  "ss_step item f =
     rbind (ss_obj item) (\<lambda>obj.
       rbind (dindex obj (py ''name'')) (\<lambda>n. Inr (feed_add f (PDict obj) n)))"

definition ss_to_clash :: "sdict list \<Rightarrow> feed res" where
  "ss_to_clash arr = rfold ss_step arr feed_empty"

subsection \<open>ssr_to_clash\<close>

text \<open>The name prefixes of informational entries, \<open>"remaining traffic"\<close> and
  \<open>"expiry time"\<close> in Chinese (four CJK characters each), as code points.\<close>

definition remaining_traffic :: pystr where
  "remaining_traffic = [21097, 20313, 27969, 37327]"

definition expiry_time :: pystr where
  "expiry_time = [36807, 26399, 26102, 38388]"

definition ssr_obj :: "sdict \<Rightarrow> pyval pydict res" where
  "ssr_obj item =
     rbind (strip_name (sget item (py ''remarks''))) (\<lambda>name.
     rbind (int_of_val (sget item (py ''port''))) (\<lambda>port.
     Inr (drop_none
       [(py ''name'', name),
        (py ''type'', PStr (py ''ssr'')),
        (py ''server'', sget item (py ''server'')),
        (py ''port'', PInt port),
        (py ''cipher'', sget item (py ''method'')),
        (py ''password'', sget item (py ''password'')),
        (py ''obfs'', sget item (py ''obfs'')),
        (py ''protocol'', sget item (py ''protocol'')),
        (py ''obfs-param'', sget item (py ''obfsparam'')),
        (py ''protocol-param'', sget item (py ''protoparam'')),
        (py ''udp'', PBool True)])))"

text \<open>Lines 325--328: kept when the name is non-empty and starts with neither marker.\<close>

definition ssr_keep :: "pyval \<Rightarrow> bool res" where
  "ssr_keep n =
     (if truthy n then
        (case n of
           PStr s \<Rightarrow> Inr (\<not> startswith s remaining_traffic \<and> \<not> startswith s expiry_time)
         | _ \<Rightarrow> Inl AttributeError)
      else Inr False)"

definition ssr_step :: "sdict \<Rightarrow> feed \<Rightarrow> feed res" where
  "ssr_step item f =
     rbind (ssr_obj item) (\<lambda>obj.
       rbind (ssr_keep (dget obj (py ''name''))) (\<lambda>keep.
         if keep then Inr (feed_add f (PDict obj) (dget obj (py ''name''))) else Inr f))"

definition ssr_to_clash :: "sdict list \<Rightarrow> feed res" where
  "ssr_to_clash arr = rfold ssr_step arr feed_empty"

subsection \<open>Lemmas on the normalizer steps\<close>


lemma dindex_Inr: "dindex d k = Inr v \<Longrightarrow> dget d k = v \<and> (k, v) \<in> set d"
  by (auto simp: dindex_def dget_def split: option.splits dest: map_of_SomeD)

lemma drop_none_no_None: "PNone \<notin> snd ` set (drop_none d)"
  by (auto simp: drop_none_def)

lemma feed_aligned_add [intro]:
  "feed_aligned f \<Longrightarrow> feed_aligned (feed_add f (PDict obj) (dget obj (py ''name'')))"
  by (simp add: feed_aligned_def feed_add_def)

lemma v2ray_obj_Inr: "v2ray_obj item = Inr obj \<Longrightarrow> PNone \<notin> snd ` set obj"
proof -
  assume "v2ray_obj item = Inr obj"
  then obtain d0 where "obj = drop_none d0" unfolding v2ray_obj_def rbind_eq_Inr_iff by blast
  then show ?thesis by (simp add: drop_none_no_None)
qed

lemma ss_obj_Inr: "ss_obj item = Inr obj \<Longrightarrow> PNone \<notin> snd ` set obj"
proof -
  assume "ss_obj item = Inr obj"
  then obtain d0 where "obj = drop_none d0" unfolding ss_obj_def Let_def rbind_eq_Inr_iff by blast
  then show ?thesis by (simp add: drop_none_no_None)
qed

lemma ssr_obj_Inr: "ssr_obj item = Inr obj \<Longrightarrow> PNone \<notin> snd ` set obj"
proof -
  assume "ssr_obj item = Inr obj"
  then obtain d0 where "obj = drop_none d0" unfolding ssr_obj_def rbind_eq_Inr_iff by blast
  then show ?thesis by (simp add: drop_none_no_None)
qed


lemma v2ray_step_cases:
  assumes "v2ray_step v f = Inr f'"
  shows "f' = f \<or> (\<exists>obj. f' = feed_add f (PDict obj) (dget obj (py ''name'')) \<and>
                          PNone \<notin> snd ` set obj \<and> dget obj (py ''alterId'') \<noteq> PNone)"
proof -
  from assms obtain item where v: "v = PDict item" by (cases v) (simp_all add: v2ray_step_def)
  show ?thesis
  proof (cases "f' = f")
    case False
    with assms v obtain obj n where "v2ray_obj item = Inr obj" "dget obj (py ''alterId'') \<noteq> PNone"
      "dindex obj (py ''name'') = Inr n" "f' = feed_add f (PDict obj) n"
      by (auto simp: v2ray_step_def rbind_eq_Inr_iff split: if_splits)
    moreover from this(1) have "PNone \<notin> snd ` set obj" by (rule v2ray_obj_Inr)
    moreover from \<open>dindex obj (py ''name'') = Inr n\<close> have "dget obj (py ''name'') = n"
      by (simp add: dindex_Inr)
    ultimately show ?thesis by blast
  qed simp
qed

lemma ss_step_cases:
  assumes "ss_step item f = Inr f'"
  shows "\<exists>obj. f' = feed_add f (PDict obj) (dget obj (py ''name'')) \<and>
               PNone \<notin> snd ` set obj \<and> dget obj (py ''name'') \<noteq> PNone"
proof -
  from assms obtain obj n where o: "ss_obj item = Inr obj" "dindex obj (py ''name'') = Inr n"
    and f': "f' = feed_add f (PDict obj) n"
    by (auto simp: ss_step_def rbind_eq_Inr_iff)
  from o(1) have "PNone \<notin> snd ` set obj" by (rule ss_obj_Inr)
  moreover from o(2) have "dget obj (py ''name'') = n" "(py ''name'', n) \<in> set obj"
    by (simp_all add: dindex_Inr)
  moreover from \<open>PNone \<notin> snd ` set obj\<close> \<open>(py ''name'', n) \<in> set obj\<close> have "n \<noteq> PNone"
    by (auto intro: rev_image_eqI)
  ultimately show ?thesis using f' by blast
qed

lemma ssr_step_cases:
  assumes "ssr_step item f = Inr f'"
  shows "f' = f \<or> (\<exists>obj s. f' = feed_add f (PDict obj) (dget obj (py ''name'')) \<and>
            PNone \<notin> snd ` set obj \<and> dget obj (py ''name'') = PStr s \<and> s \<noteq> [] \<and>
            \<not> startswith s remaining_traffic \<and> \<not> startswith s expiry_time)"
proof (cases "f' = f")
  case False
  with assms obtain obj where o: "ssr_obj item = Inr obj"
    and k: "ssr_keep (dget obj (py ''name'')) = Inr True"
    and f': "f' = feed_add f (PDict obj) (dget obj (py ''name''))"
    by (auto simp: ssr_step_def rbind_eq_Inr_iff split: if_splits)
  from k obtain s where "dget obj (py ''name'') = PStr s" "s \<noteq> []"
    "\<not> startswith s remaining_traffic" "\<not> startswith s expiry_time"
    by (auto simp: ssr_keep_def split: if_splits pyval.splits)
  moreover from o have "PNone \<notin> snd ` set obj" by (rule ssr_obj_Inr)
  ultimately show ?thesis using f' by blast
qed simp


lemma feed_add_fields [simp]:
  "proxy_list (feed_add f r n) = proxy_list f @ [r]"
  "proxy_names (feed_add f r n) = proxy_names f @ [n]"
  by (simp_all add: feed_add_def)

text \<open>The shape every normalizer has: a step keeps the feed or appends a record and
  its name, the record satisfying \<open>Q\<close>.\<close>

lemma normalizer_inv:
  assumes run: "rfold step arr feed_empty = Inr f"
    and step: "\<And>v g g'. step v g = Inr g' \<Longrightarrow>
                 g' = g \<or> (\<exists>obj. g' = feed_add g (PDict obj) (dget obj (py ''name'')) \<and> Q obj)"
  shows "feed_aligned f \<and> (\<forall>r \<in> set (proxy_list f). \<exists>d. r = PDict d \<and> Q d)"
proof (rule rfold_invariant [OF _ run])
  show "feed_aligned feed_empty \<and> (\<forall>r \<in> set (proxy_list feed_empty). \<exists>d. r = PDict d \<and> Q d)"
    by (simp add: feed_empty_def feed_aligned_def)
next
  fix v g g'
  assume inv: "feed_aligned g \<and> (\<forall>r \<in> set (proxy_list g). \<exists>d. r = PDict d \<and> Q d)"
    and "step v g = Inr g'"
  then consider "g' = g" | obj where "g' = feed_add g (PDict obj) (dget obj (py ''name''))" "Q obj"
    using step by blast
  then show "feed_aligned g' \<and> (\<forall>r \<in> set (proxy_list g'). \<exists>d. r = PDict d \<and> Q d)"
    by cases (use inv in \<open>auto simp: feed_aligned_def\<close>)
qed

lemma normalizers_aligned:
  "v2ray_to_clash arr = Inr f \<Longrightarrow> feed_aligned f"
  "ss_to_clash arr' = Inr g \<Longrightarrow> feed_aligned g"
  "ssr_to_clash arr'' = Inr h \<Longrightarrow> feed_aligned h"
proof -
  show "v2ray_to_clash arr = Inr f \<Longrightarrow> feed_aligned f"
    unfolding v2ray_to_clash_def using normalizer_inv v2ray_step_cases by blast
  show "ss_to_clash arr' = Inr g \<Longrightarrow> feed_aligned g"
    unfolding ss_to_clash_def using normalizer_inv ss_step_cases by blast
  show "ssr_to_clash arr'' = Inr h \<Longrightarrow> feed_aligned h"
    unfolding ssr_to_clash_def using normalizer_inv ssr_step_cases by blast
qed

lemma map_of_drop_none:
  "distinct (map fst d) \<Longrightarrow> map_of (drop_none d) k = (case map_of d k of Some PNone \<Rightarrow> None | r \<Rightarrow> r)"
  by (induction d) (auto simp: drop_none_def image_iff split: option.splits pyval.splits)

lemma dget_drop_none:
  "distinct (map fst d) \<Longrightarrow> dget (drop_none d) k = dget d k"
  by (simp add: dget_def map_of_drop_none split: option.splits pyval.splits)

lemma dindex_drop_none:
  "distinct (map fst d) \<Longrightarrow>
   dindex (drop_none d) k = (if dget d k = PNone then Inl KeyError else Inr (dget d k))"
  by (simp add: dindex_def dget_def map_of_drop_none split: option.splits pyval.splits)

lemma strip_name_sget: "\<exists>nm. strip_name (sget item k) = Inr nm"
  by (simp add: strip_name_def sget_def split: option.splits)

lemma v2ray_obj_alterId:
  "v2ray_obj item = Inr obj \<Longrightarrow> dget obj (py ''alterId'') = dget item (py ''aid'')"
  by (auto simp: v2ray_obj_def rbind_eq_Inr_iff dget_drop_none dget_Cons)

lemma v2ray_step_no_aid:
  "dget item (py ''aid'') = PNone \<Longrightarrow> v2ray_step (PDict item) f = Inr f' \<Longrightarrow> f' = f"
  by (auto simp: v2ray_step_def rbind_eq_Inr_iff dest: v2ray_obj_alterId split: if_splits)

subsection \<open>Properties of the normalizers\<close>

text \<open>C4: every record that v2ray_to_clash emits is a dict with an alterId and no
  None value, and the names are the records' names in order.\<close>

theorem v2ray_to_clash_records:
  assumes "v2ray_to_clash arr = Inr f"
  shows "feed_aligned f \<and> (\<forall>r \<in> set (proxy_list f). \<exists>d. r = PDict d \<and>
           PNone \<notin> snd ` set d \<and> dget d (py ''alterId'') \<noteq> PNone)"
  using assms unfolding v2ray_to_clash_def
  by (rule normalizer_inv) (rule v2ray_step_cases)

theorem v2ray_to_clash_records_witness:
  "v2ray_to_clash [PDict [(py ''ps'', PStr (py '' a '')), (py ''port'', PInt 443), (py ''aid'', PInt 0)]] =
     Inr \<lparr>proxy_list = [PDict [(py ''name'', PStr (py ''a'')), (py ''type'', PStr (py ''vmess'')),
           (py ''port'', PInt 443), (py ''alterId'', PInt 0), (py ''cipher'', PStr (py ''auto'')),
           (py ''udp'', PBool True)]], proxy_names = [PStr (py ''a'')]\<rparr> \<and>
   feed_aligned \<lparr>proxy_list = [PDict [(py ''name'', PStr (py ''a'')), (py ''type'', PStr (py ''vmess'')),
           (py ''port'', PInt 443), (py ''alterId'', PInt 0), (py ''cipher'', PStr (py ''auto'')),
           (py ''udp'', PBool True)]], proxy_names = [PStr (py ''a'')]\<rparr>"
proof -
  have h: "v2ray_to_clash [PDict [(py ''ps'', PStr (py '' a '')), (py ''port'', PInt 443), (py ''aid'', PInt 0)]] =
     Inr \<lparr>proxy_list = [PDict [(py ''name'', PStr (py ''a'')), (py ''type'', PStr (py ''vmess'')),
           (py ''port'', PInt 443), (py ''alterId'', PInt 0), (py ''cipher'', PStr (py ''auto'')),
           (py ''udp'', PBool True)]], proxy_names = [PStr (py ''a'')]\<rparr>"
    by (simp add: v2ray_to_clash_def v2ray_step_def v2ray_obj_def strip_name_def dget_def
        drop_none_def dindex_def feed_add_def feed_empty_def py_strip_def is_space_def)
  show ?thesis using v2ray_to_clash_records [OF h] h by blast
qed


text \<open>C5: every record that ss_to_clash emits is a dict with a name and no None value,
  and the names are the records' names in order.\<close>

theorem ss_to_clash_records:
  assumes "ss_to_clash arr = Inr f"
  shows "feed_aligned f \<and> (\<forall>r \<in> set (proxy_list f). \<exists>d. r = PDict d \<and>
           PNone \<notin> snd ` set d \<and> dget d (py ''name'') \<noteq> PNone)"
  using assms unfolding ss_to_clash_def
  by (rule normalizer_inv) (use ss_step_cases in blast)

theorem ss_to_clash_records_witness:
  "ss_to_clash [[(py ''name'', py ''n''), (py ''server'', py ''h''), (py ''port'', py ''80'')]] =
     Inr \<lparr>proxy_list = [PDict [(py ''name'', PStr (py ''n'')), (py ''type'', PStr (py ''ss'')),
           (py ''server'', PStr (py ''h'')), (py ''port'', PInt 80)]], proxy_names = [PStr (py ''n'')]\<rparr> \<and>
   feed_aligned \<lparr>proxy_list = [PDict [(py ''name'', PStr (py ''n'')), (py ''type'', PStr (py ''ss'')),
           (py ''server'', PStr (py ''h'')), (py ''port'', PInt 80)]], proxy_names = [PStr (py ''n'')]\<rparr>"
proof -
  have h: "ss_to_clash [[(py ''name'', py ''n''), (py ''server'', py ''h''), (py ''port'', py ''80'')]] =
     Inr \<lparr>proxy_list = [PDict [(py ''name'', PStr (py ''n'')), (py ''type'', PStr (py ''ss'')),
           (py ''server'', PStr (py ''h'')), (py ''port'', PInt 80)]], proxy_names = [PStr (py ''n'')]\<rparr>"
    by (simp add: ss_to_clash_def ss_step_def ss_obj_def strip_name_def sget_def dget_def
        drop_none_def dindex_def feed_add_def feed_empty_def py_strip_def is_space_def
        int_of_str_def is_digit_def)
  show ?thesis using ss_to_clash_records [OF h] h by blast
qed

text \<open>C3: the names ssr_to_clash emits are non-empty strings starting with neither
  informational marker, each the name of its record, and no record holds None.\<close>

theorem ssr_to_clash_names:
  assumes "ssr_to_clash arr = Inr f"
  shows "feed_aligned f \<and> (\<forall>n \<in> set (proxy_names f). \<exists>s. n = PStr s \<and> s \<noteq> [] \<and>
           \<not> startswith s remaining_traffic \<and> \<not> startswith s expiry_time)"
proof -
  have "feed_aligned f \<and> (\<forall>r \<in> set (proxy_list f). \<exists>d. r = PDict d \<and>
           PNone \<notin> snd ` set d \<and> (\<exists>s. dget d (py ''name'') = PStr s \<and> s \<noteq> [] \<and>
           \<not> startswith s remaining_traffic \<and> \<not> startswith s expiry_time))"
    using assms unfolding ssr_to_clash_def
    by (rule normalizer_inv) (use ssr_step_cases in blast)
  then show ?thesis by (auto simp: feed_aligned_def)
qed

theorem ssr_to_clash_names_witness:
  "ssr_to_clash [[(py ''remarks'', py ''r''), (py ''port'', py ''1'')],
                 [(py ''remarks'', remaining_traffic @ py '' 1GB''), (py ''port'', py ''1'')]] =
     Inr \<lparr>proxy_list = [PDict [(py ''name'', PStr (py ''r'')), (py ''type'', PStr (py ''ssr'')),
           (py ''port'', PInt 1), (py ''udp'', PBool True)]], proxy_names = [PStr (py ''r'')]\<rparr> \<and>
   feed_aligned \<lparr>proxy_list = [PDict [(py ''name'', PStr (py ''r'')), (py ''type'', PStr (py ''ssr'')),
           (py ''port'', PInt 1), (py ''udp'', PBool True)]], proxy_names = [PStr (py ''r'')]\<rparr>"
proof -
  have h: "ssr_to_clash [[(py ''remarks'', py ''r''), (py ''port'', py ''1'')],
                 [(py ''remarks'', remaining_traffic @ py '' 1GB''), (py ''port'', py ''1'')]] =
     Inr \<lparr>proxy_list = [PDict [(py ''name'', PStr (py ''r'')), (py ''type'', PStr (py ''ssr'')),
           (py ''port'', PInt 1), (py ''udp'', PBool True)]], proxy_names = [PStr (py ''r'')]\<rparr>"
    by (simp add: ssr_to_clash_def ssr_step_def ssr_obj_def ssr_keep_def strip_name_def sget_def
        dget_def drop_none_def feed_add_def feed_empty_def py_strip_def is_space_def
        int_of_str_def is_digit_def startswith_def remaining_traffic_def expiry_time_def)
  show ?thesis using ssr_to_clash_names [OF h] h by blast
qed

subsection \<open>Error paths of the normalizers\<close>

text \<open>C12: a vmess item with an aid but no ps (and a valid port) raises KeyError: the
  name was deleted as None before \<open>obj['name']\<close> is read.\<close>

theorem v2ray_step_no_name:
  assumes "dget item (py ''ps'') = PNone" "dget item (py ''aid'') \<noteq> PNone"
    and "int_of_val (dget item (py ''port'')) = Inr port"
  shows "v2ray_step (PDict item) f = Inl KeyError"
  using assms
  by (simp add: v2ray_step_def v2ray_obj_def strip_name_def dindex_drop_none dget_drop_none dget_Cons)

theorem v2ray_step_no_name_witness:
  "v2ray_step (PDict [(py ''port'', PInt 443), (py ''aid'', PInt 0)]) feed_empty = Inl KeyError"
  by (rule v2ray_step_no_name) (simp_all add: dget_def)

text \<open>C13: an ss item with an obfs mode but no plugin raises TypeError: plugin-opts is
  None when the mode is written into it.\<close>

theorem ss_obj_obfs_without_plugin:
  assumes "truthy (sget item (py ''obfs''))" "\<not> truthy (sget item (py ''plugin''))"
    and "int_of_val (sget item (py ''port'')) = Inr port"
  shows "ss_obj item = Inl TypeError"
proof -
  obtain nm where "strip_name (sget item (py ''name'')) = Inr nm"
    using strip_name_sget by blast
  with assms show ?thesis
    by (simp add: ss_obj_def Let_def set_plugin_opt_def dget_def)
qed

theorem ss_obj_obfs_without_plugin_witness:
  "ss_obj [(py ''port'', py ''80''), (py ''obfs'', py ''http'')] = Inl TypeError"
  by (rule ss_obj_obfs_without_plugin) (simp_all add: sget_def int_of_str_def is_digit_def py_strip_def is_space_def)

text \<open>C20: vmess items without an aid yield no record: v2ray_to_clash returns an empty
  feed whenever it returns.\<close>

theorem v2ray_to_clash_no_aid:
  assumes "v2ray_to_clash arr = Inr f"
    and "\<forall>v \<in> set arr. \<exists>item. v = PDict item \<and> dget item (py ''aid'') = PNone"
  shows "proxy_list f = [] \<and> proxy_names f = []"
proof -
  have "f = feed_empty"
    using assms(1) unfolding v2ray_to_clash_def
  proof (rule rfold_invariant_on [where P = "\<lambda>f. f = feed_empty", OF refl])
    fix v g g'
    assume "v \<in> set arr" "g = feed_empty" "v2ray_step v g = Inr g'"
    moreover from assms(2) \<open>v \<in> set arr\<close> obtain item
      where "v = PDict item" "dget item (py ''aid'') = PNone" by blast
    ultimately show "g' = feed_empty" using v2ray_step_no_aid by simp
  qed
  then show ?thesis by (simp add: feed_empty_def)
qed

theorem v2ray_to_clash_no_aid_witness:
  "v2ray_to_clash [PDict [(py ''ps'', PStr (py ''a'')), (py ''port'', PInt 443)]] = Inr feed_empty \<and>
   proxy_list feed_empty = [] \<and> proxy_names feed_empty = []"
proof -
  have h: "v2ray_to_clash [PDict [(py ''ps'', PStr (py ''a'')), (py ''port'', PInt 443)]] = Inr feed_empty"
    by (simp add: v2ray_to_clash_def v2ray_step_def v2ray_obj_def strip_name_def dget_def
        drop_none_def py_strip_def is_space_def)
  moreover have "\<forall>v \<in> set [PDict [(py ''ps'', PStr (py ''a'')), (py ''port'', PInt 443)]].
                   \<exists>item. v = PDict item \<and> dget item (py ''aid'') = PNone"
    by (simp add: dget_def)
  ultimately show ?thesis using v2ray_to_clash_no_aid by blast
qed

end
