(* ===== verification/Feed.thy ===== *)
theory Feed
  imports Normalize "HOL-Library.Sublist"
begin

text \<open>
  The feed aggregator, \<open>get_proxies\<close> (src/freefq.py lines 151--219), and the vmess
  decoder it calls, \<open>decode_v2ray_node\<close> (lines 46--61).  The libraries the code calls
  for I/O and parsing are parameters of the model, gathered in a record: \<open>json.loads\<close>,
  \<open>yaml.load\<close> and \<open>requests.get(url).text\<close>, each returning a value or raising.
\<close>

record libs =
  json_loads :: "pystr \<Rightarrow> pyval res"
  yaml_load :: "pystr \<Rightarrow> pyval res"
  fetch_text :: "pystr \<Rightarrow> pystr res"

text \<open>Libraries that raise on every call, for instances where no library is reached.\<close>

definition failing_libs :: libs where
  "failing_libs = \<lparr>json_loads = \<lambda>_. Inl ValueError, yaml_load = \<lambda>_. Inl YAMLError,
                   fetch_text = \<lambda>_. Inl RequestException\<rparr>"

subsection \<open>decode_v2ray_node\<close>

definition v2ray_decode_one :: "libs \<Rightarrow> bytes \<Rightarrow> pyval option res" where
  "v2ray_decode_one L node =
     rbind (decode_utf8 node) (\<lambda>u.
       let decode_proxy = drop 8 u in
       if decode_proxy = [] \<or> py_isspace decode_proxy then Inr None
       else rbind (b64decode decode_proxy) (\<lambda>b. rbind (decode_utf8 b) (\<lambda>proxy_str.
              rbind (json_loads L proxy_str) (\<lambda>d. Inr (Some d)))))"

definition decode_v2ray_node :: "libs \<Rightarrow> bytes list \<Rightarrow> pyval list res" where
  "decode_v2ray_node L nodes = rfold (collect_step (v2ray_decode_one L)) nodes []"

subsection \<open>One line of a base64 subscription\<close>

text \<open>
  Lines 204--217.  \<open>clash_node\<close> is set by a line with a known scheme and keeps its
  value across lines; it starts as the empty list \<open>[]\<close> (here \<open>None\<close>), on which
  \<open>clash_node['proxy_list']\<close> raises \<open>TypeError\<close>.  A line with an unknown scheme
  leaves it unchanged and the previous line's records are appended again.
\<close>

definition dispatch_line :: "libs \<Rightarrow> bytes \<Rightarrow> feed option \<Rightarrow> feed option res" where
  "dispatch_line L node clash_node =
     (if startswith node (py ''vmess://'') then
        rbind (decode_v2ray_node L [node]) (\<lambda>d. rbind (v2ray_to_clash d) (\<lambda>c. Inr (Some c)))
      else if startswith node (py ''ss://'') then
        rbind (decode_ss_node [node]) (\<lambda>d. rbind (ss_to_clash d) (\<lambda>c. Inr (Some c)))
      else if startswith node (py ''ssr://'') then
        rbind (decode_ssr_node [node]) (\<lambda>d. rbind (ssr_to_clash d) (\<lambda>c. Inr (Some c)))
      else Inr clash_node)"

text \<open>The schemes the loop dispatches on.\<close>

definition known_scheme :: "bytes \<Rightarrow> bool" where
  "known_scheme node \<longleftrightarrow> startswith node (py ''vmess://'') \<or> startswith node (py ''ss://'') \<or>
                         startswith node (py ''ssr://'')"

definition line_step :: "libs \<Rightarrow> bytes \<Rightarrow> feed \<times> feed option \<Rightarrow> (feed \<times> feed option) res" where
  "line_step L node st =
     rbind (dispatch_line L node (snd st)) (\<lambda>cn.
       case cn of
         None \<Rightarrow> Inl TypeError
       | Some c \<Rightarrow> Inr (feed_extend (fst st) c, Some c))"

definition b64_feed :: "libs \<Rightarrow> bytes \<Rightarrow> feed \<Rightarrow> feed res" where
  "b64_feed L raw acc = rbind (rfold (line_step L) (splitlines raw) (acc, None)) (\<lambda>st. Inr (fst st))"

subsection \<open>A structured (Clash) subscription\<close>

text \<open>Lines 185--196 for one entry: strip the name, rename the two ClashR keys, force
  \<open>udp\<close>.\<close>

definition clash_fix :: "pyval \<Rightarrow> pyval res" where
  "clash_fix node =
     (case node of
        PDict d \<Rightarrow>
          rbind (strip_name (dget d (py ''name''))) (\<lambda>nm.
            let d1 = dict_set d (py ''name'') nm;
                d2 = (if truthy (dget d1 (py ''protocolparam''))
                      then dict_del (dict_set d1 (py ''protocol-param'') (dget d1 (py ''protocolparam'')))
                                    (py ''protocolparam'')
                      else d1);
                d3 = (if truthy (dget d2 (py ''obfsparam''))
                      then dict_del (dict_set d2 (py ''obfs-param'') (dget d2 (py ''obfsparam'')))
                                    (py ''obfsparam'')
                      else d2)
            in Inr (PDict (dict_set d3 (py ''udp'') (PBool True))))
      | _ \<Rightarrow> Inl AttributeError)"

text \<open>Lines 173--200 after \<open>yaml.load\<close>: the proxies under \<open>proxies\<close>, else under
  \<open>Proxy\<close>, else none.\<close>

definition clash_feed :: "pyval \<Rightarrow> feed \<Rightarrow> feed res" where
  "clash_feed yml acc =
     (case yml of
        PDict y \<Rightarrow>
          (let tmp = (if truthy (dget y (py ''proxies'')) then Some (dget y (py ''proxies''))
                      else if truthy (dget y (py ''Proxy'')) then Some (dget y (py ''Proxy''))
                      else None)
           in case tmp of
                None \<Rightarrow> Inr acc
              | Some t \<Rightarrow>
                  rbind (py_iter t) (\<lambda>nodes. rbind (rmap clash_fix nodes) (\<lambda>nodes_list.
                    Inr (feed_extend acc \<lparr>proxy_list = nodes_list,
                                          proxy_names = map name_of nodes_list\<rparr>))))
      | _ \<Rightarrow> Inl AttributeError)"

subsection \<open>get_proxies\<close>

text \<open>One subscription: \<open>base64.b64decode(response)\<close>, whose exceptions the code catches
  and takes as the sign of a structured document.\<close>

definition feed_response :: "libs \<Rightarrow> pystr \<Rightarrow> feed \<Rightarrow> feed res" where
  "feed_response L response acc =
     (case b64decode response of
        Inl _ \<Rightarrow> rbind (yaml_load L response) (\<lambda>yml. clash_feed yml acc)
      | Inr raw \<Rightarrow> b64_feed L raw acc)"

definition get_proxies :: "libs \<Rightarrow> pystr \<Rightarrow> feed res" where
  "get_proxies L urls =
     rfold (\<lambda>url acc. rbind (fetch_text L url) (\<lambda>response. feed_response L response acc))
       (py_split (py '';'') urls) feed_empty"

subsection \<open>The line loop as a state machine\<close>

text \<open>The states of the loop of lines 204--217 are the feed and \<open>clash_node\<close>; a step
  reads any line.  The states reachable from a start are those the loop can reach.\<close>

inductive line_reach :: "libs \<Rightarrow> feed \<times> feed option \<Rightarrow> feed \<times> feed option \<Rightarrow> bool" for L where
  reach_refl: "line_reach L s s"
| reach_step: "line_reach L s t \<Longrightarrow> line_step L node t = Inr u \<Longrightarrow> line_reach L s u"

subsection \<open>The subscriptions are independent\<close>

text \<open>The abstract view of \<open>get_proxies\<close>: every subscription yields a feed of its own,
  fetched and read with an empty accumulator, and the result is their concatenation in
  the order of the URLs; the first exception ends the whole call.\<close>

definition feed_concat :: "feed list \<Rightarrow> feed" where
  "feed_concat fs = \<lparr>proxy_list = concat (map proxy_list fs), proxy_names = concat (map proxy_names fs)\<rparr>"

definition source_feed :: "libs \<Rightarrow> pystr \<Rightarrow> feed res" where
  "source_feed L url = rbind (fetch_text L url) (\<lambda>response. feed_response L response feed_empty)"

definition get_proxies_spec :: "libs \<Rightarrow> pystr \<Rightarrow> feed res" where
  "get_proxies_spec L urls = rbind (rmap (source_feed L) (py_split (py '';'') urls)) (\<lambda>fs. Inr (feed_concat fs))"

subsection \<open>The feed stays aligned\<close>

lemma dispatch_line_aligned:
  assumes "dispatch_line L node cn = Inr cn'" "\<forall>c. cn = Some c \<longrightarrow> feed_aligned c"
  shows "\<forall>c. cn' = Some c \<longrightarrow> feed_aligned c"
  using assms
  by (auto simp: dispatch_line_def rbind_eq_Inr_iff split: if_splits dest: normalizers_aligned)

lemma b64_feed_aligned:
  assumes "b64_feed L raw acc = Inr f" "feed_aligned acc"
  shows "feed_aligned f"
proof -
  from assms(1) obtain st where run: "rfold (line_step L) (splitlines raw) (acc, None) = Inr st"
    and f: "f = fst st" by (auto simp: b64_feed_def rbind_eq_Inr_iff)
  have "feed_aligned (fst st) \<and> (\<forall>c. snd st = Some c \<longrightarrow> feed_aligned c)"
  proof (rule rfold_invariant [OF _ run])
    fix node s s'
    assume inv: "feed_aligned (fst s) \<and> (\<forall>c. snd s = Some c \<longrightarrow> feed_aligned c)"
      and step: "line_step L node s = Inr s'"
    from step obtain c where d: "dispatch_line L node (snd s) = Inr (Some c)"
      and s': "s' = (feed_extend (fst s) c, Some c)"
      by (auto simp: line_step_def rbind_eq_Inr_iff split: option.splits)
    from dispatch_line_aligned [OF d] inv have "feed_aligned c" by blast
    with inv s' show "feed_aligned (fst s') \<and> (\<forall>c. snd s' = Some c \<longrightarrow> feed_aligned c)"
      by auto
  qed (simp add: assms(2))
  with f show ?thesis by simp
qed

lemma clash_feed_aligned:
  assumes "clash_feed yml acc = Inr f" "feed_aligned acc"
  shows "feed_aligned f"
  using assms
  by (auto simp: clash_feed_def Let_def rbind_eq_Inr_iff feed_aligned_def feed_extend_def
           split: pyval.splits if_splits option.splits)

lemma feed_response_aligned:
  "feed_response L response acc = Inr f \<Longrightarrow> feed_aligned acc \<Longrightarrow> feed_aligned f"
  by (auto simp: feed_response_def rbind_eq_Inr_iff split: sum.splits
           dest: b64_feed_aligned clash_feed_aligned)

lemma get_proxies_aligned_inv:
  "get_proxies L urls = Inr f \<Longrightarrow> feed_aligned f"
  unfolding get_proxies_def
  by (rule rfold_invariant [where P = feed_aligned])
     (auto simp: rbind_eq_Inr_iff dest: feed_response_aligned)


subsection \<open>Lines with an unknown scheme\<close>

lemma dispatch_line_unknown:
  "\<not> known_scheme node \<Longrightarrow> dispatch_line L node cn = Inr cn"
  by (simp add: dispatch_line_def known_scheme_def)

text \<open>C7: a line with an unknown scheme appends the records of the previous line again.\<close>

theorem line_step_unknown_repeats:
  assumes "\<not> known_scheme node"
  shows "rfold (line_step L) (node # nodes) (acc, Some c) =
         rfold (line_step L) nodes (feed_extend acc c, Some c)"
  using assms by (simp add: line_step_def dispatch_line_unknown)

theorem line_step_unknown_repeats_witness:
  "rfold (line_step failing_libs) [py ''x''] (feed_empty, Some \<lparr>proxy_list = [PInt 1], proxy_names = [PNone]\<rparr>) =
   Inr (\<lparr>proxy_list = [PInt 1], proxy_names = [PNone]\<rparr>, Some \<lparr>proxy_list = [PInt 1], proxy_names = [PNone]\<rparr>)"
  using line_step_unknown_repeats [of "py ''x''" failing_libs "[]" feed_empty "\<lparr>proxy_list = [PInt 1], proxy_names = [PNone]\<rparr>"]
  by (simp add: known_scheme_def startswith_def)

text \<open>C8: when the first line of a decoded subscription has an unknown scheme (or is
  empty), get_proxies fails with TypeError: clash_node is still the empty list.\<close>

theorem b64_feed_first_unknown:
  assumes "splitlines raw = node # nodes" "\<not> known_scheme node"
  shows "b64_feed L raw acc = Inl TypeError"
  using assms by (simp add: b64_feed_def line_step_def dispatch_line_unknown)

theorem b64_feed_first_unknown_witness:
  "b64_feed failing_libs (py ''hello'') feed_empty = Inl TypeError"
proof -
  have "splitlines (py ''hello'') = [py ''hello'']"
    by (subst splitlines.simps) (simp add: is_eol_def)
  moreover have "\<not> known_scheme (py ''hello'')" by (simp add: known_scheme_def startswith_def)
  ultimately show ?thesis by (rule b64_feed_first_unknown)
qed

text \<open>C9: a Clash document that is ASCII, has no \<open>=\<close> and whose base64-alphabet
  characters number a multiple of four is never parsed as YAML: \<open>b64decode\<close> accepts it
  in its non-strict mode (skipping every other character), and get_proxies reads the
  decoded bytes as a list of links, whatever \<open>yaml.load\<close> would make of the text.\<close>

theorem clash_yaml_taken_as_base64:
  assumes "list_all (\<lambda>c. c < 128) response" "61 \<notin> set response"
    and "length (filter (\<lambda>c. b64_val c \<noteq> None) response) mod 4 = 0"
  shows "\<exists>raw. b64decode response = Inr raw \<and> feed_response L response acc = b64_feed L raw acc"
proof -
  have f: "filter b64_relevant response = filter (\<lambda>c. b64_val c \<noteq> None) response"
    using assms(2) by (auto simp: b64_relevant_def intro: filter_cong)
  have d: "list_all (\<lambda>c. b64_val c \<noteq> None) (filter (\<lambda>c. b64_val c \<noteq> None) response)"
    by (simp add: list_all_iff)
  have "a2b_base64 response = a2b_base64 (filter (\<lambda>c. b64_val c \<noteq> None) response)"
    using a2b_loop_filter [of a2b_init response] f by (simp add: a2b_base64_def)
  also have "\<dots> = Inr (bin_data (fst (a2b_loop a2b_init (filter (\<lambda>c. b64_val c \<noteq> None) response))))"
    using a2b_base64_data_only [OF d] assms(3) by simp
  finally show ?thesis using assms(1) by (simp add: b64decode_def feed_response_def)
qed

theorem clash_yaml_taken_as_base64_witness:
  "\<exists>raw. b64decode (py ''proxies:'' @ [10] @ py ''  - name: n'' @ [10]) = Inr raw \<and>
     feed_response failing_libs (py ''proxies:'' @ [10] @ py ''  - name: n'' @ [10]) feed_empty =
     b64_feed failing_libs raw feed_empty"
  by (rule clash_yaml_taken_as_base64) (simp_all add: b64_val_def)

subsection \<open>get_proxies refines its abstract view\<close>

lemma line_steps_acc:
  "rfold (line_step L) ls (feed_extend a b, cn) =
   rbind (rfold (line_step L) ls (b, cn)) (\<lambda>st. Inr (feed_extend a (fst st), snd st))"
proof (induction ls arbitrary: b cn)
  case Nil
  then show ?case by simp
next
  case (Cons l ls)
  show ?case
  proof (cases "dispatch_line L l cn")
    case (Inl e)
    then show ?thesis by (simp add: line_step_def)
  next
    case (Inr r)
    then show ?thesis
      using Cons.IH by (cases r) (simp_all add: line_step_def feed_extend_assoc)
  qed
qed

lemma b64_feed_acc: "b64_feed L raw acc = rbind (b64_feed L raw feed_empty) (\<lambda>c. Inr (feed_extend acc c))"
  using line_steps_acc [of L "splitlines raw" acc feed_empty None]
  by (simp add: b64_feed_def rbind_assoc)

lemma clash_feed_acc: "clash_feed yml acc = rbind (clash_feed yml feed_empty) (\<lambda>c. Inr (feed_extend acc c))"
  by (simp add: clash_feed_def Let_def rbind_assoc split: pyval.splits option.splits)

lemma feed_response_acc:
  "feed_response L r acc = rbind (feed_response L r feed_empty) (\<lambda>c. Inr (feed_extend acc c))"
  by (auto simp: feed_response_def rbind_assoc b64_feed_acc [of L _ acc] clash_feed_acc [of _ acc]
           split: sum.splits)

lemma feed_concat_snoc: "feed_concat (fs @ [f]) = feed_extend (feed_concat fs) f"
  by (simp add: feed_concat_def feed_extend_def)

lemma get_proxies_loop:
  "rfold (\<lambda>url acc. rbind (fetch_text L url) (\<lambda>response. feed_response L response acc)) us
         (feed_concat fs) =
   rbind (rmap (source_feed L) us) (\<lambda>gs. Inr (feed_concat (fs @ gs)))"
proof (induction us arbitrary: fs)
  case Nil
  then show ?case by simp
next
  case (Cons u us)
  show ?case
  proof (cases "source_feed L u")
    case (Inl e)
    then show ?thesis
      by (auto simp: rmap_Cons source_feed_def rbind_def feed_response_acc [of L _ "feed_concat fs"]
               split: sum.splits)
  next
    case (Inr g)
    then have "rbind (fetch_text L u) (\<lambda>response. feed_response L response (feed_concat fs)) =
               Inr (feed_concat (fs @ [g]))"
      by (auto simp: source_feed_def rbind_def feed_response_acc [of L _ "feed_concat fs"]
               feed_concat_snoc split: sum.splits)
    with Cons.IH [of "fs @ [g]"] Inr show ?thesis
      by (simp add: rmap_Cons rbind_assoc)
  qed
qed

text \<open>C15: get_proxies is the concatenation, in the order of the URLs, of the feeds of the
  subscriptions read one by one; an exception in any subscription is the result.\<close>

theorem get_proxies_refines:
  "get_proxies L urls = get_proxies_spec L urls"
  using get_proxies_loop [of L "py_split (py '';'') urls" "[]"]
  by (simp add: get_proxies_def get_proxies_spec_def feed_concat_def feed_empty_def)

subsection \<open>decode_v2ray_node and the Clash fix-up\<close>

text \<open>C17: decode_v2ray_node decodes without restoring the padding: the vmess link of
  any JSON text whose UTF-8 length is not a multiple of three, written in standard base64
  without its \<open>=\<close> padding, raises binascii.Error, while safe_decode, the
  padding-tolerant decoder the specification prescribes, decodes the same payload.\<close>

theorem v2ray_unpadded_fails:
  assumes "list_all is_scalar json" "length (utf8_encode json) mod 3 \<noteq> 0"
  shows "v2ray_decode_one L (py ''vmess://'' @ filter (\<lambda>c. c \<noteq> 61) (b64_enc (utf8_encode json))) =
           Inl Base64Error \<and>
         safe_decode (filter (\<lambda>c. c \<noteq> 61) (b64_enc (utf8_encode json))) = Inr (utf8_encode json)"
proof -
  let ?bs = "utf8_encode json"
  let ?p = "filter (\<lambda>c. c \<noteq> 61) (b64_enc ?bs)"
  have ok: "bytes_ok ?bs" using assms(1) by (rule utf8_encode_bytes_ok)
  have chars: "c \<in> set ?p \<Longrightarrow> c < 128 \<and> \<not> is_space c" for c using b64_enc_not_space by auto
  have ascii: "list_all (\<lambda>c. c < 128) (py ''vmess://'' @ ?p)" using chars by (auto simp: list_all_iff)
  have ne: "?p \<noteq> []"
  proof
    assume "?p = []"
    then have "length ?p mod 4 = 0" by simp
    with b64_enc_nopad_length [of ?bs] assms(2) show False by simp
  qed
  have sp: "\<not> py_isspace ?p"
  proof -
    from ne obtain c cs where "?p = c # cs" by (cases ?p) auto
    moreover from this chars [of c] have "\<not> is_space c" by simp
    ultimately show ?thesis by (simp add: py_isspace_def)
  qed
  have "b64decode ?p = Inl Base64Error"
    using chars a2b_base64_nopad [OF ok assms(2)] by (auto simp: b64decode_def list_all_iff)
  then show ?thesis
    using decode_utf8_ascii [OF ascii] ne sp safe_decode_std_nopad [OF ok]
    by (simp add: v2ray_decode_one_def)
qed

theorem v2ray_unpadded_fails_witness:
  "v2ray_decode_one failing_libs (py ''vmess://e30'') = Inl Base64Error \<and> safe_decode (py ''e30'') = Inr (py ''{}'')"
proof -
  have "list_all is_scalar (py ''{}'')" "length (utf8_encode (py ''{}'')) mod 3 \<noteq> 0"
    by (simp_all add: is_scalar_def utf8_encode_def utf8_encode_char_def)
  from v2ray_unpadded_fails [OF this, of failing_libs] show ?thesis
    by (simp add: utf8_encode_def utf8_encode_char_def b64_chr_def)
qed

text \<open>C18: the fix-up of a Clash entry moves a truthy \<open>protocolparam\<close> to
  \<open>protocol-param\<close>, leaves no \<open>protocolparam\<close> key, and sets \<open>udp\<close> to True.\<close>

theorem clash_fix_protocolparam:
  assumes "clash_fix (PDict d) = Inr r" "truthy (dget d (py ''protocolparam''))"
  shows "\<exists>d'. r = PDict d' \<and> dget d' (py ''protocol-param'') = dget d (py ''protocolparam'') \<and>
              map_of d' (py ''protocolparam'') = None \<and> dget d' (py ''udp'') = PBool True"
  using assms
  by (auto simp: clash_fix_def rbind_eq_Inr_iff Let_def split: if_splits)

theorem clash_fix_protocolparam_witness:
  "clash_fix (PDict [(py ''protocolparam'', PStr (py ''x''))]) =
     Inr (PDict [(py ''name'', PNone), (py ''protocol-param'', PStr (py ''x'')), (py ''udp'', PBool True)]) \<and>
   dget [(py ''name'', PNone), (py ''protocol-param'', PStr (py ''x'')), (py ''udp'', PBool True)]
        (py ''protocol-param'') = PStr (py ''x'')"
proof -
  have h: "clash_fix (PDict [(py ''protocolparam'', PStr (py ''x''))]) =
     Inr (PDict [(py ''name'', PNone), (py ''protocol-param'', PStr (py ''x'')), (py ''udp'', PBool True)])"
    by (simp add: clash_fix_def strip_name_def dget_def dict_del_def)
  have "truthy (dget [(py ''protocolparam'', PStr (py ''x''))] (py ''protocolparam''))"
    by (simp add: dget_def)
  with clash_fix_protocolparam [OF h] h show ?thesis by (auto simp: dget_def)
qed

subsection \<open>The feed only grows\<close>

lemma rfold_line_reach_from:
  "line_reach L s0 s \<Longrightarrow> rfold (line_step L) ls s = Inr t \<Longrightarrow> line_reach L s0 t"
proof (induction ls arbitrary: s)
  case Nil
  then show ?case by simp
next
  case (Cons l ls)
  then obtain s' where "line_step L l s = Inr s'" "rfold (line_step L) ls s' = Inr t"
    by (auto simp: rbind_eq_Inr_iff)
  with Cons show ?case by (blast intro: line_reach.reach_step)
qed

lemma rfold_line_reach: "rfold (line_step L) ls s = Inr t \<Longrightarrow> line_reach L s t"
  by (rule rfold_line_reach_from [OF line_reach.reach_refl])

lemma line_step_grows:
  "line_step L node t = Inr u \<Longrightarrow>
   prefix (proxy_list (fst t)) (proxy_list (fst u)) \<and> prefix (proxy_names (fst t)) (proxy_names (fst u)) \<and>
   snd u \<noteq> None"
  by (auto simp: line_step_def rbind_eq_Inr_iff feed_extend_def split: option.splits)

lemma line_reach_grows:
  "line_reach L s t \<Longrightarrow>
   prefix (proxy_list (fst s)) (proxy_list (fst t)) \<and> prefix (proxy_names (fst s)) (proxy_names (fst t)) \<and>
   (snd s \<noteq> None \<longrightarrow> snd t \<noteq> None)"
proof (induction rule: line_reach.induct)
  case (reach_refl s)
  then show ?case by simp
next
  case (reach_step s t node u)
  with line_step_grows [OF reach_step.hyps(2)] show ?case by (meson prefix_order.trans)
qed

text \<open>C28: the base64 branch of get_proxies only appends: the records and names of the
  feed it starts from are a prefix of those it returns.\<close>

theorem b64_feed_grows:
  assumes "b64_feed L raw acc = Inr f"
  shows "prefix (proxy_list acc) (proxy_list f) \<and> prefix (proxy_names acc) (proxy_names f)"
proof -
  from assms obtain st where "rfold (line_step L) (splitlines raw) (acc, None) = Inr st" "f = fst st"
    by (auto simp: b64_feed_def rbind_eq_Inr_iff)
  with line_reach_grows [OF rfold_line_reach] show ?thesis by fastforce
qed

theorem b64_feed_grows_witness:
  "b64_feed failing_libs [] feed_empty = Inr feed_empty \<and>
   prefix (proxy_list feed_empty) (proxy_list feed_empty) \<and> prefix (proxy_names feed_empty) (proxy_names feed_empty)"
proof -
  have h: "b64_feed failing_libs [] feed_empty = Inr feed_empty"
    by (simp add: b64_feed_def splitlines.simps)
  show ?thesis using b64_feed_grows [OF h] h by simp
qed

end
