(* ===== verification/Merge.thy ===== *)
theory Merge
  imports Feed
begin

text \<open>
  The config merger, \<open>add_proxies_to_model\<close> (src/freefq.py lines 367--383), the
  template loading, \<open>load_local_config\<close> and \<open>get_default_config\<close> (lines 333--364),
  and the flow of the program's entry point (lines 400--418).  The document is a value:
  the merge writes into a fresh copy.  This is exact for one merge of a feed whose lists
  are new objects into a document none of whose lists is shared between two places (see
  the header for YAML anchors).
\<close>

subsection \<open>add_proxies_to_model\<close>

text \<open>\<open>v.extend(ys)\<close>: only a list has \<open>extend\<close>.\<close>

definition list_extend :: "pyval \<Rightarrow> pyval list \<Rightarrow> pyval res" where
  "list_extend v ys = (case v of PList xs \<Rightarrow> Inr (PList (xs @ ys)) | _ \<Rightarrow> Inl AttributeError)"

text \<open>Lines 374--377 and 379--382: set the key to the new items when it is absent or
  \<open>None\<close>, else extend the list under it.\<close>

definition add_under :: "pyval pydict \<Rightarrow> pystr \<Rightarrow> pyval list \<Rightarrow> pyval pydict res" where
  "add_under d k ys =
     (if dget d k = PNone then Inr (dict_set d k (PList ys))
      else rbind (list_extend (dget d k) ys) (\<lambda>v. Inr (dict_set d k v)))"

definition merge_group :: "feed \<Rightarrow> pyval \<Rightarrow> pyval res" where
  "merge_group data g =
     (case g of
        PDict d \<Rightarrow> rbind (add_under d (py ''proxies'') (proxy_names data)) (\<lambda>d'. Inr (PDict d'))
      | _ \<Rightarrow> Inl AttributeError)"

definition add_proxies_to_model :: "feed \<Rightarrow> pyval \<Rightarrow> pyval res" where
  "add_proxies_to_model data model =
     (case model of
        PDict m \<Rightarrow>
          rbind (add_under m (py ''proxies'') (proxy_list data)) (\<lambda>m1.
            let groups = dget m1 (py ''proxy-groups'') in
            rbind (py_iter groups) (\<lambda>gs. rbind (rmap (merge_group data) gs) (\<lambda>gs'.
              Inr (PDict (case groups of
                            PList _ \<Rightarrow> dict_set m1 (py ''proxy-groups'') (PList gs')
                          | _ \<Rightarrow> m1)))))
      | _ \<Rightarrow> Inl AttributeError)"

subsection \<open>The template\<close>

text \<open>\<open>load_local_config(path)\<close>: the file's text (or \<open>FileNotFoundError\<close>) parsed by
  \<open>yaml.load\<close>; a missing file ends the program (\<open>sys.exit()\<close>), other errors propagate.\<close>

definition load_local_config :: "libs \<Rightarrow> pystr res \<Rightarrow> pyval res" where
  "load_local_config L file =
     (case file of
        Inl FileNotFoundError \<Rightarrow> Inl SystemExit
      | Inl e \<Rightarrow> Inl e
      | Inr text \<Rightarrow> yaml_load L text)"

text \<open>\<open>get_default_config(url, path)\<close>: \<open>content\<close> is the remote document's bytes or the
  exception of \<open>requests.get\<close>.  Only \<open>RequestException\<close> is caught; after the
  \<open>try\<close> statement the local file is loaded in every case (line 362).\<close>

definition get_default_config :: "libs \<Rightarrow> bytes res \<Rightarrow> pystr res \<Rightarrow> pyval res" where
  "get_default_config L content file =
     (let remote = rbind content (\<lambda>raw. rbind (decode_utf8 raw) (yaml_load L)) in
      case remote of
        Inl RequestException \<Rightarrow> rbind (load_local_config L file) (\<lambda>_. load_local_config L file)
      | Inl e \<Rightarrow> Inl e
      | Inr _ \<Rightarrow> load_local_config L file)"

subsection \<open>The entry point\<close>

text \<open>Lines 414--418 up to the document that \<open>save_config\<close> writes.\<close>

definition run :: "libs \<Rightarrow> pystr \<Rightarrow> bytes res \<Rightarrow> pystr res \<Rightarrow> pyval res" where
  "run L sub_url content file =
     (if sub_url = [] then Inl SystemExit
      else rbind (get_proxies L sub_url) (\<lambda>node_list.
             rbind (get_default_config L content file) (\<lambda>default_config.
               add_proxies_to_model node_list default_config)))"

text \<open>\<open>len(x)\<close>: the number of items of a list, string or dict.\<close>

definition py_len :: "pyval \<Rightarrow> int res" where
  "py_len v = (case v of
                 PList xs \<Rightarrow> Inr (int (length xs))
               | PStr t \<Rightarrow> Inr (int (length t))
               | PDict d \<Rightarrow> Inr (int (length d))
               | _ \<Rightarrow> Inl TypeError)"

text \<open>\<open>save_config(path, data)\<close> (lines 386--397): \<open>dump\<close> stands for \<open>yaml.dump\<close> followed
  by \<open>save_to_file\<close> (lines 23--31), library and file I/O that are not modelled; the result
  is the count of the log line, \<open>len(data['proxies'])\<close>.  Indexing a value that is not a
  dict raises \<open>TypeError\<close>.\<close>

definition save_config :: "(pyval \<Rightarrow> bytes res) \<Rightarrow> pyval \<Rightarrow> int res" where
  "save_config dump data =
     rbind (dump data) (\<lambda>config.
       case data of
         PDict d \<Rightarrow> rbind (dindex d (py ''proxies'')) py_len
       | _ \<Rightarrow> Inl TypeError)"

text \<open>The entry point to the end (lines 414--419): the merged document is saved.\<close>

definition main_prog :: "libs \<Rightarrow> pystr \<Rightarrow> bytes res \<Rightarrow> pystr res \<Rightarrow> (pyval \<Rightarrow> bytes res) \<Rightarrow> int res" where
  "main_prog L sub_url content file dump = rbind (run L sub_url content file) (save_config dump)"

text \<open>A library instance for the examples: every URL serves the empty text and every
  document parses as a template with one proxy and no groups.\<close>

definition template_libs :: libs where
  "template_libs = \<lparr>json_loads = \<lambda>_. Inl ValueError,
     yaml_load = \<lambda>_. Inr (PDict [(py ''proxies'', PList [PInt 0]), (py ''proxy-groups'', PList [])]),
     fetch_text = \<lambda>_. Inr []\<rparr>"

subsection \<open>Properties of the merge and the template\<close>

text \<open>C6: the template get_default_config returns is always the local file's: the
  remote document is fetched and parsed but its value is discarded.\<close>

theorem get_default_config_local:
  assumes "get_default_config L content file = Inr t"
  shows "load_local_config L file = Inr t"
  using assms
  by (auto simp: get_default_config_def rbind_eq_Inr_iff split: sum.splits py_exc.splits)

theorem get_default_config_local_witness:
  "get_default_config \<lparr>json_loads = \<lambda>_. Inl ValueError, yaml_load = \<lambda>t. Inr (PStr t),
                       fetch_text = \<lambda>_. Inl RequestException\<rparr> (Inr [65]) (Inr [66]) = Inr (PStr [66]) \<and>
   load_local_config \<lparr>json_loads = \<lambda>_. Inl ValueError, yaml_load = \<lambda>t. Inr (PStr t),
                       fetch_text = \<lambda>_. Inl RequestException\<rparr> (Inr [66]) = Inr (PStr [66])"
proof -
  have h: "get_default_config \<lparr>json_loads = \<lambda>_. Inl ValueError, yaml_load = \<lambda>t. Inr (PStr t),
                       fetch_text = \<lambda>_. Inl RequestException\<rparr> (Inr [65]) (Inr [66]) = Inr (PStr [66])"
    by (simp add: get_default_config_def load_local_config_def decode_utf8_def utf8_next_def)
  show ?thesis using get_default_config_local [OF h] h by simp
qed

lemma add_proxies_to_model_proxies:
  assumes "add_proxies_to_model data (PDict m) = Inr r"
    and "dget m (py ''proxies'') = PList ps \<or> (dget m (py ''proxies'') = PNone \<and> ps = [])"
  shows "\<exists>m'. r = PDict m' \<and> dget m' (py ''proxies'') = PList (ps @ proxy_list data)"
proof -
  from assms(1) obtain m1 gs' where m1: "add_under m (py ''proxies'') (proxy_list data) = Inr m1"
    and r: "r = PDict (case dget m1 (py ''proxy-groups'') of
                         PList _ \<Rightarrow> dict_set m1 (py ''proxy-groups'') (PList gs') | _ \<Rightarrow> m1)"
    by (auto simp: add_proxies_to_model_def rbind_eq_Inr_iff Let_def)
  from m1 assms(2) have "dget m1 (py ''proxies'') = PList (ps @ proxy_list data)"
    by (auto simp: add_under_def list_extend_def)
  then show ?thesis by (cases "dget m1 (py ''proxy-groups'')") (simp_all add: r)
qed

text \<open>C19: merging a feed A and then a feed B into a template gives a proxies list that is
  the original list, then A's records, then B's records.\<close>

theorem add_proxies_to_model_twice:
  assumes "add_proxies_to_model A (PDict m) = Inr (PDict m1)"
    and "add_proxies_to_model B (PDict m1) = Inr (PDict m2)"
    and "dget m (py ''proxies'') = PList ps \<or> (dget m (py ''proxies'') = PNone \<and> ps = [])"
  shows "dget m2 (py ''proxies'') = PList (ps @ proxy_list A @ proxy_list B)"
proof -
  from add_proxies_to_model_proxies [OF assms(1) assms(3)]
  have "dget m1 (py ''proxies'') = PList (ps @ proxy_list A)" by simp
  from add_proxies_to_model_proxies [OF assms(2)] this show ?thesis by simp
qed

theorem add_proxies_to_model_twice_witness:
  "add_proxies_to_model \<lparr>proxy_list = [PInt 1], proxy_names = []\<rparr> (PDict [(py ''proxies'', PList [PInt 0]), (py ''proxy-groups'', PList [])]) =
     Inr (PDict [(py ''proxies'', PList [PInt 0, PInt 1]), (py ''proxy-groups'', PList [])]) \<and>
   add_proxies_to_model \<lparr>proxy_list = [PInt 2], proxy_names = []\<rparr> (PDict [(py ''proxies'', PList [PInt 0, PInt 1]), (py ''proxy-groups'', PList [])]) =
     Inr (PDict [(py ''proxies'', PList [PInt 0, PInt 1, PInt 2]), (py ''proxy-groups'', PList [])]) \<and>
   dget [(py ''proxies'', PList [PInt 0, PInt 1, PInt 2]), (py ''proxy-groups'', PList [])] (py ''proxies'') = PList ([PInt 0] @ [PInt 1] @ [PInt 2])"
proof -
  have h1: "add_proxies_to_model \<lparr>proxy_list = [PInt 1], proxy_names = []\<rparr> (PDict [(py ''proxies'', PList [PInt 0]), (py ''proxy-groups'', PList [])]) =
     Inr (PDict [(py ''proxies'', PList [PInt 0, PInt 1]), (py ''proxy-groups'', PList [])])"
    by (simp add: add_proxies_to_model_def add_under_def list_extend_def dget_def)
  have h2: "add_proxies_to_model \<lparr>proxy_list = [PInt 2], proxy_names = []\<rparr> (PDict [(py ''proxies'', PList [PInt 0, PInt 1]), (py ''proxy-groups'', PList [])]) =
     Inr (PDict [(py ''proxies'', PList [PInt 0, PInt 1, PInt 2]), (py ''proxy-groups'', PList [])])"
    by (simp add: add_proxies_to_model_def add_under_def list_extend_def dget_def)
  have "dget [(py ''proxies'', PList [PInt 0]), (py ''proxy-groups'', PList [])] (py ''proxies'') = PList [PInt 0]" by (simp add: dget_def)
  with add_proxies_to_model_twice [OF h1 h2] h1 h2 show ?thesis by simp
qed

lemma save_config_list:
  "dget d (py ''proxies'') = PList xs \<Longrightarrow>
   save_config dump (PDict d) = rbind (dump (PDict d)) (\<lambda>_. Inr (int (length xs)))"
  by (cases "map_of d (py ''proxies'')") (simp_all add: save_config_def dindex_def dget_def py_len_def)

text \<open>C29: when the feed and the template load and the merge succeeds, the program ends
  by saving the merged document, and the count it logs (\<open>len(data['proxies'])\<close>,
  line 397) is the number of the template's proxies plus the number of records of the
  feed: the lookup of \<open>proxies\<close> in \<open>save_config\<close> never raises \<open>KeyError\<close>.\<close>

theorem main_prog_count:
  assumes "sub_url \<noteq> []" "get_proxies L sub_url = Inr nl"
    and "get_default_config L content file = Inr (PDict m)"
    and "add_proxies_to_model nl (PDict m) = Inr doc"
    and "dget m (py ''proxies'') = PList ps \<or> (dget m (py ''proxies'') = PNone \<and> ps = [])"
  shows "main_prog L sub_url content file dump =
         rbind (dump doc) (\<lambda>_. Inr (int (length ps + length (proxy_list nl))))"
proof -
  from add_proxies_to_model_proxies [OF assms(4,5)]
  obtain m' where "doc = PDict m'" "dget m' (py ''proxies'') = PList (ps @ proxy_list nl)" by blast
  then show ?thesis using assms(1-4) by (simp add: main_prog_def run_def save_config_list)
qed

theorem main_prog_count_witness:
  "main_prog template_libs (py ''u'') (Inl RequestException) (Inr []) (\<lambda>_. Inr []) = Inr 1"
proof -
  have gp: "get_proxies template_libs (py ''u'') = Inr feed_empty"
    by (simp add: get_proxies_def template_libs_def feed_response_def b64decode_def a2b_base64_def
        a2b_init_def py_split_absent b64_feed_def splitlines.simps)
  have dc: "get_default_config template_libs (Inl RequestException) (Inr []) =
            Inr (PDict [(py ''proxies'', PList [PInt 0]), (py ''proxy-groups'', PList [])])"
    by (simp add: get_default_config_def load_local_config_def template_libs_def)
  have am: "add_proxies_to_model feed_empty (PDict [(py ''proxies'', PList [PInt 0]), (py ''proxy-groups'', PList [])]) =
            Inr (PDict [(py ''proxies'', PList [PInt 0]), (py ''proxy-groups'', PList [])])"
    by (simp add: add_proxies_to_model_def add_under_def list_extend_def dget_def feed_empty_def)
  have "dget [(py ''proxies'', PList [PInt 0]), (py ''proxy-groups'', PList [])] (py ''proxies'') = PList [PInt 0]"
    by (simp add: dget_def)
  with main_prog_count [OF _ gp dc am, of "[PInt 0]" "\<lambda>_. Inr []"] show ?thesis
    by (simp add: feed_empty_def)
qed

end
