(* ===== verification/Heap.thy ===== *)
theory Heap
  imports Merge
begin

text \<open>
  \<open>add_proxies_to_model\<close> (src/freefq.py lines 367--383) on Python's object model.  Lists
  and dicts are objects in a heap, addressed by \<open>HRef\<close>; strings, numbers and \<open>None\<close>
  are values.  \<open>model['proxies'] = data.get('proxy_list')\<close> stores a reference, so the
  template and the feed share the list, and every group without a member list receives
  the one list object \<open>data['proxy_names']\<close>; \<open>extend\<close> mutates the list object in
  place, so groups whose member lists are one object (a YAML anchor, or the shared names
  list of an earlier merge) receive every name once per group.  When every list the
  merge touches is an object of its own, the merge appends once per group, as the value
  model of \<open>Merge\<close> does (C27).
\<close>

subsection \<open>Objects and the operations the merge uses\<close>

datatype hval = HNone | HBool bool | HInt int | HStr pystr | HRef nat

datatype hobj = OList "hval list" | ODict "(pystr \<times> hval) list"

type_synonym heap = "hobj list"

definition hobj_at :: "heap \<Rightarrow> hval \<Rightarrow> hobj option" where
  "hobj_at h v = (case v of HRef a \<Rightarrow> if a < length h then Some (h ! a) else None | _ \<Rightarrow> None)"

definition hdget :: "heap \<Rightarrow> hval \<Rightarrow> pystr \<Rightarrow> hval res" where
  "hdget h v k =
     (case hobj_at h v of
        Some (ODict d) \<Rightarrow> Inr (case map_of d k of None \<Rightarrow> HNone | Some x \<Rightarrow> x)
      | _ \<Rightarrow> Inl AttributeError)"

definition hdset :: "heap \<Rightarrow> hval \<Rightarrow> pystr \<Rightarrow> hval \<Rightarrow> heap res" where
  "hdset h v k x =
     (case (v, hobj_at h v) of
        (HRef a, Some (ODict d)) \<Rightarrow> Inr (h[a := ODict (dict_set d k x)])
      | _ \<Rightarrow> Inl TypeError)"

definition hiter :: "heap \<Rightarrow> hval \<Rightarrow> hval list res" where
  "hiter h v =
     (case (v, hobj_at h v) of
        (HRef _, Some (OList xs)) \<Rightarrow> Inr xs
      | (HRef _, Some (ODict d)) \<Rightarrow> Inr (map (\<lambda>p. HStr (fst p)) d)
      | (HStr s, _) \<Rightarrow> Inr (map (\<lambda>c. HStr [c]) s)
      | _ \<Rightarrow> Inl TypeError)"

definition hextend :: "heap \<Rightarrow> hval \<Rightarrow> hval \<Rightarrow> heap res" where
  "hextend h v y =
     (case (v, hobj_at h v) of
        (HRef a, Some (OList xs)) \<Rightarrow> rbind (hiter h y) (\<lambda>ys. Inr (h[a := OList (xs @ ys)]))
      | _ \<Rightarrow> Inl AttributeError)"

definition hadd_under :: "heap \<Rightarrow> hval \<Rightarrow> pystr \<Rightarrow> hval \<Rightarrow> heap res" where
  "hadd_under h obj k new =
     rbind (hdget h obj k) (\<lambda>cur.
       if cur = HNone then hdset h obj k new else hextend h cur new)"

definition hmerge_group :: "hval \<Rightarrow> hval \<Rightarrow> heap \<Rightarrow> heap res" where
  "hmerge_group data g h =
     rbind (hdget h data (py ''proxy_names'')) (\<lambda>names. hadd_under h g (py ''proxies'') names)"

definition add_proxies_to_model_h :: "heap \<Rightarrow> hval \<Rightarrow> hval \<Rightarrow> heap res" where
  "add_proxies_to_model_h h data model =
     rbind (hdget h data (py ''proxy_list'')) (\<lambda>pl.
     rbind (hadd_under h model (py ''proxies'') pl) (\<lambda>h1.
     rbind (hdget h1 model (py ''proxy-groups'')) (\<lambda>groups.
     rbind (hiter h1 groups) (\<lambda>gs.
     rfold (hmerge_group data) gs h1))))"

text \<open>A template whose two groups share one member list (a YAML anchor).\<close>

definition anchored_heap :: heap where
  "anchored_heap =
     [ODict [(py ''proxy_list'', HRef 1), (py ''proxy_names'', HRef 2)],
      OList [HRef 3],
      OList [HStr (py ''n'')],
      ODict [(py ''name'', HStr (py ''n''))],
      ODict [(py ''proxies'', HRef 5), (py ''proxy-groups'', HRef 6)],
      OList [],
      OList [HRef 7, HRef 8],
      ODict [(py ''name'', HStr (py ''A'')), (py ''proxies'', HRef 9)],
      ODict [(py ''name'', HStr (py ''B'')), (py ''proxies'', HRef 9)],
      OList [HStr (py ''DIRECT'')]]"

text \<open>A template whose two groups have no member list, and a second feed.\<close>

definition bare_heap :: heap where
  "bare_heap =
     [ODict [(py ''proxy_list'', HRef 1), (py ''proxy_names'', HRef 2)],
      OList [HRef 3],
      OList [HStr (py ''n1'')],
      ODict [(py ''name'', HStr (py ''n1''))],
      ODict [(py ''proxies'', HRef 5), (py ''proxy-groups'', HRef 6)],
      OList [],
      OList [HRef 7, HRef 8],
      ODict [(py ''name'', HStr (py ''A''))],
      ODict [(py ''name'', HStr (py ''B''))],
      ODict [(py ''proxy_list'', HRef 10), (py ''proxy_names'', HRef 11)],
      OList [HRef 12],
      OList [HStr (py ''n2'')],
      ODict [(py ''name'', HStr (py ''n2''))]]"

text \<open>A template whose two groups have member lists of their own.\<close>

definition own_heap :: heap where
  "own_heap =
     [ODict [(py ''proxy_list'', HRef 1), (py ''proxy_names'', HRef 2)],
      OList [HRef 3],
      OList [HStr (py ''n'')],
      ODict [(py ''name'', HStr (py ''n''))],
      ODict [(py ''proxies'', HRef 5), (py ''proxy-groups'', HRef 6)],
      OList [],
      OList [HRef 7, HRef 8],
      ODict [(py ''name'', HStr (py ''A'')), (py ''proxies'', HRef 9)],
      ODict [(py ''name'', HStr (py ''B'')), (py ''proxies'', HRef 10)],
      OList [HStr (py ''DIRECT'')],
      OList [HStr (py ''DIRECT'')]]"

definition members :: "heap \<Rightarrow> nat \<Rightarrow> hval list" where
  "members h a = (case h ! a of OList xs \<Rightarrow> xs | _ \<Rightarrow> [])"

definition field :: "heap \<Rightarrow> hval \<Rightarrow> pystr \<Rightarrow> hval option" where
  "field h v k = (case hobj_at h v of Some (ODict d) \<Rightarrow> map_of d k | _ \<Rightarrow> None)"

definition is_dict :: "heap \<Rightarrow> hval \<Rightarrow> bool" where
  "is_dict h v = (case hobj_at h v of Some (ODict _) \<Rightarrow> True | _ \<Rightarrow> False)"

subsection \<open>How the operations change the heap\<close>

lemma hobj_at_update:
  "hobj_at (h[a := ob]) v = (if v = HRef a \<and> a < length h then Some ob else hobj_at h v)"
  by (auto simp: hobj_at_def split: hval.splits)

lemma hdset_Inr:
  "hdset h v k x = Inr h' \<Longrightarrow>
   \<exists>a d. v = HRef a \<and> a < length h \<and> h ! a = ODict d \<and> h' = h[a := ODict (dict_set d k x)]"
  by (auto simp: hdset_def hobj_at_def split: hval.splits hobj.splits option.splits if_splits)

lemma hdset_field:
  assumes "hdset h v k x = Inr h'"
  shows "field h' w k' = (if w = v \<and> k' = k then Some x else field h w k')"
proof -
  from hdset_Inr [OF assms] obtain a d where "v = HRef a" "a < length h" "h ! a = ODict d"
    and h': "h' = h[a := ODict (dict_set d k x)]" by blast
  then show ?thesis
    by (cases w) (auto simp: field_def hobj_at_def h' nth_list_update)
qed


lemma hdget_eq:
  "hdget h v k = (if is_dict h v then Inr (case field h v k of None \<Rightarrow> HNone | Some y \<Rightarrow> y)
                  else Inl AttributeError)"
  by (simp add: hdget_def is_dict_def field_def split: option.splits hobj.splits)

lemma hdset_is_dict: "hdset h v k x = Inr h' \<Longrightarrow> is_dict h' w = is_dict h w"
  by (drule hdset_Inr) (auto simp: is_dict_def hobj_at_def nth_list_update split: hval.splits if_splits hobj.splits)

lemma hextend_Inr:
  "hextend h v y = Inr h' \<Longrightarrow> \<exists>a xs ys. v = HRef a \<and> a < length h \<and> h ! a = OList xs \<and> h' = h[a := OList (xs @ ys)]"
  by (auto simp: hextend_def hobj_at_def rbind_eq_Inr_iff split: hval.splits hobj.splits option.splits if_splits)

lemma hextend_keeps:
  assumes "hextend h v y = Inr h'"
  shows "is_dict h' w = is_dict h w" "field h' w k = field h w k"
proof -
  from hextend_Inr [OF assms] obtain a xs ys where "v = HRef a" "a < length h" "h ! a = OList xs"
    and h': "h' = h[a := OList (xs @ ys)]" by blast
  then show "is_dict h' w = is_dict h w" "field h' w k = field h w k"
    by (cases w; auto simp: is_dict_def field_def hobj_at_def h' nth_list_update)+
qed

lemma hadd_under_cases:
  assumes "hadd_under h obj k new = Inr h'"
  shows "(field h obj k = None \<or> field h obj k = Some HNone) \<and> hdset h obj k new = Inr h' \<or>
         (\<exists>cur. field h obj k = Some cur \<and> cur \<noteq> HNone \<and> hextend h cur new = Inr h')"
  using assms
  by (auto simp: hadd_under_def hdget_eq rbind_eq_Inr_iff split: if_splits option.splits)

lemma hadd_under_keeps:
  assumes "hadd_under h obj k new = Inr h'"
  shows "is_dict h' w = is_dict h w"
    and "field h' w k' = (if w = obj \<and> k' = k \<and> (field h obj k = None \<or> field h obj k = Some HNone)
                          then Some new else field h w k')"
  using hadd_under_cases [OF assms] hdset_is_dict hdset_field hextend_keeps by auto

lemma hmerge_group_keeps:
  assumes "hmerge_group data x h = Inr h'" "hdget h data (py ''proxy_names'') = Inr n"
  shows "is_dict h' w = is_dict h w"
    and "field h' w k = (if w = x \<and> k = py ''proxies'' \<and>
                            (field h x k = None \<or> field h x k = Some HNone) then Some n else field h w k)"
  using assms hadd_under_keeps [of h x "py ''proxies''" n h'] by (auto simp: hmerge_group_def)


lemma hdget_names_step:
  assumes "hmerge_group data x h = Inr h'" "hdget h data (py ''proxy_names'') = Inr n"
  shows "hdget h' data (py ''proxy_names'') = Inr n"
  using assms hmerge_group_keeps [OF assms] by (simp add: hdget_eq split: if_splits)

lemma hmerge_groups_set:
  assumes "rfold (hmerge_group data) gs h = Inr h'" "hdget h data (py ''proxy_names'') = Inr n"
  shows "hdget h' data (py ''proxy_names'') = Inr n \<and>
         (\<forall>w. field h w (py ''proxies'') = Some n \<longrightarrow> field h' w (py ''proxies'') = Some n) \<and>
         (\<forall>g \<in> set gs. field h g (py ''proxies'') = None \<or> field h g (py ''proxies'') = Some HNone \<longrightarrow>
                        field h' g (py ''proxies'') = Some n)"
  using assms
proof (induction gs arbitrary: h)
  case Nil
  then show ?case by simp
next
  case (Cons x gs)
  then obtain h1 where s: "hmerge_group data x h = Inr h1" and r: "rfold (hmerge_group data) gs h1 = Inr h'"
    by (auto simp: rbind_eq_Inr_iff)
  have n1: "hdget h1 data (py ''proxy_names'') = Inr n" by (rule hdget_names_step [OF s Cons.prems(2)])
  have f: "field h1 w (py ''proxies'') =
           (if w = x \<and> (field h x (py ''proxies'') = None \<or> field h x (py ''proxies'') = Some HNone)
            then Some n else field h w (py ''proxies''))" for w
    using hmerge_group_keeps(2) [OF s Cons.prems(2), of w "py ''proxies''"] by simp
  note IH = Cons.IH [OF r n1]
  have keep: "field h1 w (py ''proxies'') = Some n" if "field h w (py ''proxies'') = Some n" for w
    using that f [of w] by (auto split: if_splits)
  show ?case
  proof (intro conjI ballI allI impI)
    show "hdget h' data (py ''proxy_names'') = Inr n" using IH by blast
  next
    fix w assume "field h w (py ''proxies'') = Some n"
    with keep IH show "field h' w (py ''proxies'') = Some n" by blast
  next
    fix g assume g: "g \<in> set (x # gs)"
      and none: "field h g (py ''proxies'') = None \<or> field h g (py ''proxies'') = Some HNone"
    show "field h' g (py ''proxies'') = Some n"
    proof (cases "g = x")
      case True
      with none f [of g] have "field h1 g (py ''proxies'') = Some n" by simp
      with IH show ?thesis by blast
    next
      case False
      with g have "g \<in> set gs" by simp
      moreover from False f [of g] none
      have "field h1 g (py ''proxies'') = None \<or> field h1 g (py ''proxies'') = Some HNone" by simp
      ultimately show ?thesis using IH by blast
    qed
  qed
qed

lemma hadd_under_other_list:
  assumes "hadd_under h obj k new = Inr h1" "field h obj k \<noteq> Some (HRef ga)"
    and "ga < length h" "h ! ga = OList xs"
  shows "ga < length h1 \<and> h1 ! ga = OList xs"
  using hadd_under_cases [OF assms(1)]
proof
  assume "(field h obj k = None \<or> field h obj k = Some HNone) \<and> hdset h obj k new = Inr h1"
  then obtain a d where "obj = HRef a" "h ! a = ODict d" "h1 = h[a := ODict (dict_set d k new)]"
    using hdset_Inr by blast
  with assms(3,4) show ?thesis by (cases "a = ga") auto
next
  assume "\<exists>cur. field h obj k = Some cur \<and> cur \<noteq> HNone \<and> hextend h cur new = Inr h1"
  then obtain cur where "field h obj k = Some cur" "hextend h cur new = Inr h1" by blast
  moreover from this hextend_Inr obtain a ys zs where "cur = HRef a" "h1 = h[a := OList (ys @ zs)]"
    by blast
  ultimately show ?thesis using assms(2-4) by auto
qed

subsection \<open>The merge on lists of their own\<close>

lemma hextend_list:
  assumes "a < length h" "h ! a = OList xs" "b < length h" "h ! b = OList ys"
  shows "hextend h (HRef a) (HRef b) = Inr (h[a := OList (xs @ ys)])"
  using assms by (simp add: hextend_def hiter_def hobj_at_def)

lemma hmerge_group_list:
  assumes "hdget h data (py ''proxy_names'') = Inr (HRef na)" "na < length h" "h ! na = OList ns"
    and "field h (HRef g) (py ''proxies'') = Some (HRef gp)" "gp < length h" "h ! gp = OList m"
  shows "hmerge_group data (HRef g) h = Inr (h[gp := OList (m @ ns)])"
proof -
  from assms(4) have "is_dict h (HRef g)"
    by (auto simp: field_def is_dict_def split: option.splits hobj.splits)
  with assms show ?thesis
    by (simp add: hmerge_group_def hadd_under_def hdget_eq hextend_list)
qed

lemma hmerge_groups_lists:
  assumes "length gas = length gps" "distinct gps"
    and "hdget h data (py ''proxy_names'') = Inr (HRef na)" "na < length h" "h ! na = OList ns"
    and "na \<notin> set gps"
    and "\<forall>i < length gas. field h (HRef (gas ! i)) (py ''proxies'') = Some (HRef (gps ! i)) \<and>
                          gps ! i < length h \<and> (\<exists>m. h ! (gps ! i) = OList m)"
  shows "\<exists>h'. rfold (hmerge_group data) (map HRef gas) h = Inr h' \<and> length h' = length h \<and>
              (\<forall>a. a \<notin> set gps \<longrightarrow> h' ! a = h ! a) \<and>
              (\<forall>i < length gps. h' ! (gps ! i) = OList (members h (gps ! i) @ ns))"
  using assms
proof (induction gas gps arbitrary: h rule: list_induct2)
  case Nil
  then show ?case by simp
next
  case (Cons g gas gp gps)
  from Cons.prems(6) [rule_format, of 0] obtain m where
    fg: "field h (HRef g) (py ''proxies'') = Some (HRef gp)" and gpl: "gp < length h" and
    gm: "h ! gp = OList m" by auto
  let ?h1 = "h[gp := OList (m @ ns)]"
  have step: "hmerge_group data (HRef g) h = Inr ?h1"
    using hmerge_group_list [OF Cons.prems(2-4) fg gpl gm] .
  have fld: "field ?h1 w k = field h w k" and isd: "is_dict ?h1 w = is_dict h w" for w k
    using hmerge_group_keeps(1) [OF step Cons.prems(2), of w]
          hmerge_group_keeps(2) [OF step Cons.prems(2), of w k] fg by auto
  have n1: "hdget ?h1 data (py ''proxy_names'') = Inr (HRef na)"
    using Cons.prems(2) by (simp add: hdget_eq fld isd split: if_splits)
  have na1: "?h1 ! na = OList ns" using Cons.prems(4,5) by simp
  have rest: "\<forall>i < length gas. field ?h1 (HRef (gas ! i)) (py ''proxies'') = Some (HRef (gps ! i)) \<and>
                          gps ! i < length ?h1 \<and> (\<exists>m. ?h1 ! (gps ! i) = OList m)"
  proof (intro allI impI)
    fix i assume i: "i < length gas"
    with Cons.prems(6) [rule_format, of "Suc i"] have
      "field h (HRef (gas ! i)) (py ''proxies'') = Some (HRef (gps ! i)) \<and>
       gps ! i < length h \<and> (\<exists>m. h ! (gps ! i) = OList m)" by simp
    moreover from i Cons.hyps Cons.prems(1) have "gps ! i \<noteq> gp" by (auto simp: in_set_conv_nth)
    ultimately show "field ?h1 (HRef (gas ! i)) (py ''proxies'') = Some (HRef (gps ! i)) \<and>
                          gps ! i < length ?h1 \<and> (\<exists>m. ?h1 ! (gps ! i) = OList m)"
      by (simp add: fld)
  qed
  from Cons.IH [of ?h1] Cons.prems(1) n1 Cons.prems(3) na1 Cons.prems(5) rest
  obtain h' where r: "rfold (hmerge_group data) (map HRef gas) ?h1 = Inr h'" and l: "length h' = length ?h1"
    and o: "\<forall>a. a \<notin> set gps \<longrightarrow> h' ! a = ?h1 ! a"
    and u: "\<forall>i < length gps. h' ! (gps ! i) = OList (members ?h1 (gps ! i) @ ns)"
    by auto
  have gpn: "gp \<notin> set gps" using Cons.prems(1) by simp
  show ?case
  proof (intro exI conjI allI impI)
    show "rfold (hmerge_group data) (map HRef (g # gas)) h = Inr h'" using step r by simp
    show "length h' = length h" using l by simp
  next
    fix a assume "a \<notin> set (gp # gps)"
    then show "h' ! a = h ! a" using o by simp
  next
    fix i assume i: "i < length (gp # gps)"
    show "h' ! ((gp # gps) ! i) = OList (members h ((gp # gps) ! i) @ ns)"
    proof (cases i)
      case 0
      with o gpn gm gpl show ?thesis by (simp add: members_def)
    next
      case (Suc j)
      with i have j: "j < length gps" by simp
      then have "gps ! j \<noteq> gp" using gpn by (auto simp: in_set_conv_nth)
      with u j Suc show ?thesis by (simp add: members_def)
    qed
  qed
qed

subsection \<open>Groups that share one member list\<close>

lemma list_update_list_keeps:
  assumes "h ! a = OList xs"
  shows "field (h[a := OList ys]) w k = field h w k" "is_dict (h[a := OList ys]) w = is_dict h w"
  using assms
  by (cases "w = HRef a \<and> a < length h"; simp add: field_def is_dict_def hobj_at_update;
      simp add: hobj_at_def)+

lemma hdget_list_update:
  "h ! a = OList xs \<Longrightarrow> hdget (h[a := OList ys]) v k = hdget h v k"
  by (simp add: hdget_eq list_update_list_keeps)

text \<open>The loop over groups that all hold one member list \<open>m\<close>: the list is extended
  with the names once per group.\<close>

lemma hmerge_groups_shared:
  assumes "hdget h data (py ''proxy_names'') = Inr (HRef na)" "na < length h" "h ! na = OList ns"
    and "m < length h" "h ! m = OList ms" "m \<noteq> na"
    and "list_all (\<lambda>g. field h (HRef g) (py ''proxies'') = Some (HRef m)) gas"
  shows "\<exists>h'. rfold (hmerge_group data) (map HRef gas) h = Inr h' \<and>
              h' ! m = OList (ms @ concat (replicate (length gas) ns))"
  using assms
proof (induction gas arbitrary: h ms)
  case Nil
  then show ?case by simp
next
  case (Cons g gas)
  let ?h1 = "h[m := OList (ms @ ns)]"
  have step: "hmerge_group data (HRef g) h = Inr ?h1"
    using Cons.prems by (intro hmerge_group_list) simp_all
  have "hdget ?h1 data (py ''proxy_names'') = Inr (HRef na)"
    using Cons.prems(1,5) by (simp add: hdget_list_update)
  moreover have "list_all (\<lambda>g. field ?h1 (HRef g) (py ''proxies'') = Some (HRef m)) gas"
    using Cons.prems(5,7) by (simp add: list_update_list_keeps)
  ultimately obtain h' where "rfold (hmerge_group data) (map HRef gas) ?h1 = Inr h'"
    "h' ! m = OList ((ms @ ns) @ concat (replicate (length gas) ns))"
    using Cons.IH [of ?h1 "ms @ ns"] Cons.prems(2-4,6) by auto
  with step show ?case by simp
qed

lemma add_proxies_to_model_h_groups:
  assumes mp: "field h model (py ''proxies'') = Some (HRef pa)" "pa < length h" "h ! pa = OList ps"
    and mg: "field h model (py ''proxy-groups'') = Some (HRef ga)" "ga < length h" "h ! ga = OList gs"
    and dl: "hdget h data (py ''proxy_list'') = Inr (HRef la)" "la < length h" "h ! la = OList ls"
    and "pa \<noteq> ga"
  shows "add_proxies_to_model_h h data model = rfold (hmerge_group data) gs (h[pa := OList (ps @ ls)])"
proof -
  let ?h1 = "h[pa := OList (ps @ ls)]"
  have isd: "is_dict h model" using mp(1) by (auto simp: field_def is_dict_def split: option.splits hobj.splits)
  have h1: "hadd_under h model (py ''proxies'') (HRef la) = Inr ?h1"
    using isd mp dl(2,3) by (simp add: hadd_under_def hdget_eq hextend_list)
  have gr: "hdget ?h1 model (py ''proxy-groups'') = Inr (HRef ga)"
    using isd mg(1) mp(3) by (simp add: hdget_eq list_update_list_keeps)
  have it: "hiter ?h1 (HRef ga) = Inr gs"
    using mg(2,3) assms(10) by (simp add: hiter_def hobj_at_def)
  show ?thesis using dl(1) h1 gr it by (simp add: add_proxies_to_model_h_def)
qed

subsection \<open>Aliasing introduced by the merge\<close>

text \<open>C22: after the merge, every group that had no member list holds the feed's
  \<open>proxy_names\<close> object itself, so all such groups share one list.\<close>

theorem add_proxies_to_model_h_shares:
  assumes run: "add_proxies_to_model_h h data model = Inr h'"
    and n: "hdget h data (py ''proxy_names'') = Inr n"
    and grp: "field h model (py ''proxy-groups'') = Some (HRef ga)" "ga < length h" "h ! ga = OList gs"
    and sep: "field h model (py ''proxies'') \<noteq> Some (HRef ga)"
    and g: "g \<in> set gs" "g \<noteq> model"
           "field h g (py ''proxies'') = None \<or> field h g (py ''proxies'') = Some HNone"
  shows "field h' g (py ''proxies'') = Some n"
proof -
  from run obtain pl h1 groups gs1 where
    h1: "hadd_under h model (py ''proxies'') pl = Inr h1" and
    gr: "hdget h1 model (py ''proxy-groups'') = Inr groups" and
    it: "hiter h1 groups = Inr gs1" and
    lp: "rfold (hmerge_group data) gs1 h1 = Inr h'"
    by (auto simp: add_proxies_to_model_h_def rbind_eq_Inr_iff)
  note k = hadd_under_keeps [OF h1]
  from gr k grp(1) have "groups = HRef ga" by (simp add: hdget_eq split: if_splits)
  moreover from hadd_under_other_list [OF h1 sep grp(2,3)] have "ga < length h1" "h1 ! ga = OList gs"
    by simp_all
  ultimately have "gs1 = gs" using it by (simp add: hiter_def hobj_at_def)
  moreover from n k have "hdget h1 data (py ''proxy_names'') = Inr n"
    by (simp add: hdget_eq split: if_splits)
  moreover from k(2) g(2,3) have "field h1 g (py ''proxies'') = None \<or> field h1 g (py ''proxies'') = Some HNone"
    by simp
  ultimately show ?thesis using hmerge_groups_set lp g(1) by blast
qed

theorem add_proxies_to_model_h_shares_witness:
  "add_proxies_to_model_h bare_heap (HRef 0) (HRef 4) =
     Inr (bare_heap[5 := OList [HRef 3], 7 := ODict [(py ''name'', HStr (py ''A'')), (py ''proxies'', HRef 2)],
                    8 := ODict [(py ''name'', HStr (py ''B'')), (py ''proxies'', HRef 2)]]) \<and>
   field (bare_heap[5 := OList [HRef 3], 7 := ODict [(py ''name'', HStr (py ''A'')), (py ''proxies'', HRef 2)],
                    8 := ODict [(py ''name'', HStr (py ''B'')), (py ''proxies'', HRef 2)]]) (HRef 8) (py ''proxies'') =
     Some (HRef 2)"
proof -
  have h: "add_proxies_to_model_h bare_heap (HRef 0) (HRef 4) =
     Inr (bare_heap[5 := OList [HRef 3], 7 := ODict [(py ''name'', HStr (py ''A'')), (py ''proxies'', HRef 2)],
                    8 := ODict [(py ''name'', HStr (py ''B'')), (py ''proxies'', HRef 2)]])"
    by (simp add: add_proxies_to_model_h_def bare_heap_def hdget_def hobj_at_def hadd_under_def
        hextend_def hiter_def hmerge_group_def hdset_def)
  have pre: "hdget bare_heap (HRef 0) (py ''proxy_names'') = Inr (HRef 2)"
    "field bare_heap (HRef 4) (py ''proxy-groups'') = Some (HRef 6)" "6 < length bare_heap"
    "bare_heap ! 6 = OList [HRef 7, HRef 8]" "field bare_heap (HRef 4) (py ''proxies'') \<noteq> Some (HRef 6)"
    "HRef 8 \<in> set [HRef 7, HRef 8]" "HRef 8 \<noteq> HRef 4"
    "field bare_heap (HRef 8) (py ''proxies'') = None \<or> field bare_heap (HRef 8) (py ''proxies'') = Some HNone"
    by (simp_all add: bare_heap_def hdget_def hobj_at_def field_def)
  show ?thesis using add_proxies_to_model_h_shares [OF h pre] h by simp
qed

text \<open>C23: when the groups of a template share one member list object (a YAML anchor,
  or the names list an earlier merge handed to every group without members), the merge
  extends that list with the feed's names once per sharing group: with \<open>k\<close> groups,
  every new name appears \<open>k\<close> times, while the value semantics the specification
  describes appends it once to each group.\<close>

theorem shared_members_once_per_group:
  assumes mp: "field h model (py ''proxies'') = Some (HRef pa)" "pa < length h" "h ! pa = OList ps"
    and mg: "field h model (py ''proxy-groups'') = Some (HRef ga)" "ga < length h" "h ! ga = OList (map HRef gas)"
    and dl: "hdget h data (py ''proxy_list'') = Inr (HRef la)" "la < length h" "h ! la = OList ls"
    and dn: "hdget h data (py ''proxy_names'') = Inr (HRef na)" "na < length h" "h ! na = OList ns"
    and sh: "m < length h" "h ! m = OList ms"
      "list_all (\<lambda>g. field h (HRef g) (py ''proxies'') = Some (HRef m)) gas"
    and dist: "distinct [pa, ga, na, m]"
  shows "\<exists>h'. add_proxies_to_model_h h data model = Inr h' \<and>
              h' ! m = OList (ms @ concat (replicate (length gas) ns))"
proof -
  let ?h1 = "h[pa := OList (ps @ ls)]"
  have run: "add_proxies_to_model_h h data model = rfold (hmerge_group data) (map HRef gas) ?h1"
    using dist by (intro add_proxies_to_model_h_groups [OF mp mg dl]) simp
  have "hdget ?h1 data (py ''proxy_names'') = Inr (HRef na)"
    using dn(1) mp(3) by (simp add: hdget_list_update)
  moreover have "list_all (\<lambda>g. field ?h1 (HRef g) (py ''proxies'') = Some (HRef m)) gas"
    using sh(3) mp(3) by (simp add: list_update_list_keeps)
  ultimately show ?thesis
    using hmerge_groups_shared [of ?h1 data na ns m ms gas] run dn(2,3) sh(1,2) dist by auto
qed

theorem shared_members_once_per_group_witness:
  "\<exists>h'. add_proxies_to_model_h anchored_heap (HRef 0) (HRef 4) = Inr h' \<and>
        h' ! 9 = OList [HStr (py ''DIRECT''), HStr (py ''n''), HStr (py ''n'')]"
proof -
  have "\<exists>h'. add_proxies_to_model_h anchored_heap (HRef 0) (HRef 4) = Inr h' \<and>
          h' ! 9 = OList ([HStr (py ''DIRECT'')] @ concat (replicate (length [7, 8::nat]) [HStr (py ''n'')]))"
    by (rule shared_members_once_per_group [where pa = 5 and la = 1 and na = 2 and ga = 6 and m = 9
          and gas = "[7, 8]" and ps = "[]" and ls = "[HRef 3]" and ns = "[HStr (py ''n'')]"])
       (simp_all add: anchored_heap_def field_def hobj_at_def hdget_def)
  then show ?thesis by (simp add: numeral_2_eq_2)
qed

text \<open>C27: on a template where the proxies list, the groups list, the feed's two lists and
  every group's member list are distinct objects, the merge appends the feed's records
  once to proxies and its names once to every group's list and changes no other object:
  the behaviour of the value model, which C23 shows fails when member lists are shared.\<close>

theorem add_proxies_to_model_h_unshared:
  assumes mp: "field h model (py ''proxies'') = Some (HRef pa)" "pa < length h" "h ! pa = OList ps"
    and mg: "field h model (py ''proxy-groups'') = Some (HRef ga)" "ga < length h" "h ! ga = OList (map HRef gas)"
    and dl: "hdget h data (py ''proxy_list'') = Inr (HRef la)" "la < length h" "h ! la = OList ls"
    and dn: "hdget h data (py ''proxy_names'') = Inr (HRef na)" "na < length h" "h ! na = OList ns"
    and gl: "length gas = length gps"
      "\<forall>i < length gas. field h (HRef (gas ! i)) (py ''proxies'') = Some (HRef (gps ! i)) \<and>
                        gps ! i < length h \<and> (\<exists>m. h ! (gps ! i) = OList m)"
    and dist: "distinct (pa # ga # la # na # gps)"
  shows "\<exists>h'. add_proxies_to_model_h h data model = Inr h' \<and> h' ! pa = OList (ps @ ls) \<and>
              (\<forall>i < length gps. h' ! (gps ! i) = OList (members h (gps ! i) @ ns)) \<and>
              (\<forall>a. a \<notin> set (pa # gps) \<longrightarrow> h' ! a = h ! a)"
proof -
  let ?h1 = "h[pa := OList (ps @ ls)]"
  have isd: "is_dict h model" using mp(1) by (auto simp: field_def is_dict_def split: option.splits hobj.splits)
  have h1: "hadd_under h model (py ''proxies'') (HRef la) = Inr ?h1"
    using isd mp dl(2,3) by (simp add: hadd_under_def hdget_eq hextend_list)
  note k = hadd_under_keeps [OF h1]
  have fld: "field ?h1 w k' = field h w k'" and isd1: "is_dict ?h1 w = is_dict h w" for w k'
    using k(1) [of w] k(2) [of w k'] mp(1) by auto
  have gr: "hdget ?h1 model (py ''proxy-groups'') = Inr (HRef ga)"
    using isd mg(1) by (simp add: hdget_eq fld isd1)
  have it: "hiter ?h1 (HRef ga) = Inr (map HRef gas)"
    using mg(2,3) dist by (simp add: hiter_def hobj_at_def)
  have n1: "hdget ?h1 data (py ''proxy_names'') = Inr (HRef na)"
    using dn(1) by (simp add: hdget_eq fld isd1 split: if_splits)
  have rest: "\<forall>i < length gas. field ?h1 (HRef (gas ! i)) (py ''proxies'') = Some (HRef (gps ! i)) \<and>
                        gps ! i < length ?h1 \<and> (\<exists>m. ?h1 ! (gps ! i) = OList m)"
  proof (intro allI impI)
    fix i assume i: "i < length gas"
    with gl dist have "gps ! i \<noteq> pa" by (auto simp: in_set_conv_nth)
    with gl(2) i show "field ?h1 (HRef (gas ! i)) (py ''proxies'') = Some (HRef (gps ! i)) \<and>
                        gps ! i < length ?h1 \<and> (\<exists>m. ?h1 ! (gps ! i) = OList m)"
      by (simp add: fld)
  qed
  have "\<exists>h'. rfold (hmerge_group data) (map HRef gas) ?h1 = Inr h' \<and> length h' = length ?h1 \<and>
              (\<forall>a. a \<notin> set gps \<longrightarrow> h' ! a = ?h1 ! a) \<and>
              (\<forall>i < length gps. h' ! (gps ! i) = OList (members ?h1 (gps ! i) @ ns))"
    using dist dn(2,3) gl(1) n1 rest by (intro hmerge_groups_lists) auto
  then obtain h' where r: "rfold (hmerge_group data) (map HRef gas) ?h1 = Inr h'"
    and o: "\<forall>a. a \<notin> set gps \<longrightarrow> h' ! a = ?h1 ! a"
    and u: "\<forall>i < length gps. h' ! (gps ! i) = OList (members ?h1 (gps ! i) @ ns)" by blast
  have run: "add_proxies_to_model_h h data model = Inr h'"
    using dl(1) h1 gr it r by (simp add: add_proxies_to_model_h_def)
  show ?thesis
  proof (intro exI conjI allI impI)
    show "add_proxies_to_model_h h data model = Inr h'" by (rule run)
    show "h' ! pa = OList (ps @ ls)" using o dist mp(2) by simp
  next
    fix i assume i: "i < length gps"
    with dist have "gps ! i \<noteq> pa" by (auto simp: in_set_conv_nth)
    with u i show "h' ! (gps ! i) = OList (members h (gps ! i) @ ns)" by (simp add: members_def)
  next
    fix a assume "a \<notin> set (pa # gps)"
    with o show "h' ! a = h ! a" by simp
  qed
qed

theorem add_proxies_to_model_h_unshared_witness:
  "\<exists>h'. add_proxies_to_model_h own_heap (HRef 0) (HRef 4) = Inr h' \<and> h' ! 5 = OList [HRef 3] \<and>
        h' ! 9 = OList [HStr (py ''DIRECT''), HStr (py ''n'')] \<and>
        h' ! 10 = OList [HStr (py ''DIRECT''), HStr (py ''n'')]"
proof -
  have "\<exists>h'. add_proxies_to_model_h own_heap (HRef 0) (HRef 4) = Inr h' \<and> h' ! 5 = OList ([] @ [HRef 3]) \<and>
              (\<forall>i < length [9, 10::nat]. h' ! ([9, 10] ! i) = OList (members own_heap ([9, 10] ! i) @ [HStr (py ''n'')])) \<and>
              (\<forall>a. a \<notin> set [5, 9, 10::nat] \<longrightarrow> h' ! a = own_heap ! a)"
  proof (rule add_proxies_to_model_h_unshared [where gas = "[7, 8]" and ga = 6 and la = 1 and na = 2])
    show "\<forall>i < length [7, 8::nat]. field own_heap (HRef ([7, 8] ! i)) (py ''proxies'') = Some (HRef ([9, 10] ! i)) \<and>
            [9, 10] ! i < length own_heap \<and> (\<exists>m. own_heap ! ([9, 10] ! i) = OList m)"
    proof (intro allI impI)
      fix i :: nat assume "i < length [7, 8::nat]"
      then have "i = 0 \<or> i = 1" by auto
      then show "field own_heap (HRef ([7, 8] ! i)) (py ''proxies'') = Some (HRef ([9, 10] ! i)) \<and>
            [9, 10] ! i < length own_heap \<and> (\<exists>m. own_heap ! ([9, 10] ! i) = OList m)"
        by (auto simp: own_heap_def field_def hobj_at_def)
    qed
  qed (simp_all add: own_heap_def hdget_def hobj_at_def field_def)
  then obtain h' where "add_proxies_to_model_h own_heap (HRef 0) (HRef 4) = Inr h'" "h' ! 5 = OList [HRef 3]"
    "\<forall>i < 2. h' ! ([9, 10] ! i) = OList (members own_heap ([9, 10] ! i) @ [HStr (py ''n'')])" by auto
  moreover from this(3) have "h' ! 9 = OList [HStr (py ''DIRECT''), HStr (py ''n'')]"
    "h' ! 10 = OList [HStr (py ''DIRECT''), HStr (py ''n'')]"
    by (simp_all add: less_2_cases_iff members_def own_heap_def)
  ultimately show ?thesis by blast
qed

end
