(* ===== verification/Iterate.thy ===== *)
theory Iterate
  imports Heap
begin

text \<open>
  The loop \<open>for group in model.get('proxy-groups')\<close> of \<open>add_proxies_to_model\<close>
  (src/freefq.py lines 378--382) as Python runs it over a list: the iterator reads the
  item at its index from the list object as it is at that moment and stops when the
  index reaches the current length, so a list that the body extends is iterated over its
  new items too.  The loop is a \<open>partial_function (option)\<close>, \<open>None\<close> being a run that
  does not end.  It ends for every feed whose names are not objects, and it equals the
  loop over a snapshot of the groups (\<open>add_proxies_to_model_h\<close>) when no group's member
  list is the groups list itself.
\<close>

definition is_ref :: "hval \<Rightarrow> bool" where
  "is_ref v = (case v of HRef _ \<Rightarrow> True | _ \<Rightarrow> False)"

partial_function (option) hgroups_loop :: "hval \<Rightarrow> nat \<Rightarrow> nat \<Rightarrow> heap \<Rightarrow> heap res option" where
  "hgroups_loop data ga i h =
     (case h ! ga of
        OList xs \<Rightarrow>
          if i < length xs then
            (case hmerge_group data (xs ! i) h of
               Inl e \<Rightarrow> Some (Inl e)
             | Inr h' \<Rightarrow> hgroups_loop data ga (Suc i) h')
          else Some (Inr h)
      | ODict _ \<Rightarrow> Some (Inr h))"

definition add_proxies_to_model_live :: "heap \<Rightarrow> hval \<Rightarrow> hval \<Rightarrow> heap res option" where
  "add_proxies_to_model_live h data model =
     (case rbind (hdget h data (py ''proxy_list'')) (\<lambda>pl.
           rbind (hadd_under h model (py ''proxies'') pl) (\<lambda>h1.
           rbind (hdget h1 model (py ''proxy-groups'')) (\<lambda>groups. Inr (h1, groups)))) of
        Inl e \<Rightarrow> Some (Inl e)
      | Inr (h1, groups) \<Rightarrow>
          (case (groups, hobj_at h1 groups) of
             (HRef ga, Some (OList _)) \<Rightarrow> hgroups_loop data ga 0 h1
           | _ \<Rightarrow> Some (rbind (hiter h1 groups) (\<lambda>gs. rfold (hmerge_group data) gs h1))))"

text \<open>A template whose one group has as member list the groups list itself (as the recursive YAML alias
  \<open>proxy-groups: &g [{name: A, proxies: *g}]\<close>).\<close>

definition self_heap :: heap where
  "self_heap =
     [ODict [(py ''proxy_list'', HRef 1), (py ''proxy_names'', HRef 2)],
      OList [HRef 3],
      OList [HStr (py ''n'')],
      ODict [(py ''name'', HStr (py ''n''))],
      ODict [(py ''proxies'', HRef 5), (py ''proxy-groups'', HRef 6)],
      OList [],
      OList [HRef 7],
      ODict [(py ''name'', HStr (py ''A'')), (py ''proxies'', HRef 6)]]"

subsection \<open>One step of the loop\<close>

lemma is_ref_simps [simp]:
  "is_ref (HRef a)" "\<not> is_ref HNone" "\<not> is_ref (HBool b)" "\<not> is_ref (HInt i)" "\<not> is_ref (HStr s)"
  by (simp_all add: is_ref_def)

lemma hmerge_group_ref: "hmerge_group data x h = Inr h' \<Longrightarrow> is_ref x"
  by (auto simp: hmerge_group_def hadd_under_def hdget_def hobj_at_def is_ref_def rbind_eq_Inr_iff
      split: hval.splits)

lemma hextend_names:
  assumes "hextend h cur (HRef na) = Inr h'" "na < length h" "h ! na = OList ns"
  shows "\<exists>b ys. b < length h \<and> h ! b = OList ys \<and> h' = h[b := OList (ys @ ns)]"
  using assms
  by (cases cur) (auto simp: hextend_def hiter_def hobj_at_def rbind_eq_Inr_iff split: if_splits hobj.splits)

text \<open>A step changes no object but the group's dict and the one list it extends with the
  feed's names.\<close>

lemma hmerge_group_lists:
  assumes "hmerge_group data x h = Inr h'"
    and "hdget h data (py ''proxy_names'') = Inr (HRef na)" "na < length h" "h ! na = OList ns"
    and "a < length h" "h ! a = OList xs"
  shows "length h' = length h \<and> (h' ! a = OList xs \<or> h' ! a = OList (xs @ ns))"
proof -
  from assms(1,2) have hu: "hadd_under h x (py ''proxies'') (HRef na) = Inr h'"
    by (simp add: hmerge_group_def)
  from hadd_under_cases [OF hu] show ?thesis
  proof
    assume "(field h x (py ''proxies'') = None \<or> field h x (py ''proxies'') = Some HNone) \<and>
            hdset h x (py ''proxies'') (HRef na) = Inr h'"
    then obtain b d where "b < length h" "h ! b = ODict d" "h' = h[b := ODict (dict_set d (py ''proxies'') (HRef na))]"
      using hdset_Inr by blast
    with assms(6) show ?thesis by (cases "a = b") auto
  next
    assume "\<exists>cur. field h x (py ''proxies'') = Some cur \<and> cur \<noteq> HNone \<and> hextend h cur (HRef na) = Inr h'"
    then obtain b ys where "b < length h" "h ! b = OList ys" "h' = h[b := OList (ys @ ns)]"
      using hextend_names assms(3,4) by blast
    with assms(6) show ?thesis by (cases "a = b") auto
  qed
qed


lemma filter_ref_drop_step:
  assumes "i < length xs" "is_ref (xs ! i)" "\<not> list_ex is_ref ns"
    and "xs' = xs \<or> xs' = xs @ ns"
  shows "length (filter is_ref (drop (Suc i) xs')) < length (filter is_ref (drop i xs))"
proof -
  have "drop i xs = xs ! i # drop (Suc i) xs" using assms(1) by (simp add: Cons_nth_drop_Suc)
  moreover have "filter is_ref (drop (Suc i) xs') = filter is_ref (drop (Suc i) xs)"
    using assms(1,3,4) by (auto simp: list_ex_iff filter_empty_conv)
  ultimately show ?thesis using assms(2) by simp
qed

subsection \<open>The loop ends\<close>

text \<open>C32: the live loop over the groups list ends (with the merged heap or an exception)
  whenever the feed's names list holds no object references, as \<open>proxy_names\<close> (strings
  and \<open>None\<close>) always does, even when the body extends the groups list it iterates:
  each step visits one more item, the items it appends are names, and a name is not a
  dict, so the step after reaching one raises.\<close>

theorem hgroups_loop_terminates:
  assumes "hdget h data (py ''proxy_names'') = Inr (HRef na)" "na < length h" "h ! na = OList ns"
    and "\<not> list_ex is_ref ns" "ga < length h" "h ! ga = OList xs"
  shows "\<exists>r. hgroups_loop data ga i h = Some r"
  using assms
proof (induction "length (filter is_ref (drop i (members h ga)))" arbitrary: h i ns xs rule: less_induct)
  case less
  show ?case
  proof (cases "i < length xs")
    case False
    then show ?thesis using less.prems(6) by (simp add: hgroups_loop.simps)
  next
    case i: True
    show ?thesis
    proof (cases "hmerge_group data (xs ! i) h")
      case (Inl e)
      then show ?thesis using i less.prems(6) by (simp add: hgroups_loop.simps)
    next
      case (Inr h')
      from hmerge_group_lists [OF Inr less.prems(1-3) less.prems(5,6)]
      obtain xs' where l: "length h' = length h" and g: "h' ! ga = OList xs'" and xs': "xs' = xs \<or> xs' = xs @ ns"
        by blast
      from hmerge_group_lists [OF Inr less.prems(1-3) less.prems(2,3)]
      obtain ns' where n: "h' ! na = OList ns'" and ns': "ns' = ns \<or> ns' = ns @ ns" by blast
      have nr: "\<not> list_ex is_ref ns'" using ns' less.prems(4) by auto
      have names: "hdget h' data (py ''proxy_names'') = Inr (HRef na)"
        using hdget_names_step [OF Inr less.prems(1)] .
      have "length (filter is_ref (drop (Suc i) (members h' ga))) <
            length (filter is_ref (drop i (members h ga)))"
        using filter_ref_drop_step [OF i hmerge_group_ref [OF Inr] less.prems(4) xs'] g less.prems(6)
        by (simp add: members_def)
      from less.hyps [OF this names _ n nr _ g] less.prems(2,5) l
      obtain r where "hgroups_loop data ga (Suc i) h' = Some r" by auto
      then show ?thesis using i Inr less.prems(6) by (simp add: hgroups_loop.simps)
    qed
  qed
qed


subsection \<open>The loop over a list the body does not extend\<close>

lemma hgroups_loop_drop:
  assumes "hdget h data (py ''proxy_names'') = Inr n" "n \<noteq> HRef ga" "ga < length h" "h ! ga = OList xs"
    and "list_all (\<lambda>g. field h g (py ''proxies'') \<noteq> Some (HRef ga)) xs"
  shows "hgroups_loop data ga i h = Some (rfold (hmerge_group data) (drop i xs) h)"
  using assms
proof (induction "length xs - i" arbitrary: h i)
  case 0
  then show ?case by (simp add: hgroups_loop.simps)
next
  case (Suc k)
  then have i: "i < length xs" by simp
  have d: "drop i xs = xs ! i # drop (Suc i) xs" using i by (simp add: Cons_nth_drop_Suc)
  show ?case
  proof (cases "hmerge_group data (xs ! i) h")
    case (Inl e)
    then show ?thesis using i d Suc.prems(4) by (simp add: hgroups_loop.simps)
  next
    case (Inr h')
    have hu: "hadd_under h (xs ! i) (py ''proxies'') n = Inr h'"
      using Inr Suc.prems(1) by (simp add: hmerge_group_def)
    have "field h (xs ! i) (py ''proxies'') \<noteq> Some (HRef ga)"
      using Suc.prems(5) i by (simp add: list_all_length)
    from hadd_under_other_list [OF hu this Suc.prems(3,4)]
    have g: "ga < length h'" "h' ! ga = OList xs" by auto
    have f: "list_all (\<lambda>g. field h' g (py ''proxies'') \<noteq> Some (HRef ga)) xs"
      using Suc.prems(2,5) hmerge_group_keeps(2) [OF Inr Suc.prems(1)] by (auto simp: list_all_iff)
    have "hgroups_loop data ga (Suc i) h' = Some (rfold (hmerge_group data) (drop (Suc i) xs) h')"
      using Suc.hyps(1) [of "Suc i" h'] Suc.hyps(2) hdget_names_step [OF Inr Suc.prems(1)] Suc.prems(2) g f
      by simp
    then show ?thesis using i d Inr Suc.prems(4) by (simp add: hgroups_loop.simps)
  qed
qed

text \<open>C33: when neither the feed's names nor any group's member list is the groups list
  itself, the live loop ends and computes what the loop over a snapshot of the groups
  computes, so the snapshot model \<open>add_proxies_to_model_h\<close> of the \<open>Heap\<close> theory is
  exact for such templates.\<close>

theorem hgroups_loop_snapshot:
  assumes "hdget h data (py ''proxy_names'') = Inr n" "n \<noteq> HRef ga" "ga < length h" "h ! ga = OList xs"
    and "list_all (\<lambda>g. field h g (py ''proxies'') \<noteq> Some (HRef ga)) xs"
  shows "hgroups_loop data ga 0 h = Some (rfold (hmerge_group data) xs h)"
  using hgroups_loop_drop [OF assms, of 0] by simp


theorem hgroups_loop_snapshot_witness:
  "hgroups_loop (HRef 0) 6 0 own_heap = Some (rfold (hmerge_group (HRef 0)) [HRef 7, HRef 8] own_heap)"
proof (rule hgroups_loop_snapshot)
  show "hdget own_heap (HRef 0) (py ''proxy_names'') = Inr (HRef 2)"
    by (simp add: own_heap_def hdget_def hobj_at_def)
qed (simp_all add: own_heap_def field_def hobj_at_def)

theorem hgroups_loop_terminates_witness:
  "\<exists>r. hgroups_loop (HRef 0) 6 0 self_heap = Some r"
proof (rule hgroups_loop_terminates)
  show "hdget self_heap (HRef 0) (py ''proxy_names'') = Inr (HRef 2)"
    by (simp add: self_heap_def hdget_def hobj_at_def)
  show "self_heap ! 2 = OList [HStr (py ''n'')]" by (simp add: self_heap_def)
  show "\<not> list_ex is_ref [HStr (py ''n'')]" by simp
qed (simp_all add: self_heap_def)

subsection \<open>A group whose member list is the groups list\<close>

lemma hmerge_group_error:
  assumes "hmerge_group data x h = Inl e"
    and "hdget h data (py ''proxy_names'') = Inr (HRef na)" "na < length h" "h ! na = OList ns"
  shows "e = AttributeError"
  using assms
  by (auto simp: hmerge_group_def hadd_under_def hdget_def hdset_def hextend_def hiter_def hobj_at_def
      rbind_eq_Inl_iff split: hval.splits option.splits hobj.splits if_splits)

lemma hgroups_loop_self:
  assumes "hdget h data (py ''proxy_names'') = Inr (HRef na)" "na < length h" "h ! na = OList ns"
    and "ns \<noteq> []" "\<not> list_ex is_ref ns" "ga < length h" "h ! ga = OList xs"
    and "i \<le> j" "j < length xs"
    and "\<not> is_ref (xs ! j) \<or> field h (xs ! j) (py ''proxies'') = Some (HRef ga)"
  shows "hgroups_loop data ga i h = Some (Inl AttributeError)"
  using assms
proof (induction "length (filter is_ref (drop i (members h ga)))" arbitrary: h i ns xs j rule: less_induct)
  case less
  have i: "i < length xs" using less.prems(8,9) by simp
  show ?case
  proof (cases "hmerge_group data (xs ! i) h")
    case (Inl e)
    then show ?thesis
      using hmerge_group_error [OF Inl less.prems(1-3)] i less.prems(7) by (simp add: hgroups_loop.simps)
  next
    case (Inr h')
    have ref: "is_ref (xs ! i)" by (rule hmerge_group_ref [OF Inr])
    from hmerge_group_lists [OF Inr less.prems(1-3) less.prems(6,7)]
    obtain xs' where l: "length h' = length h" and g: "h' ! ga = OList xs'" and xs': "xs' = xs \<or> xs' = xs @ ns"
      by blast
    from hmerge_group_lists [OF Inr less.prems(1-3) less.prems(2,3)]
    obtain ns' where n: "h' ! na = OList ns'" and ns': "ns' = ns \<or> ns' = ns @ ns" by blast
    have nr: "\<not> list_ex is_ref ns'" "ns' \<noteq> []" using ns' less.prems(4,5) by auto
    have names: "hdget h' data (py ''proxy_names'') = Inr (HRef na)"
      using hdget_names_step [OF Inr less.prems(1)] .
    have dec: "length (filter is_ref (drop (Suc i) (members h' ga))) <
               length (filter is_ref (drop i (members h ga)))"
      using filter_ref_drop_step [OF i ref less.prems(5) xs'] g less.prems(7)
      by (simp add: members_def)
    obtain j' where j': "Suc i \<le> j'" "j' < length xs'"
      "\<not> is_ref (xs' ! j') \<or> field h' (xs' ! j') (py ''proxies'') = Some (HRef ga)"
    proof (cases "j = i")
      case True
      with less.prems(10) ref have f: "field h (xs ! i) (py ''proxies'') = Some (HRef ga)" by simp
      from ref obtain a where a: "xs ! i = HRef a" by (cases "xs ! i") (simp_all add: is_ref_def)
      have "h' = h[ga := OList (xs @ ns)]"
        using hmerge_group_list [OF less.prems(1-3) f [unfolded a] less.prems(6,7)] Inr a by simp
      then have "xs' = xs @ ns" using g less.prems(6) by simp
      moreover have "\<not> is_ref (ns ! 0)" using less.prems(4,5) by (cases ns) simp_all
      ultimately show ?thesis using that [of "length xs"] i less.prems(4) by (simp add: nth_append)
    next
      case False
      with less.prems(8) have ij: "Suc i \<le> j" by simp
      have same: "xs' ! j = xs ! j" using xs' less.prems(9) by (auto simp: nth_append)
      have "field h' (xs ! j) (py ''proxies'') = field h (xs ! j) (py ''proxies'')"
        if "field h (xs ! j) (py ''proxies'') = Some (HRef ga)"
        using hmerge_group_keeps(2) [OF Inr less.prems(1), of "xs ! j" "py ''proxies''"] that
        by (auto split: if_splits)
      then show ?thesis
        using that [of j] ij less.prems(9,10) same xs' by auto
    qed
    from less.hyps [OF dec names _ n nr(2,1) _ g j'] less.prems(2,6) l
    have "hgroups_loop data ga (Suc i) h' = Some (Inl AttributeError)" by simp
    then show ?thesis using i Inr less.prems(7) by (simp add: hgroups_loop.simps)
  qed
qed

text \<open>C34: when some group of the groups list has the groups list itself as its member
  list, the loop extends the list it iterates with the feed's names, reaches a name and
  raises AttributeError (a string has no \<open>get\<close>), for any such template and any
  non-empty feed whose names are not objects; a loop over a snapshot of the groups (the
  example below) ends normally instead.\<close>

theorem self_member_list_error:
  assumes "hdget h data (py ''proxy_names'') = Inr (HRef na)" "na < length h" "h ! na = OList ns"
    and "ns \<noteq> []" "\<not> list_ex is_ref ns" "ga < length h" "h ! ga = OList xs"
    and "j < length xs" "field h (xs ! j) (py ''proxies'') = Some (HRef ga)"
  shows "hgroups_loop data ga 0 h = Some (Inl AttributeError)"
  using hgroups_loop_self [OF assms(1-7) _ assms(8)] assms(9) by simp

theorem self_member_list_error_witness:
  "hgroups_loop (HRef 0) 6 0 self_heap = Some (Inl AttributeError) \<and>
   rfold (hmerge_group (HRef 0)) [HRef 7] self_heap =
     Inr (self_heap[6 := OList [HRef 7, HStr (py ''n'')]])"
proof -
  have "hgroups_loop (HRef 0) 6 0 self_heap = Some (Inl AttributeError)"
  proof (rule self_member_list_error [where na = 2 and ns = "[HStr (py ''n'')]" and xs = "[HRef 7]" and j = 0])
    show "hdget self_heap (HRef 0) (py ''proxy_names'') = Inr (HRef 2)"
      by (simp add: self_heap_def hdget_def hobj_at_def)
    show "\<not> list_ex is_ref [HStr (py ''n'')]" by simp
  qed (simp_all add: self_heap_def field_def hobj_at_def)
  moreover have "rfold (hmerge_group (HRef 0)) [HRef 7] self_heap =
     Inr (self_heap[6 := OList [HRef 7, HStr (py ''n'')]])"
    by (simp add: self_heap_def hmerge_group_def hadd_under_def hdget_def hextend_def hiter_def hobj_at_def)
  ultimately show ?thesis by blast
qed

end
