(* ===== verification/Links.thy ===== *)
theory Links
  imports Decode
begin

text \<open>
  Subscription links as a provider writes them, the inverse of the decoders of
  \<open>Decode\<close>, and the round trips: decoding the link of a node gives back its fields.
  The encoders are specifications, not code of the program: an \<open>ssr://\<close> link is the
  URL-safe, unpadded base64 of \<open>server:port:protocol:method:obfs:\<close> followed by the
  encoded password, \<open>/?\<close> and \<open>&\<close>-separated \<open>key=value\<close> parameters whose values are
  encoded the same way.
\<close>

subsection \<open>ssr:// links\<close>

text \<open>One parameter \<open>key=base64(value)\<close>.\<close>

definition ssr_param_text :: "pystr \<times> pystr \<Rightarrow> pystr" where
  "ssr_param_text p = fst p @ py ''='' @ b64url_nopad (utf8_encode (snd p))"

definition ssr_body :: "pystr list \<Rightarrow> pystr \<Rightarrow> (pystr \<times> pystr) list \<Rightarrow> pystr" where
  "ssr_body flds password params =
     py_join (py '':'') (flds @ [b64url_nopad (utf8_encode password) @ py ''/?'' @
                                   py_join (py ''&'') (map ssr_param_text params)])"

definition ssr_link :: "pystr list \<Rightarrow> pystr \<Rightarrow> (pystr \<times> pystr) list \<Rightarrow> bytes" where
  "ssr_link flds password params = py ''ssr://'' @ b64url_nopad (utf8_encode (ssr_body flds password params))"

definition ssr_keys :: "pystr list" where
  "ssr_keys = [py ''server'', py ''port'', py ''protocol'', py ''method'', py ''obfs'']"

definition ssr_info :: "pystr list \<Rightarrow> pystr \<Rightarrow> (pystr \<times> pystr) list \<Rightarrow> sdict" where
  "ssr_info flds password params =
     foldl (\<lambda>d p. dict_set d (fst p) (snd p)) (dict_set (zip ssr_keys flds) (py ''password'') password) params"

text \<open>The conditions under which the link is unambiguous: five fields without \<open>:\<close>,
  keys without the separators \<open>: & = /\<close>, at least one parameter (the decoder indexes
  \<open>password_params[1]\<close>) and text of Unicode scalar values.\<close>

definition ssr_link_ok :: "pystr list \<Rightarrow> pystr \<Rightarrow> (pystr \<times> pystr) list \<Rightarrow> bool" where
  "ssr_link_ok flds password params \<longleftrightarrow>
     length flds = 5 \<and> (\<forall>f \<in> set flds. 58 \<notin> set f \<and> list_all is_scalar f) \<and>
     list_all is_scalar password \<and> params \<noteq> [] \<and>
     (\<forall>p \<in> set params. list_all (\<lambda>c. c \<notin> set (py '':&=/'')) (fst p) \<and>
                       list_all is_scalar (fst p) \<and> list_all is_scalar (snd p))"

subsection \<open>ss:// links\<close>

text \<open>The SIP002 form \<open>ss://base64(method:password)@server:port#name\<close>, the user info in
  URL-safe unpadded base64.  The conditions: a method without \<open>:\<close>, server and port
  without \<open>#\<close> and \<open>/\<close>, a port without \<open>:\<close>, no newline where the patterns need none,
  a name without \<open>%\<close> (so that \<open>unquote\<close> leaves it alone) and text of scalar values.
  The server may contain \<open>:\<close> (an IPv6 address): the greedy group ends at the last one.\<close>

definition ss_link :: "pystr \<Rightarrow> pystr \<Rightarrow> pystr \<Rightarrow> pystr \<Rightarrow> pystr \<Rightarrow> bytes" where
  "ss_link method password server port name =
     utf8_encode (py ''ss://'' @ b64url_nopad (utf8_encode (method @ py '':'' @ password)) @
                  py ''@'' @ server @ py '':'' @ port @ py ''#'' @ name)"

definition ss_link_ok :: "pystr \<Rightarrow> pystr \<Rightarrow> pystr \<Rightarrow> pystr \<Rightarrow> pystr \<Rightarrow> bool" where
  "ss_link_ok method password server port name \<longleftrightarrow>
     list_all is_scalar (method @ password @ server @ port @ name) \<and>
     58 \<notin> set method \<and> 10 \<notin> set method \<and> 10 \<notin> set password \<and>
     (\<forall>c \<in> set server. c \<notin> set (py ''#/'') \<and> c \<noteq> 10) \<and>
     (\<forall>c \<in> set port. c \<notin> set (py ''#/:'') \<and> c \<noteq> 10) \<and> 37 \<notin> set name"

subsection \<open>vmess:// links\<close>

text \<open>A vmess link carries its JSON text in standard, padded base64.\<close>

definition vmess_link :: "pystr \<Rightarrow> bytes" where
  "vmess_link json = py ''vmess://'' @ b64_enc (utf8_encode json)"

subsection \<open>Lemmas on the link syntax\<close>

lemma ssr_param_text_step:
  assumes "list_all (\<lambda>c. c \<notin> set (py '':&=/'')) k" "list_all is_scalar v"
  shows "ssr_param (ssr_param_text (k, v)) d = Inr (dict_set d k v)"
proof -
  have k: "61 \<notin> set k" using assms(1) by (auto simp: list_all_iff)
  have b: "61 \<notin> set (b64url_nopad (utf8_encode v))" using b64url_not by fastforce
  have "py_split (py ''='') (ssr_param_text (k, v)) = [k, b64url_nopad (utf8_encode v)]"
    using py_split_at_first [OF k, of "[]" "b64url_nopad (utf8_encode v)"] py_split_absent [OF b, of "[]"]
    by (simp add: ssr_param_text_def)
  then show ?thesis
    using safe_decode_b64url_nopad [OF utf8_encode_bytes_ok [OF assms(2)]] decode_utf8_encode [OF assms(2)]
    by (simp add: ssr_param_def)
qed

lemma ssr_params_loop:
  assumes "\<forall>p \<in> set params. list_all (\<lambda>c. c \<notin> set (py '':&=/'')) (fst p) \<and> list_all is_scalar (snd p)"
  shows "rfold ssr_param (map ssr_param_text params) d =
         Inr (foldl (\<lambda>d p. dict_set d (fst p) (snd p)) d params)"
  using assms
proof (induction params arbitrary: d)
  case Nil
  then show ?case by simp
next
  case (Cons p params)
  obtain k v where p: "p = (k, v)" by fastforce
  with Cons.prems have "ssr_param (ssr_param_text p) d = Inr (dict_set d k v)"
    by (simp add: ssr_param_text_step)
  with Cons p show ?case by simp
qed

lemma ssr_param_text_chars:
  assumes "list_all (\<lambda>c. c \<notin> set (py '':&=/'')) k"
  shows "c \<in> set (ssr_param_text (k, v)) \<Longrightarrow> c \<notin> set (py '':&/'')"
  using assms b64url_not by (fastforce simp: ssr_param_text_def list_all_iff)

subsection \<open>The ssr round trip\<close>

text \<open>The steps of \<open>decode_ssr_node\<close> before the split of the body succeed on the
  link of any non-empty body of scalar values.\<close>

lemma ssr_link_body:
  assumes "list_all is_scalar body" "body \<noteq> []"
  shows "decode_utf8 (py ''ssr://'' @ b64url_nopad (utf8_encode body)) =
           Inr (py ''ssr://'' @ b64url_nopad (utf8_encode body))"
    and "b64url_nopad (utf8_encode body) \<noteq> []" "\<not> py_isspace (b64url_nopad (utf8_encode body))"
    and "safe_decode (b64url_nopad (utf8_encode body)) = Inr (utf8_encode body)"
    and "decode_utf8 (utf8_encode body) = Inr body"
proof -
  let ?dp = "b64url_nopad (utf8_encode body)"
  have "list_all (\<lambda>c. c < 128) (py ''ssr://'' @ ?dp)"
    using b64url_not by (auto simp: list_all_iff)
  then show "decode_utf8 (py ''ssr://'' @ ?dp) = Inr (py ''ssr://'' @ ?dp)" by (rule decode_utf8_ascii)
  show dp_ne: "?dp \<noteq> []"
    using assms(2) by (simp add: b64url_nopad_nonempty utf8_encode_nonempty)
  show "\<not> py_isspace ?dp"
  proof -
    from dp_ne obtain c cs where "?dp = c # cs" by (cases ?dp) auto
    then have "c \<in> set ?dp" by simp
    then have "\<not> is_space c" using b64url_not by blast
    then show ?thesis using \<open>?dp = c # cs\<close> by (simp add: py_isspace_def)
  qed
  show "safe_decode ?dp = Inr (utf8_encode body)" "decode_utf8 (utf8_encode body) = Inr body"
    using assms(1) by (simp_all add: safe_decode_b64url_nopad utf8_encode_bytes_ok decode_utf8_encode)
qed

lemma b64url_nopad_sep:
  "list_all (\<lambda>c. c \<noteq> 58 \<and> c \<noteq> 47 \<and> is_scalar c) (b64url_nopad bs)"
  using b64url_not by (fastforce simp: list_all_iff is_scalar_def)

lemma ssr_fields_body:
  assumes "length flds = 5" "\<forall>f \<in> set flds. 58 \<notin> set f \<and> list_all is_scalar f"
    and "58 \<notin> set t" "list_all is_scalar t"
  shows "list_all is_scalar (py_join (py '':'') (flds @ [t])) \<and> py_join (py '':'') (flds @ [t]) \<noteq> [] \<and>
         py_split (py '':'') (py_join (py '':'') (flds @ [t])) = flds @ [t]"
proof -
  have "list_all is_scalar (py_join (py '':'') (flds @ [t]))"
    using set_py_join [of "py '':''" "flds @ [t]"] assms(2,4)
    by (fastforce simp: list_all_iff is_scalar_def)
  moreover have "py_join (py '':'') (flds @ [t]) \<noteq> []"
    using assms(1) by (cases flds) (simp_all add: py_join_Cons)
  moreover have "py_split (py '':'') (py_join (py '':'') (flds @ [t])) = flds @ [t]"
    using py_split_join_single [of "flds @ [t]" 58] assms(2,3) by simp
  ultimately show ?thesis by blast
qed

lemma ssr_decode_one_link_eq:
  assumes ok: "ssr_link_ok flds password params"
  shows "ssr_decode_one (ssr_link flds password params) = Inr (Some (ssr_info flds password params))"
proof -
  from ok have len: "length flds = 5" and fl: "\<forall>f \<in> set flds. 58 \<notin> set f \<and> list_all is_scalar f"
    and pw: "list_all is_scalar password" and pne: "params \<noteq> []"
    and pa: "\<forall>p \<in> set params. list_all (\<lambda>c. c \<notin> set (py '':&=/'')) (fst p) \<and>
                               list_all is_scalar (fst p) \<and> list_all is_scalar (snd p)"
    by (simp_all add: ssr_link_ok_def)
  from len obtain f0 f1 f2 f3 f4 where f: "flds = [f0, f1, f2, f3, f4]"
    by (auto simp: numeral_eq_Suc length_Suc_conv)
  define pstr where "pstr = py_join (py ''&'') (map ssr_param_text params)"
  define pwb where "pwb = b64url_nopad (utf8_encode password)"
  define tail where "tail = pwb @ py ''/?'' @ pstr"
  define body where "body = py_join (py '':'') (flds @ [tail])"
  have pstr_chars: "c \<in> set pstr \<Longrightarrow> c \<notin> set (py '':/'') \<and> is_scalar c" for c
  proof -
    assume "c \<in> set pstr"
    then have "c = 38 \<or> (\<exists>p \<in> set params. c \<in> set (ssr_param_text p))"
      using set_py_join [of "py ''&''" "map ssr_param_text params"] by (auto simp: pstr_def)
    then show ?thesis
    proof
      assume "\<exists>p \<in> set params. c \<in> set (ssr_param_text p)"
      then obtain k v where kv: "(k, v) \<in> set params" "c \<in> set (ssr_param_text (k, v))" by auto
      from pa kv(1) have k: "list_all (\<lambda>c. c \<notin> set (py '':&=/'')) k" "list_all is_scalar k" by auto
      from k(1) kv(2) have "c \<notin> set (py '':&/'')" by (rule ssr_param_text_chars)
      moreover have "is_scalar c"
      proof -
        have "c \<in> set k \<or> c = 61 \<or> c \<in> set (b64url_nopad (utf8_encode v))"
          using kv(2) by (auto simp: ssr_param_text_def)
        then show ?thesis
        proof (elim disjE)
          assume "c \<in> set (b64url_nopad (utf8_encode v))"
          then have "c < 128" using b64url_not by blast
          then show ?thesis by (simp add: is_scalar_def)
        next
          assume "c \<in> set k"
          then show ?thesis using k(2) by (simp add: list_all_iff)
        next
          assume "c = 61"
          then show ?thesis by (simp add: is_scalar_def)
        qed
      qed
      ultimately show ?thesis by simp
    qed (simp add: is_scalar_def)
  qed
  have pwb_chars: "c \<in> set pwb \<Longrightarrow> c \<notin> set (py '':/'') \<and> is_scalar c" for c
    using b64url_not by (fastforce simp: pwb_def is_scalar_def)
  have tail_chars: "c \<in> set tail \<Longrightarrow> 58 \<noteq> c \<and> is_scalar c" for c
    using pstr_chars pwb_chars by (auto simp: tail_def is_scalar_def)
  have body_scalar: "list_all is_scalar body"
    using set_py_join [of "py '':''" "flds @ [tail]"] fl tail_chars
    by (fastforce simp: body_def list_all_iff is_scalar_def)
  have body_ne: "body \<noteq> []" by (simp add: body_def f)
  note lb = ssr_link_body [OF body_scalar body_ne]
  have link: "ssr_link flds password params = py ''ssr://'' @ b64url_nopad (utf8_encode body)"
    by (simp add: ssr_link_def ssr_body_def body_def tail_def pwb_def pstr_def)
  have "58 \<notin> set tail" using tail_chars by blast
  then have parts: "py_split (py '':'') body = [f0, f1, f2, f3, f4, tail]"
    using py_split_join_single [of "flds @ [tail]" 58] fl by (simp add: body_def f)
  have pp: "py_split (py ''/?'') tail = [pwb, pstr]"
  proof -
    have "47 \<notin> set pwb" "47 \<notin> set pstr" using pwb_chars pstr_chars by auto
    then show ?thesis
      using py_split_at_first [of 47 pwb "[63]" pstr] py_split_absent [of 47 pstr "[63]"]
      by (simp add: tail_def)
  qed
  have dec_pw: "safe_decode pwb = Inr (utf8_encode password)" "decode_utf8 (utf8_encode password) = Inr password"
    using pw by (simp_all add: pwb_def safe_decode_b64url_nopad utf8_encode_bytes_ok decode_utf8_encode)
  have amp: "py_split (py ''&'') pstr = map ssr_param_text params"
  proof -
    have "\<forall>x \<in> set (map ssr_param_text params). 38 \<notin> set x"
    proof
      fix x assume "x \<in> set (map ssr_param_text params)"
      then obtain k v where kv: "(k, v) \<in> set params" "x = ssr_param_text (k, v)" by auto
      from pa kv(1) have "list_all (\<lambda>c. c \<notin> set (py '':&=/'')) k" by auto
      then have "c \<in> set x \<Longrightarrow> c \<notin> set (py '':&/'')" for c
        using ssr_param_text_chars kv(2) by blast
      then show "38 \<notin> set x" by auto
    qed
    then show ?thesis using py_split_join_single [of "map ssr_param_text params" 38] pne
      by (simp add: pstr_def)
  qed
  have loop: "rfold ssr_param (map ssr_param_text params) d =
              Inr (foldl (\<lambda>d p. dict_set d (fst p) (snd p)) d params)" for d
    using pa by (intro ssr_params_loop) auto
  show ?thesis
    unfolding link
    using lb parts pp dec_pw amp loop
    by (simp add: ssr_decode_one_def Let_def ssr_info_def ssr_keys_def f)
qed

text \<open>C1: decoding the ssr:// link of a node gives back the node: its five fields under
  server, port, protocol, method and obfs, its password, and its parameters in order.\<close>

theorem ssr_decode_one_link:
  assumes "ssr_link_ok flds password params"
  shows "ssr_decode_one (ssr_link flds password params) = Inr (Some (ssr_info flds password params))"
  using assms by (rule ssr_decode_one_link_eq)

theorem ssr_decode_one_link_witness:
  "ssr_decode_one (ssr_link [py ''h'', py ''8'', py ''o'', py ''m'', py ''p''] (py ''pw'') [(py ''remarks'', py ''n'')]) =
   Inr (Some (ssr_info [py ''h'', py ''8'', py ''o'', py ''m'', py ''p''] (py ''pw'') [(py ''remarks'', py ''n'')]))"
  by (rule ssr_decode_one_link) (simp add: ssr_link_ok_def is_scalar_def)

subsection \<open>The ss round trip\<close>

lemma ss_link_prefix:
  "ss_link method password server port name = py ''ss://'' @ utf8_encode (b64url_nopad (utf8_encode (method @ py '':'' @ password)) @
                  py ''@'' @ server @ py '':'' @ port @ py ''#'' @ name)"
  by (simp add: ss_link_def utf8_encode_def utf8_encode_char_def)

lemma ss_decode_one_link_eq:
  assumes ok: "ss_link_ok method password server port name"
  shows "ss_decode_one (ss_link method password server port name) =
         Inr (Some [(py ''name'', name), (py ''server'', server), (py ''port'', port),
                    (py ''method'', method), (py ''password'', password)])"
proof -
  from ok have sc: "list_all is_scalar (method @ password @ server @ port @ name)"
    and m: "58 \<notin> set method" "10 \<notin> set method" and pw: "10 \<notin> set password"
    and s: "\<forall>c \<in> set server. c \<notin> set (py ''#/'') \<and> c \<noteq> 10"
    and p: "\<forall>c \<in> set port. c \<notin> set (py ''#/:'') \<and> c \<noteq> 10"
    and n: "37 \<notin> set name"
    by (simp_all add: ss_link_ok_def)
  define mp where "mp = method @ py '':'' @ password"
  define ui where "ui = b64url_nopad (utf8_encode mp)"
  define param where "param = ui @ py ''@'' @ server @ py '':'' @ port"
  define dp where "dp = param @ py ''#'' @ name"
  have mp_sc: "list_all is_scalar mp" using sc by (simp add: mp_def is_scalar_def)
  have ui_ne: "ui \<noteq> []"
    by (simp add: ui_def mp_def b64url_nopad_nonempty utf8_encode_nonempty)
  have ui_chars: "c \<in> set ui \<Longrightarrow> c \<notin> set (py '':&=/?#@'') \<and> c \<noteq> 10 \<and> c < 128 \<and> \<not> is_space c" for c
    unfolding ui_def by (rule b64url_not)
  have ui_ascii: "\<forall>c \<in> set ui. c < 128" using ui_chars by blast
  have link_sc: "list_all is_scalar (py ''ss://'' @ dp)"
    using sc ui_ascii by (auto simp: dp_def param_def list_all_iff is_scalar_def)
  have link: "decode_utf8 (ss_link method password server port name) = Inr (py ''ss://'' @ dp)"
    using decode_utf8_encode [OF link_sc]
    by (simp add: ss_link_def dp_def param_def ui_def mp_def)
  have dp_sp: "dp \<noteq> [] \<and> \<not> py_isspace dp"
  proof -
    from ui_ne obtain c cs where "ui = c # cs" by (cases ui) auto
    moreover from this have "\<not> is_space c" using ui_chars by simp
    ultimately show ?thesis by (simp add: dp_def param_def py_isspace_def)
  qed
  have hash_free: "35 \<notin> set param" using ui_chars s p by (auto simp: param_def)
  have hash: "find_sub (py ''#'') dp = Some (length param)"
    using find_sub_first_hd [OF hash_free, of "[]" name] by (simp add: dp_def)
  have take_dp: "take (length param) dp = param" and drop_dp: "drop (Suc (length param)) dp = name"
    by (simp_all add: dp_def)
  have slash: "find_sub (py ''/?'') param = None"
  proof -
    have "47 \<notin> set param" using ui_chars s p by (auto simp: param_def)
    then show ?thesis by (simp add: find_sub_absent_hd)
  qed
  have at: "find_sub (py ''@'') param \<noteq> None"
  proof -
    have "64 \<notin> set ui" using ui_chars by auto
    then show ?thesis using find_sub_first_hd [of 64 ui "[]" "server @ py '':'' @ port"]
      by (simp add: param_def)
  qed
  have rx1: "rx_match pat_userinfo_at param = Some [ui, server, port]"
  proof -
    have "10 \<notin> set ui" "64 \<notin> set ui" using ui_chars by auto
    moreover have "10 \<notin> set server" using s by auto
    moreover have "10 \<notin> set port" "58 \<notin> set port" using p by auto
    ultimately show ?thesis by (simp add: param_def rx_userinfo_at)
  qed
  have dec: "safe_decode ui = Inr (utf8_encode mp)" "decode_utf8 (utf8_encode mp) = Inr mp"
    using mp_sc by (simp_all add: ui_def safe_decode_b64url_nopad utf8_encode_bytes_ok decode_utf8_encode)
  have rx2: "rx_match pat_method_pw mp = Some [method, password]"
    using m pw by (simp add: mp_def rx_method_pw)
  show ?thesis
    using dp_sp hash slash at rx1 dec rx2
    by (simp add: link ss_decode_one_def ss_credentials_def take_dp drop_dp unquote_plain [OF n])
qed

text \<open>C14: decoding the ss:// link of a node (user info in base64, then server, port and
  name) gives back its name, server, port, method and password, in the order the
  decoder stores them.\<close>

theorem ss_decode_one_link:
  assumes "ss_link_ok method password server port name"
  shows "ss_decode_one (ss_link method password server port name) =
         Inr (Some [(py ''name'', name), (py ''server'', server), (py ''port'', port),
                    (py ''method'', method), (py ''password'', password)])"
  using assms by (rule ss_decode_one_link_eq)

theorem ss_decode_one_link_witness:
  "ss_decode_one (ss_link (py ''aes-256-gcm'') (py ''p:w'') (py ''::1'') (py ''8388'') (py ''n 1'')) =
   Inr (Some [(py ''name'', py ''n 1''), (py ''server'', py ''::1''), (py ''port'', py ''8388''),
              (py ''method'', py ''aes-256-gcm''), (py ''password'', py ''p:w'')])"
  by (rule ss_decode_one_link) (simp add: ss_link_ok_def is_scalar_def)

subsection \<open>Links the decoder rejects\<close>

text \<open>C21: an ssr:// link whose last field is the encoded password with no \<open>/?\<close>
  and parameters after it raises IndexError at \<open>password_params[1]\<close> (line 143),
  for any fields and password, instead of being skipped as a malformed node.\<close>

theorem ssr_without_params_fails:
  assumes "length flds = 5" "\<forall>f \<in> set flds. 58 \<notin> set f \<and> list_all is_scalar f"
    and "list_all is_scalar password"
  shows "ssr_decode_one (py ''ssr://'' @ b64url_nopad (utf8_encode
           (py_join (py '':'') (flds @ [b64url_nopad (utf8_encode password)])))) = Inl IndexError"
proof -
  let ?pwb = "b64url_nopad (utf8_encode password)"
  have t: "58 \<notin> set ?pwb" "list_all is_scalar ?pwb" "47 \<notin> set ?pwb"
    using b64url_nopad_sep [of "utf8_encode password"] by (auto simp: list_all_iff)
  from assms(1) obtain f0 f1 f2 f3 f4 where f: "flds = [f0, f1, f2, f3, f4]"
    by (auto simp: numeral_eq_Suc length_Suc_conv)
  note b = ssr_fields_body [OF assms(1,2) t(1,2)]
  have "py_split (py ''/?'') ?pwb = [?pwb]" using py_split_absent [OF t(3)] by simp
  then show ?thesis
    using ssr_link_body [OF conjunct1 [OF b] conjunct1 [OF conjunct2 [OF b]]] b f assms(3)
    by (simp add: ssr_decode_one_def Let_def safe_decode_b64url_nopad utf8_encode_bytes_ok decode_utf8_encode)
qed

theorem ssr_without_params_fails_witness:
  "ssr_decode_one (py ''ssr://'' @ b64url_nopad (utf8_encode
     (py_join (py '':'') ([py ''h'', py ''1'', py ''o'', py ''m'', py ''p''] @ [b64url_nopad (utf8_encode (py ''pass''))])))) =
   Inl IndexError"
  by (rule ssr_without_params_fails) (simp_all add: is_scalar_def)

text \<open>C16: an ssr:// link with a parameter whose value is not base64 of UTF-8 text, such
  as \<open>obfs-param=abc\<close> of the specification's scenario, raises UnicodeDecodeError at line
  146 for any fields and password: every parameter value is base64-decoded, and the
  exception ends decode_ssr_node.\<close>

theorem ssr_param_not_base64_fails:
  assumes "length flds = 5" "\<forall>f \<in> set flds. 58 \<notin> set f \<and> list_all is_scalar f"
    and "list_all is_scalar password"
    and "list_all (\<lambda>c. c \<notin> set (py '':&=/'') \<and> is_scalar c) k"
    and "list_all (\<lambda>c. c \<notin> set (py '':&=/'') \<and> is_scalar c) v"
    and "safe_decode v = Inr b" "decode_utf8 b = Inl UnicodeDecodeError"
  shows "ssr_decode_one (py ''ssr://'' @ b64url_nopad (utf8_encode
           (py_join (py '':'') (flds @ [b64url_nopad (utf8_encode password) @ py ''/?'' @ k @ py ''='' @ v])))) =
         Inl UnicodeDecodeError"
proof -
  let ?pwb = "b64url_nopad (utf8_encode password)"
  let ?t = "?pwb @ py ''/?'' @ k @ py ''='' @ v"
  have pwb: "58 \<notin> set ?pwb" "47 \<notin> set ?pwb" "list_all is_scalar ?pwb"
    using b64url_nopad_sep [of "utf8_encode password"] by (auto simp: list_all_iff)
  have t: "58 \<notin> set ?t" "list_all is_scalar ?t"
    using pwb assms(4,5) by (auto simp: list_all_iff is_scalar_def)
  from assms(1) obtain f0 f1 f2 f3 f4 where f: "flds = [f0, f1, f2, f3, f4]"
    by (auto simp: numeral_eq_Suc length_Suc_conv)
  note bd = ssr_fields_body [OF assms(1,2) t]
  have kv: "47 \<notin> set (k @ py ''='' @ v)" "38 \<notin> set (k @ py ''='' @ v)" "61 \<notin> set k" "61 \<notin> set v"
    using assms(4,5) by (auto simp: list_all_iff)
  have pp: "py_split (py ''/?'') ?t = [?pwb, k @ py ''='' @ v]"
    using py_split_at_first [of 47 ?pwb "[63]" "k @ py ''='' @ v"] py_split_absent [OF kv(1), of "[63]"] pwb
    by auto
  have amp: "py_split (py ''&'') (k @ py ''='' @ v) = [k @ py ''='' @ v]"
    using py_split_absent [OF kv(2), of "[]"] by simp
  have eq: "py_split (py ''='') (k @ py ''='' @ v) = [k, v]"
    using py_split_at_first [OF kv(3), of "[]" v] py_split_absent [OF kv(4), of "[]"] by simp
  show ?thesis
    using ssr_link_body [OF conjunct1 [OF bd] conjunct1 [OF conjunct2 [OF bd]]] bd f pp amp eq assms(3,6,7)
    by (simp add: ssr_decode_one_def Let_def safe_decode_b64url_nopad utf8_encode_bytes_ok
        decode_utf8_encode ssr_param_def)
qed


theorem ssr_param_not_base64_fails_witness:
  "ssr_decode_one (py ''ssr://'' @ b64url_nopad (utf8_encode
     (py_join (py '':'') ([py ''example.com'', py ''443'', py ''origin'', py ''aes-256-cfb'', py ''plain''] @
        [b64url_nopad (utf8_encode (py ''pass'')) @ py ''/?'' @ py ''obfs-param'' @ py ''='' @ py ''abc''])))) =
   Inl UnicodeDecodeError"
proof (rule ssr_param_not_base64_fails [where b = "[105, 183]"])
  show "safe_decode (py ''abc'') = Inr [105, 183]"
    by (simp add: safe_decode_def urlsafe_b64decode_def a2b_base64_def a2b_init_def b64_val_def
        a2b_data_def urlsafe_tr_def)
  show "decode_utf8 [105, 183] = Inl UnicodeDecodeError"
    by (simp add: decode_utf8_def utf8_next_def is_cont_def)
qed (simp_all add: is_scalar_def)

end
