(* ===== verification/Spec2Isabelle.thy ===== *)
theory Spec2Isabelle
  imports Iterate Links
begin

text \<open>
  \<^bold>\<open>A verification library for src/freefq.py.\<close>

  The program converts free proxy subscriptions into a Clash configuration.
  \<open>get_proxies(urls)\<close> fetches every \<open>;\<close>-separated subscription; a response that
  \<open>base64.b64decode\<close> accepts is a list of links, one per line, each dispatched on its scheme
  to a decoder (\<open>decode_v2ray_node\<close>, \<open>decode_ss_node\<close>, \<open>decode_ssr_node\<close>) and a
  normalizer (\<open>v2ray_to_clash\<close>, \<open>ss_to_clash\<close>, \<open>ssr_to_clash\<close>); a response it rejects is
  read as a Clash YAML document.  The records and their names are collected in a feed
  \<open>{'proxy_list', 'proxy_names'}\<close>.  The entry point loads a template
  (\<open>get_default_config\<close>, \<open>load_local_config\<close>) and merges the feed into it
  (\<open>add_proxies_to_model\<close>).

  \<^bold>\<open>Theories.\<close>
  \<^item> \<open>Prelude\<close>: Python exceptions as the datatype \<open>py_exc\<close> and results as
    \<open>py_exc + 'a\<close> (\<open>rbind\<close> sequences them, \<open>rfold\<close> is a \<open>for\<close> loop that stops at the
    first exception, \<open>rmap\<close> collects); insertion-ordered dicts as association lists
    (\<open>dict_set\<close> replaces in place or appends, \<open>dict_del\<close>); JSON/YAML values as \<open>pyval\<close>
    with Python truthiness; the feed record and its alignment invariant.
  \<^item> \<open>PyStr\<close>: the \<open>str\<close>/\<open>bytes\<close> methods the program calls (\<open>startswith\<close>, \<open>find\<close>,
    \<open>split\<close>, \<open>join\<close>, \<open>strip\<close>, \<open>isspace\<close>, \<open>splitlines\<close>, \<open>int()\<close>), with the split/join
    round trip and \<open>int()\<close> of decimal text.
  \<^item> \<open>Base64\<close>: \<open>safe_decode\<close> (lines 34--43) over CPython's \<open>binascii.a2b_base64\<close> in
    its non-strict mode (3.7--3.11) as a loop on a state record, with its invariant, the
    byte bound, the round trip with the encoder and the skipping of noise.
  \<^item> \<open>Codec\<close>: \<open>bytes.decode('utf-8')\<close> (strict, and with replacement as
    \<open>urllib.parse.unquote\<close> uses it) and \<open>unquote\<close>; the UTF-8 round trip.
  \<^item> \<open>Regex\<close>: \<open>re.match\<close> for the three patterns of \<open>decode_ss_node\<close>, a backtracking
    matcher in the order of Python's engine, and its equivalence with references made of
    \<open>str.partition\<close> and \<open>str.rpartition\<close> on the first line of the text.
  \<^item> \<open>Decode\<close>: \<open>decode_ss_node\<close> (lines 64--114) and \<open>decode_ssr_node\<close> (117--148), one
    function per loop body returning skip, a record, or the exception.
  \<^item> \<open>Normalize\<close>: the three normalizers (lines 222--330) and their invariants.
  \<^item> \<open>Feed\<close>: \<open>decode_v2ray_node\<close> (46--61) and \<open>get_proxies\<close> (151--219): the line
    dispatch with the \<open>clash_node\<close> it carries between lines, the YAML branch and the
    loop over subscriptions, and the abstract view of \<open>get_proxies\<close> as a concatenation
    of independent per-subscription feeds.  \<open>json.loads\<close>, \<open>yaml.load\<close> and
    \<open>requests.get\<close> are parameters (the record \<open>libs\<close>), so every theorem holds for any
    parser and network.
  \<^item> \<open>Merge\<close>: \<open>add_proxies_to_model\<close> (367--383) on values, \<open>load_local_config\<close>,
    \<open>get_default_config\<close> (333--364), \<open>save_config\<close> (386--397) up to the count it
    logs, and the entry point (400--420) as \<open>run\<close> and \<open>main_prog\<close>.
  \<^item> \<open>Heap\<close>: \<open>add_proxies_to_model\<close> again on Python's object model (a heap of list
    and dict objects addressed by references), where assignment shares list objects and
    \<open>extend\<close> mutates them in place.
  \<^item> \<open>Iterate\<close>: the loop over the \<open>proxy-groups\<close> list as Python's list iterator, which
    re-reads the list's length at every step (\<open>hgroups_loop\<close>, a
    \<open>partial_function (option)\<close>): it ends for every feed, and it equals the loop over
    a snapshot of the groups used in \<open>Heap\<close> unless a group's member list is the groups
    list itself.
  \<^item> \<open>Links\<close>: the link formats as encoders (specifications, not program code), the
    decoding round trips, and the ssr links the decoder rejects with an exception.
  \<^item> This theory: the end-to-end properties of one subscription line, from the link to
    the Clash record in the feed, and the alignment of every feed.

  \<^bold>\<open>What is proved.\<close>  Round trips: ssr and ss links decode to their fields, \<open>safe_decode\<close>
  inverts unpadded URL-safe base64, \<open>int()\<close> reads decimal text.  Invariants: the
  normalizers keep names aligned with records, drop \<open>None\<close> values, exclude the SSR
  informational entries and emit only vmess records with an \<open>alterId\<close>; every feed of
  \<open>get_proxies\<close> is aligned, and the base64 branch only appends.  Equivalence: the
  three \<open>re.match\<close> patterns of \<open>decode_ss_node\<close> are partitions of the first line at
  the first and last separators; the live loop over the groups equals the snapshot loop.
  Termination: the live loop over the groups ends, although its body may extend the
  list.  Refinement: \<open>get_proxies\<close> is the concatenation of the subscriptions' feeds.
  Functional behaviour: the merge (on values twice in a row, and on Python's objects with
  unshared and with shared member lists), the Clash fix-up, one line of each scheme end
  to end, and the count the program logs after saving.  Behaviours that differ from the
  specification or the intent, each for every input of its kind: lines with an unknown
  scheme repeat the previous line's records or raise \<open>TypeError\<close>; a text whose
  base64-alphabet characters number a multiple of four is never read as YAML; the remote
  template is discarded; ssr links with a parameter value that is not base64 of UTF-8
  text (the specification's scenario) or without \<open>/?\<close>, plugin options without \<open>=\<close>,
  unpadded vmess payloads, vmess items without a name and ss items with obfs but no
  plugin raise instead of being skipped; groups that share a member list (YAML anchors,
  or the names list a merge hands to every group without one) receive every name once
  per sharing group; a group whose member list is the groups list itself makes the
  merge raise \<open>AttributeError\<close>.

  \<^bold>\<open>Bounds and fuel.\<close>  Every loop over a list whose body cannot change it is
  modelled by \<open>rfold\<close> on a snapshot of the list.  The loop over \<open>proxy-groups\<close>
  may extend its own list, so it is a \<open>partial_function (option)\<close> with \<open>None\<close> for a run
  that does not end, and its termination is a theorem (by induction on the number of
  object references not yet visited).  The string functions that recurse on a shorter
  suffix (\<open>split\<close>, \<open>splitlines\<close>, UTF-8 decoding) are \<open>function\<close>s with a measure on the
  length, so no fuel is needed.  Byte values are \<open>nat\<close>; the decoder's loop invariant
  keeps them below 256.

  \<^bold>\<open>Not modelled.\<close>  Logging and \<open>print\<close> (no effect on values); \<open>save_to_file\<close> and
  \<open>yaml.dump\<close> in \<open>save_config\<close> (file output, YAML serialisation, one parameter of
  \<open>save_config\<close>); the parsers \<open>json.loads\<close> and
  \<open>yaml.load\<close> and the network, which are parameters; \<open>datetime\<close> and the
  \<open>config\<close> module of the entry point.  \<open>int()\<close> accepts ASCII digits only (Python also
  accepts other Unicode decimal digits); JSON floats are not values of \<open>pyval\<close>.  A
  \<open>proxy-groups\<close> value that is a dict or a string is iterated over a snapshot (the
  body cannot change its size).
\<close>

text \<open>The Clash record ss_to_clash builds from a node without plugin.\<close>

definition ss_record :: "pystr \<Rightarrow> pystr \<Rightarrow> pystr \<Rightarrow> nat \<Rightarrow> pystr \<Rightarrow> pyval" where
  "ss_record method password server n name =
     PDict [(py ''name'', PStr name), (py ''type'', PStr (py ''ss'')), (py ''server'', PStr server),
            (py ''port'', PInt (int n)), (py ''cipher'', PStr method), (py ''password'', PStr password)]"

text \<open>The Clash record ssr_to_clash builds from a node with obfsparam, protoparam and
  remarks parameters.\<close>

definition ssr_record :: "pystr list \<Rightarrow> nat \<Rightarrow> pystr \<Rightarrow> pystr \<Rightarrow> pystr \<Rightarrow> pystr \<Rightarrow> pyval" where
  "ssr_record flds n password op pp name =
     PDict [(py ''name'', PStr name), (py ''type'', PStr (py ''ssr'')), (py ''server'', PStr (flds ! 0)),
            (py ''port'', PInt (int n)), (py ''cipher'', PStr (flds ! 3)), (py ''password'', PStr password),
            (py ''obfs'', PStr (flds ! 4)), (py ''protocol'', PStr (flds ! 2)),
            (py ''obfs-param'', PStr op), (py ''protocol-param'', PStr pp), (py ''udp'', PBool True)]"

text \<open>C2: every feed get_proxies returns is aligned: its names are the records' names,
  index by index, whatever the subscriptions hold.\<close>

theorem get_proxies_aligned:
  assumes "get_proxies L urls = Inr f"
  shows "feed_aligned f"
  using assms by (rule get_proxies_aligned_inv)

theorem get_proxies_aligned_witness:
  "get_proxies \<lparr>json_loads = \<lambda>_. Inl ValueError,
                yaml_load = \<lambda>_. Inr (PDict [(py ''proxies'', PList [PDict [(py ''name'', PStr (py '' x ''))]])]),
                fetch_text = \<lambda>_. Inr [200]\<rparr> (py ''u'') =
     Inr \<lparr>proxy_list = [PDict [(py ''name'', PStr (py ''x'')), (py ''udp'', PBool True)]],
          proxy_names = [PStr (py ''x'')]\<rparr> \<and>
   feed_aligned \<lparr>proxy_list = [PDict [(py ''name'', PStr (py ''x'')), (py ''udp'', PBool True)]],
          proxy_names = [PStr (py ''x'')]\<rparr>"
proof -
  have h: "get_proxies \<lparr>json_loads = \<lambda>_. Inl ValueError,
                yaml_load = \<lambda>_. Inr (PDict [(py ''proxies'', PList [PDict [(py ''name'', PStr (py '' x ''))]])]),
                fetch_text = \<lambda>_. Inr [200]\<rparr> (py ''u'') =
     Inr \<lparr>proxy_list = [PDict [(py ''name'', PStr (py ''x'')), (py ''udp'', PBool True)]],
          proxy_names = [PStr (py ''x'')]\<rparr>"
    by (simp add: get_proxies_def py_split.simps find_sub_absent_hd feed_response_def b64decode_def
        clash_feed_def Let_def dget_def rmap_Cons clash_fix_def strip_name_def py_strip_def
        is_space_def feed_extend_def feed_empty_def startswith_def)
  show ?thesis using get_proxies_aligned [OF h] h by simp
qed

text \<open>C24: end to end, a line holding the ss:// link of a node with a decimal port and a
  name without surrounding blanks adds exactly one Clash record to the feed, the one with
  the node's name, server, integer port, cipher and password, and becomes the
  clash_node that later lines with an unknown scheme repeat.\<close>

theorem ss_line_record:
  assumes ok: "ss_link_ok method password server (dec_digits n) name"
    and nm: "name \<noteq> []" "py_strip name = name"
  shows "line_step L (ss_link method password server (dec_digits n) name) (acc, cn) =
         Inr (feed_extend acc \<lparr>proxy_list = [ss_record method password server n name],
                               proxy_names = [PStr name]\<rparr>,
              Some \<lparr>proxy_list = [ss_record method password server n name], proxy_names = [PStr name]\<rparr>)"
proof -
  let ?node = "ss_link method password server (dec_digits n) name"
  have pre: "\<not> startswith ?node (py ''vmess://'')" "startswith ?node (py ''ss://'')"
    by (simp_all add: ss_link_prefix startswith_def)
  have dec: "decode_ss_node [?node] = Inr [[(py ''name'', name), (py ''server'', server), (py ''port'', dec_digits n),
                    (py ''method'', method), (py ''password'', password)]]"
    using ss_decode_one_link_eq [OF ok] by (simp add: decode_ss_node_def collect_step_def)
  have cl: "ss_to_clash [[(py ''name'', name), (py ''server'', server), (py ''port'', dec_digits n),
                    (py ''method'', method), (py ''password'', password)]] =
            Inr \<lparr>proxy_list = [ss_record method password server n name], proxy_names = [PStr name]\<rparr>"
    using nm
    by (simp add: ss_to_clash_def ss_step_def ss_obj_def sget_def strip_name_def int_of_str_dec_digits
        drop_none_def dindex_def feed_add_def feed_empty_def ss_record_def)
  show ?thesis
    by (simp add: line_step_def dispatch_line_def pre [simplified] dec [simplified] cl [simplified])
qed

theorem ss_line_record_witness:
  "line_step failing_libs (ss_link (py ''aes-128-gcm'') (py ''pw'') (py ''h'') (dec_digits 8388) (py ''n1''))
     (feed_empty, None) =
   Inr (feed_extend feed_empty \<lparr>proxy_list = [ss_record (py ''aes-128-gcm'') (py ''pw'') (py ''h'') 8388 (py ''n1'')],
                                proxy_names = [PStr (py ''n1'')]\<rparr>,
        Some \<lparr>proxy_list = [ss_record (py ''aes-128-gcm'') (py ''pw'') (py ''h'') 8388 (py ''n1'')],
              proxy_names = [PStr (py ''n1'')]\<rparr>)"
proof (rule ss_line_record)
  have "dec_digits 8388 = py ''8388''" by (simp add: dec_digits.simps)
  then show "ss_link_ok (py ''aes-128-gcm'') (py ''pw'') (py ''h'') (dec_digits 8388) (py ''n1'')"
    by (simp add: ss_link_ok_def is_scalar_def)
qed (simp_all add: py_strip_def is_space_def)

text \<open>C25: end to end, a line holding the vmess:// link of a JSON text (standard base64)
  adds what v2ray_to_clash makes of the value json.loads returns for that text, for any
  JSON parser.\<close>

theorem vmess_line_normalizes:
  assumes "json \<noteq> []" "list_all is_scalar json" "json_loads L json = Inr v"
  shows "line_step L (vmess_link json) (acc, cn) =
         rbind (v2ray_to_clash [v]) (\<lambda>c. Inr (feed_extend acc c, Some c))"
proof -
  let ?p = "b64_enc (utf8_encode json)"
  have bok: "bytes_ok (utf8_encode json)" using assms(2) by (rule utf8_encode_bytes_ok)
  have ch: "\<forall>c \<in> set ?p. c < 128 \<and> \<not> is_space c" using b64_enc_not_space by blast
  have ne: "?p \<noteq> []" using assms(1) by (simp add: b64_enc_nonempty utf8_encode_nonempty)
  have sp: "\<not> py_isspace ?p"
  proof -
    from ne obtain c cs where "?p = c # cs" by (cases ?p) auto
    with ch show ?thesis by (auto simp: py_isspace_def)
  qed
  have asc: "list_all (\<lambda>c. c < 128) (py ''vmess://'' @ ?p)" using ch by (simp add: list_all_iff)
  have d1: "decode_utf8 (vmess_link json) = Inr (py ''vmess://'' @ ?p)"
    using decode_utf8_ascii [OF asc] by (simp add: vmess_link_def)
  have d2: "b64decode ?p = Inr (utf8_encode json)"
    using ch a2b_base64_enc [OF bok] by (simp add: b64decode_def list_all_iff)
  have v1: "v2ray_decode_one L (vmess_link json) = Inr (Some v)"
    using ne sp d2 assms(2,3) by (simp add: v2ray_decode_one_def d1 decode_utf8_encode)
  have pre: "startswith (vmess_link json) (py ''vmess://'')" by (simp add: vmess_link_def startswith_def)
  show ?thesis
    using v1 pre by (simp add: line_step_def dispatch_line_def decode_v2ray_node_def collect_step_def rbind_assoc)
qed

theorem vmess_line_normalizes_witness:
  "line_step \<lparr>json_loads = \<lambda>_. Inr (PDict []), yaml_load = \<lambda>_. Inl YAMLError,
              fetch_text = \<lambda>_. Inl RequestException\<rparr> (vmess_link (py ''{}'')) (feed_empty, None) =
   rbind (v2ray_to_clash [PDict []]) (\<lambda>c. Inr (feed_extend feed_empty c, Some c))"
  by (rule vmess_line_normalizes) (simp_all add: is_scalar_def)

text \<open>C26: end to end, a line holding the ssr:// link of a node with a decimal port, the
  parameters obfsparam, protoparam and remarks, and a name that is not informational adds
  exactly one Clash record with all eleven attributes and the name to the feed.\<close>

theorem ssr_line_record:
  assumes ok: "ssr_link_ok [srv, dec_digits n, proto, meth, ob] password
                 [(py ''obfsparam'', op), (py ''protoparam'', pp), (py ''remarks'', name)]"
    and nm: "name \<noteq> []" "py_strip name = name"
      "\<not> startswith name remaining_traffic" "\<not> startswith name expiry_time"
  shows "line_step L (ssr_link [srv, dec_digits n, proto, meth, ob] password
                        [(py ''obfsparam'', op), (py ''protoparam'', pp), (py ''remarks'', name)]) (acc, cn) =
         Inr (feed_extend acc \<lparr>proxy_list = [ssr_record [srv, dec_digits n, proto, meth, ob] n password op pp name],
                               proxy_names = [PStr name]\<rparr>,
              Some \<lparr>proxy_list = [ssr_record [srv, dec_digits n, proto, meth, ob] n password op pp name],
                    proxy_names = [PStr name]\<rparr>)"
proof -
  let ?flds = "[srv, dec_digits n, proto, meth, ob]"
  let ?ps = "[(py ''obfsparam'', op), (py ''protoparam'', pp), (py ''remarks'', name)]"
  let ?node = "ssr_link ?flds password ?ps"
  have pre: "\<not> startswith ?node (py ''vmess://'')" "\<not> startswith ?node (py ''ss://'')"
            "startswith ?node (py ''ssr://'')"
    by (simp_all add: ssr_link_def startswith_def)
  have info: "ssr_info ?flds password ?ps =
     [(py ''server'', srv), (py ''port'', dec_digits n), (py ''protocol'', proto), (py ''method'', meth),
      (py ''obfs'', ob), (py ''password'', password), (py ''obfsparam'', op), (py ''protoparam'', pp),
      (py ''remarks'', name)]"
    by (simp add: ssr_info_def ssr_keys_def)
  have dec: "decode_ssr_node [?node] = Inr [ssr_info ?flds password ?ps]"
    using ssr_decode_one_link_eq [OF ok] by (simp add: decode_ssr_node_def collect_step_def)
  have cl: "ssr_to_clash [ssr_info ?flds password ?ps] =
            Inr \<lparr>proxy_list = [ssr_record ?flds n password op pp name], proxy_names = [PStr name]\<rparr>"
    using nm
    by (simp add: info [simplified] ssr_to_clash_def ssr_step_def ssr_obj_def ssr_keep_def sget_def strip_name_def
        int_of_str_dec_digits drop_none_def feed_add_def feed_empty_def ssr_record_def dget_def)
  show ?thesis
    by (simp add: line_step_def dispatch_line_def pre [simplified] dec [simplified] cl [simplified])
qed

theorem ssr_line_record_witness:
  "line_step failing_libs (ssr_link [py ''h'', dec_digits 443, py ''origin'', py ''aes-256-cfb'', py ''plain''] (py ''pass'')
        [(py ''obfsparam'', py ''o''), (py ''protoparam'', py ''p''), (py ''remarks'', py ''n'')]) (feed_empty, None) =
   Inr (feed_extend feed_empty \<lparr>proxy_list = [ssr_record [py ''h'', dec_digits 443, py ''origin'', py ''aes-256-cfb'', py ''plain''] 443 (py ''pass'') (py ''o'') (py ''p'') (py ''n'')],
                                proxy_names = [PStr (py ''n'')]\<rparr>,
        Some \<lparr>proxy_list = [ssr_record [py ''h'', dec_digits 443, py ''origin'', py ''aes-256-cfb'', py ''plain''] 443 (py ''pass'') (py ''o'') (py ''p'') (py ''n'')],
              proxy_names = [PStr (py ''n'')]\<rparr>)"
proof (rule ssr_line_record)
  have "dec_digits 443 = py ''443''" by (simp add: dec_digits.simps)
  then show "ssr_link_ok [py ''h'', dec_digits 443, py ''origin'', py ''aes-256-cfb'', py ''plain''] (py ''pass'')
        [(py ''obfsparam'', py ''o''), (py ''protoparam'', py ''p''), (py ''remarks'', py ''n'')]"
    by (simp add: ssr_link_ok_def is_scalar_def)
qed (simp_all add: py_strip_def is_space_def startswith_def remaining_traffic_def expiry_time_def)

end
